theory Spec2Isabelle
  imports Main
begin

section \<open>Values exchanged with the engine, the channel and the application\<close>

text \<open>
  The peer of \<^verbatim>\<open>lite.js\<close> (class \<^verbatim>\<open>Peer extends Duplex\<close>) and its media extension of
  \<^verbatim>\<open>index.ts\<close> (class \<^verbatim>\<open>Peer extends Lite\<close>) are modelled as one record of the
  object's fields, and every method, event handler, timer callback and promise
  continuation as a function from a peer to a result and the peer it leaves.

  Naming: a private field \<^verbatim>\<open>_x\<close> of the source is the field \<open>x\<close> of the record
  (\<^verbatim>\<open>_connected\<close> is \<open>connected\<close>, \<^verbatim>\<open>__objectMode\<close> is \<open>objectMode\<close>), a private
  method \<^verbatim>\<open>_m\<close> is the function \<open>m\<close>; \<^verbatim>\<open>_destroy\<close>, \<^verbatim>\<open>__destroy\<close> and
  \<^verbatim>\<open>_write\<close> are \<open>p_destroy\<close>, \<open>pp_destroy\<close> and \<open>p_write\<close>, the public getter \<^verbatim>\<open>connected\<close> is
  \<open>connected_getter\<close>. Calls of \<^verbatim>\<open>_debug\<close> only print and are left out.

  Errors are values. \<open>Coded c n m\<close> is an error object that went through
  \<^verbatim>\<open>errCode(err, c)\<close>: it carries the tag \<open>c\<close>, its name \<open>n\<close> and message \<open>m\<close>.
  \<open>Raised n m\<close> is an error with no tag: a \<^verbatim>\<open>new Error(m)\<close>, an exception of the
  engine or the channel, or the TypeError of a property read on \<^verbatim>\<open>null\<close>.
\<close>

datatype error = Coded string string string | Raised string string

definition newError :: "string \<Rightarrow> error" where
  "newError m = Raised ''Error'' m"

text \<open>The TypeError of reading a property of, or calling, \<^verbatim>\<open>null\<close> or \<^verbatim>\<open>undefined\<close>.\<close>

definition typeError :: error where
  "typeError = Raised ''TypeError'' ''not an object or not a function''"

fun errCode :: "error \<Rightarrow> string \<Rightarrow> error" where
  "errCode (Raised n m) c = Coded c n m"
| "errCode (Coded _ n m) c = Coded c n m"

fun err_code :: "error \<Rightarrow> string option" where
  "err_code (Coded c _ _) = Some c"
| "err_code (Raised _ _) = None"

fun err_name :: "error \<Rightarrow> string" where
  "err_name (Coded _ n _) = n"
| "err_name (Raised n _) = n"

fun err_message :: "error \<Rightarrow> string" where
  "err_message (Coded _ _ m) = m"
| "err_message (Raised _ m) = m"

text \<open>
  An exception of the engine, of the channel or of a rejected promise is an error object
  that never went through \<^verbatim>\<open>errCode\<close>: its name and its message.
\<close>

type_synonym exn = "string \<times> string"

definition raised :: "exn \<Rightarrow> error" where
  "raised x = Raised (fst x) (snd x)"

datatype 'a res = Return 'a | Throw error

text \<open>Sequencing: an exception ends the function, with the peer as it is then.\<close>

definition andThen :: "'a res \<times> 's \<Rightarrow> ('a \<Rightarrow> 's \<Rightarrow> 'b res \<times> 's) \<Rightarrow> 'b res \<times> 's" where
  "andThen m f = (case m of (Throw e, s) \<Rightarrow> (Throw e, s) | (Return x, s) \<Rightarrow> f x s)"

definition ok :: "'s \<Rightarrow> unit res \<times> 's" where
  "ok s = (Return (), s)"

datatype ice_connection_state =
  IceNew | IceChecking | IceConnected | IceCompleted | IceDisconnected | IceFailed | IceClosed

datatype ice_gathering_state = GatherNew | Gathering | GatherComplete

datatype signaling_state =
  Stable | HaveLocalOffer | HaveRemoteOffer | HaveLocalPranswer | HaveRemotePranswer
  | SignalingClosed

datatype connection_state =
  ConnNew | ConnConnecting | ConnConnected | ConnDisconnected | ConnFailed | ConnClosed

datatype ready_state = RsConnecting | RsOpen | RsClosing | RsClosed

text \<open>\<^verbatim>\<open>iceRestartEnabled\<close>: \<^verbatim>\<open>false | "onFailure" | "onDisconnect"\<close>; only \<open>RestartOff\<close> is falsy.\<close>

datatype ice_restart = RestartOff | OnFailure | OnDisconnect

type_synonym bytes = "nat list"

text \<open>
  What \<^verbatim>\<open>send\<close> and \<^verbatim>\<open>_write\<close> are given: a string or binary data. In JavaScript the
  empty string is falsy; every other chunk is truthy.
\<close>

datatype chunk = Str string | Bin bytes

fun truthy_chunk :: "chunk \<Rightarrow> bool" where
  "truthy_chunk (Str t) = (t \<noteq> [])"
| "truthy_chunk (Bin _) = True"

text \<open>
  \<^verbatim>\<open>event.data\<close> of a channel message (the channel's \<^verbatim>\<open>binaryType\<close> is
  \<^verbatim>\<open>'arraybuffer'\<close>, so it is a string or an \<^verbatim>\<open>ArrayBuffer\<close>), and the values
  \<^verbatim>\<open>push\<close> can be given: a string, an \<^verbatim>\<open>ArrayBuffer\<close>, a \<^verbatim>\<open>Uint8Array\<close>, or \<^verbatim>\<open>null\<close>
  for the end of the readable side.
\<close>

datatype frame = TextFrame string | ArrayBufferFrame bytes

datatype payload = PString string | PArrayBuffer bytes | PUint8Array bytes | PNull

record description =
  d_type :: string
  d_sdp :: string

record candidate =
  c_candidate :: string
  c_sdpMLineIndex :: "nat option"
  c_sdpMid :: "string option"
  c_address :: "string option"

text \<open>The payloads of the \<^verbatim>\<open>'signal'\<close> event.\<close>

datatype signal =
    SigDescription string string
  | SigCandidate string "nat option" "string option"
  | SigRenegotiate
  | SigTransceiverRequest string string

text \<open>
  The argument of \<^verbatim>\<open>signal(data)\<close> once it is an object: the four properties the
  method looks at (\<^verbatim>\<open>sdp\<close> is truthy when it is a non-empty string).
\<close>

record signal_data =
  sd_renegotiate :: bool
  sd_transceiverRequest :: "(string \<times> string) option"
  sd_candidate :: "candidate option"
  sd_sdp :: "string option"
  sd_type :: string

datatype signal_input = SignalString string | SignalObject signal_data

text \<open>
  What \<^verbatim>\<open>JSON.parse\<close> makes of a string: it throws, or it returns \<^verbatim>\<open>null\<close>, or it returns
  a value whose properties can be read. On a number, a string, a boolean or an array the
  four properties \<^verbatim>\<open>signal\<close> reads are \<^verbatim>\<open>undefined\<close>, as on an object without them:
  \<open>ParsedData\<close> with all four absent.
\<close>

datatype parsed = ParseThrows | ParsedNull | ParsedData signal_data

text \<open>One report of \<^verbatim>\<open>getStats\<close>, with the properties \<^verbatim>\<open>_maybeReady\<close> reads.\<close>

record stat_item =
  st_type :: string
  st_id :: string
  st_selectedCandidatePairId :: "string option"
  st_googActiveConnection :: "string option"
  st_selected :: bool
  st_localCandidateId :: "string option"
  st_remoteCandidateId :: "string option"
  st_ip :: "string option"
  st_address :: "string option"
  st_port :: "nat option"
  st_ipAddress :: "string option"
  st_portNumber :: "nat option"
  st_googLocalAddress :: "string option"
  st_googRemoteAddress :: "string option"

text \<open>
  A number as the peer stores it in \<^verbatim>\<open>localPort\<close> and \<^verbatim>\<open>remotePort\<close>: the result of
  \<^verbatim>\<open>Number(x)\<close>. \<open>NumberOfText t\<close> is \<^verbatim>\<open>Number(t)\<close> for a string \<open>t\<close> that is not a run of
  decimal digits, kept as it is spelled: no function of the peer computes with a port.
\<close>

datatype js_number = Num nat | NaN | NumberOfText string

text \<open>
  Events the peer emits, in order. \<open>EvIceGatheringComplete\<close> is the internal
  \<^verbatim>\<open>'_iceGatheringComplete'\<close> event.
\<close>

datatype emitted =
    EvSignal signal
  | EvConnect
  | EvReconnect
  | EvError error
  | EvNegotiated
  | EvSignalingStateChange signaling_state
  | EvIceStateChange ice_connection_state ice_gathering_state
  | EvIceTimeout
  | EvIceGatheringComplete
  | EvTrack nat nat
  | EvStream nat

text \<open>Methods of the engine and of the channel that the peer invokes, as a log.\<close>

datatype pc_call =
    CallCreateDataChannel
  | CallCreateOffer bool
  | CallCreateAnswer
  | CallSetLocalDescription description
  | CallSetRemoteDescription signal_data
  | CallAddIceCandidate candidate
  | CallRestartIce
  | CallAddTransceiver string string
  | CallAddTrack nat nat
  | CallRemoveTrack nat
  | CallReplaceTrack nat "nat option"
  | CallGetStats
  | CallClose

text \<open>
  The engine (\<^verbatim>\<open>RTCPeerConnection\<close>) as the peer sees it: the state properties it
  reads, the capabilities it tests, and the outcome of the synchronous methods that can
  throw or return a handle (\<open>pc_addTransceiverThrows\<close>, \<open>pc_addTrackResult\<close>,
  \<open>pc_removeTrackThrows\<close>), which belong to the environment. \<open>pc_hasPeerIdentity\<close>
  tells that \<^verbatim>\<open>peerIdentity\<close> is an object (a promise). \<open>pc_unrequestedTransceivers\<close> lists the kinds of the transceivers of
  \<^verbatim>\<open>getTransceivers()\<close> that have no \<^verbatim>\<open>mid\<close>, a sender track and no
  \<^verbatim>\<open>requested\<close> mark.
\<close>

record engine =
  iceConnectionState :: ice_connection_state
  iceGatheringState :: ice_gathering_state
  signalingState :: signaling_state
  connectionState :: connection_state
  remoteDescription :: "description option"
  localDescription :: "description option"
  hasRestartIce :: bool
  getStatsLength :: nat
  pc_unrequestedTransceivers :: "string list"
  pc_addTransceiverThrows :: "exn option"
  pc_addTrackResult :: "nat \<Rightarrow> nat \<Rightarrow> exn + nat"
  pc_removeTrackThrows :: "nat \<Rightarrow> exn option"
  pc_hasPeerIdentity :: bool
  pc_calls :: "pc_call list"

text \<open>
  The data channel: \<open>ch_sendThrows\<close> is the exception \<^verbatim>\<open>send\<close> would raise now (the
  environment's), \<open>ch_sent\<close> the chunks handed to \<^verbatim>\<open>send\<close> that it accepted.
\<close>

record channel_obj =
  readyState :: ready_state
  bufferedAmount :: nat
  ch_lowThresholdIsNumber :: bool
  bufferedAmountLowThreshold :: nat
  ch_label :: string
  ch_sendThrows :: "exn option"
  ch_sent :: "chunk list"

text \<open>
  Deferred work. A \<open>microtask\<close> is the callback of a \<^verbatim>\<open>queueMicrotask\<close>, a \<open>task\<close>
  that of a \<^verbatim>\<open>setTimeout\<close> or \<^verbatim>\<open>setInterval\<close>; an \<open>async_op\<close> is a pending promise of the engine with the
  continuations the peer attached; a \<open>listener\<close> is a closure registered with
  \<^verbatim>\<open>once('_iceGatheringComplete', ...)\<close>.
\<close>

datatype destroy_cb = NoopCb | StreamCb

datatype microtask = NegotiationBatch | StreamNotify nat

datatype task =
    CreateOfferTimer
  | IceFailureRecoveryTimer
  | IceCompleteTimer
  | TeardownTimer destroy_cb "error option"
  | ClosingInterval
  | BackpressureInterval
  | DestroySoonTimer
  | FindCandidatePairTimer

datatype async_op =
    SetRemoteDescriptionOp
  | AddIceCandidateOp candidate
  | CreateOfferOp
  | SetLocalOfferOp description
  | CreateAnswerOp
  | SetLocalAnswerOp description
  | GetStatsOp bool
  | PeerIdentityOp

datatype listener = SendOffer description | SendAnswer description

section \<open>The peer\<close>

record peer =
  objectMode :: bool
  channelName :: "string option"
  initiator :: bool
  channelNegotiated :: bool
  sdpTransform :: "string \<Rightarrow> string"
  trickle :: bool
  allowHalfTrickle :: bool
  iceRestartEnabled :: ice_restart
  iceFailureRecoveryTimer :: "nat option"
  offerOptions_iceRestart :: bool
  destroyed :: bool
  destroying :: bool
  connected :: bool
  connecting :: bool
  connectedOnce :: bool
  remoteAddress :: "string option"
  remoteFamily :: "string option"
  remotePort :: "js_number option"
  localAddress :: "string option"
  localFamily :: "string option"
  localPort :: "js_number option"
  pcReady :: bool
  channelReady :: bool
  iceGatheringComplete :: bool
  iceGatheringCompleteTimer :: "nat option"
  channel :: "channel_obj option"
  pendingCandidates :: "candidate list"
  isNegotiating :: bool
  isRestartingIce :: bool
  firstNegotiation :: bool
  batchedNegotiation :: bool
  queuedNegotiation :: bool
  sendersAwaitingStable :: "nat list"
  closingInterval :: "nat option"
  isClosing :: bool
  remoteTracks :: "(nat \<times> nat) list option"
  remoteStreams :: "nat list option"
  chunk :: "chunk option"
  cb :: "nat option"
  interval :: "nat option"
  pc :: "engine option"
  isReactNativeWebrtc :: bool
  onFinishBound :: bool
  finishListener :: bool
  senderMap :: "(nat \<rightharpoonup> nat) option"
  submaps :: "nat \<Rightarrow> (nat \<rightharpoonup> nat)"
  nextSubmap :: nat
  senderRemoved :: "nat \<Rightarrow> bool"
  senderHasReplaceTrack :: "nat \<Rightarrow> bool"
  ondatachannel :: bool
  ontrack :: bool
  emitted :: "emitted list"
  microtasks :: "microtask list"
  timers :: "(nat \<times> task) list"
  nextTimer :: nat
  asyncOps :: "async_op list"
  gatheringListeners :: "listener list"
  connectListeners :: nat
  pushed :: "payload list"
  cbCalls :: "(nat \<times> error option) list"
  endCalled :: bool
  warnings :: "string list"

text \<open>
  Fields beyond the source's own:
  \<^item> \<open>destroyed\<close> is the \<^verbatim>\<open>destroyed\<close> property of the stream base class; the peer only
    reads it.
  \<^item> \<open>isClosing\<close> is the local variable of that name captured by the closing-interval
    closure of \<^verbatim>\<open>_setupData\<close>.
  \<^item> \<open>senderMap\<close>, \<open>submaps\<close>, \<open>senderRemoved\<close>: \<^verbatim>\<open>_senderMap\<close> is a \<^verbatim>\<open>Map\<close> from a track
    to a \<^verbatim>\<open>Map\<close> object from a stream to a sender. The inner maps are objects that
    \<^verbatim>\<open>replaceTrack\<close> can share between two tracks, so they live in a store (\<open>submaps\<close>,
    addressed by reference); \<open>senderRemoved\<close> is the \<^verbatim>\<open>removed\<close> property the peer
    sets on sender objects, \<open>senderHasReplaceTrack\<close> tells of a sender object that its
    \<^verbatim>\<open>replaceTrack\<close> is not \<^verbatim>\<open>null\<close>. A key whose value is \<^verbatim>\<open>undefined\<close> reads like a missing key
    (the code only uses \<^verbatim>\<open>get\<close>). Tracks, streams and senders are object identities.
  \<^item> \<open>ondatachannel\<close>, \<open>ontrack\<close>: the constructors installed that handler on the engine.
  \<^item> \<open>emitted\<close>, \<open>pushed\<close>, \<open>cbCalls\<close>, \<open>warnings\<close>, \<open>endCalled\<close>: the calls of
    \<^verbatim>\<open>emit\<close>, \<^verbatim>\<open>push\<close>, of write callbacks (identified by a number), of \<^verbatim>\<open>warn\<close>
    and of \<^verbatim>\<open>end\<close>, in order.
  \<^item> \<open>microtasks\<close>, \<open>timers\<close>, \<open>asyncOps\<close>: deferred work not yet run; timer handles
    are numbers from \<open>nextTimer\<close> (never 0, so a handle is truthy).
  \<^item> \<open>gatheringListeners\<close>, \<open>connectListeners\<close>, \<open>finishListener\<close>: the listeners the
    peer itself registered with \<^verbatim>\<open>once\<close> for \<^verbatim>\<open>'_iceGatheringComplete'\<close>, for
    \<^verbatim>\<open>'connect'\<close> (each is \<^verbatim>\<open>destroySoon\<close>) and for \<^verbatim>\<open>'finish'\<close>.
\<close>

definition emit :: "emitted \<Rightarrow> peer \<Rightarrow> peer" where
  "emit ev s = s\<lparr>emitted := emitted s @ [ev]\<rparr>"

definition setTimeout :: "task \<Rightarrow> peer \<Rightarrow> nat \<times> peer" where
  "setTimeout t s =
     (nextTimer s, s\<lparr>timers := timers s @ [(nextTimer s, t)], nextTimer := Suc (nextTimer s)\<rparr>)"

definition clearTimeout :: "nat option \<Rightarrow> peer \<Rightarrow> peer" where
  "clearTimeout h s =
     (case h of None \<Rightarrow> s
      | Some i \<Rightarrow> s\<lparr>timers := filter (\<lambda>e. fst e \<noteq> i) (timers s)\<rparr>)"

definition queueMicrotask :: "microtask \<Rightarrow> peer \<Rightarrow> peer" where
  "queueMicrotask t s = s\<lparr>microtasks := microtasks s @ [t]\<rparr>"

subsection \<open>Destruction\<close>

text \<open>
  \<^verbatim>\<open>_destroy(cb, err)\<close> marks the peer as destroying and defers the teardown to a timer;
  \<^verbatim>\<open>__destroy(err)\<close> ends the writable side and calls it with a callback that does
  nothing.
\<close>

definition p_destroy :: "destroy_cb \<Rightarrow> error option \<Rightarrow> peer \<Rightarrow> peer" where
  "p_destroy k err s =
     (if destroyed s \<or> destroying s then s
      else snd (setTimeout (TeardownTimer k err) (s\<lparr>destroying := True\<rparr>)))"

definition pp_destroy :: "error option \<Rightarrow> peer \<Rightarrow> peer" where
  "pp_destroy err s = p_destroy NoopCb err (s\<lparr>endCalled := True\<rparr>)"

subsection \<open>Negotiation\<close>

definition needsNegotiation :: "peer \<Rightarrow> peer" where
  "needsNegotiation s =
     (if batchedNegotiation s then s
      else queueMicrotask NegotiationBatch (s\<lparr>batchedNegotiation := True\<rparr>))"

definition negotiate :: "peer \<Rightarrow> unit res \<times> peer" where
  "negotiate s =
     (if destroying s then (Return (), s)
      else if destroyed s then
        (Throw (errCode (newError ''cannot negotiate after peer is destroyed'')
                  ''ERR_DESTROYED''), s)
      else
        let s1 =
          (if initiator s then
             (if isNegotiating s then s\<lparr>queuedNegotiation := True\<rparr>
              else snd (setTimeout CreateOfferTimer s))
           else
             (if isNegotiating s then s\<lparr>queuedNegotiation := True\<rparr>
              else emit (EvSignal SigRenegotiate) s))
        in (Return (), s1\<lparr>isNegotiating := True\<rparr>))"

text \<open>The closure that \<^verbatim>\<open>_needsNegotiation\<close> hands to \<^verbatim>\<open>queueMicrotask\<close>.\<close>

definition negotiationBatch :: "peer \<Rightarrow> unit res \<times> peer" where
  "negotiationBatch s0 =
     (let s = s0\<lparr>batchedNegotiation := False\<rparr> in
      if initiator s \<or> \<not> firstNegotiation s then
        andThen (negotiate s) (\<lambda>_ s1. ok (s1\<lparr>firstNegotiation := False\<rparr>))
      else ok (s\<lparr>firstNegotiation := False\<rparr>))"

subsection \<open>ICE restart and the recovery timer\<close>

definition startIceFailureRecoveryTimeout :: "peer \<Rightarrow> peer" where
  "startIceFailureRecoveryTimeout s =
     (if destroyed s \<or> destroying s then s
      else if iceFailureRecoveryTimer s \<noteq> None then s
      else
        let s1 = (clearTimeout (iceGatheringCompleteTimer s) (s\<lparr>iceGatheringComplete := False\<rparr>))
                   \<lparr>iceGatheringCompleteTimer := None\<rparr>;
            (i, s2) = setTimeout IceFailureRecoveryTimer s1
        in s2\<lparr>iceFailureRecoveryTimer := Some i\<rparr>)"

text \<open>The callback of the recovery timer.\<close>

definition iceFailureRecoveryTimeout :: "peer \<Rightarrow> unit res \<times> peer" where
  "iceFailureRecoveryTimeout s =
     (case pc s of
        None \<Rightarrow> (Throw typeError, s)
      | Some e \<Rightarrow>
          let hasFailedToRecover =
                \<not> (iceConnectionState e = IceConnected \<or> iceConnectionState e = IceCompleted)
          in if hasFailedToRecover then
               (Return (), pp_destroy (Some (errCode (newError ''Ice connection recovery failed.'')
                                               ''ERR_ICE_CONNECTION_FAILURE'')) s)
             else (Return (), s))"

definition restartIce :: "peer \<Rightarrow> bool res \<times> peer" where
  "restartIce s =
     (if destroyed s \<or> destroying s then (Return False, s)
      else if \<not> initiator s then (Return False, s)
      else if isRestartingIce s then (Return False, s)
      else
        let s1 = (if iceFailureRecoveryTimer s \<noteq> None then
                    startIceFailureRecoveryTimeout
                      ((clearTimeout (iceFailureRecoveryTimer s) s)\<lparr>iceFailureRecoveryTimer := None\<rparr>)
                  else s);
            s2 = (clearTimeout (iceGatheringCompleteTimer s1) (s1\<lparr>iceGatheringComplete := False\<rparr>))
                   \<lparr>iceGatheringCompleteTimer := None, isNegotiating := False,
                    isRestartingIce := True\<rparr>
        in case pc s2 of
             None \<Rightarrow> (Throw typeError, s2)
           | Some e \<Rightarrow>
               (Return True,
                needsNegotiation
                  (if hasRestartIce e then s2\<lparr>pc := Some (e\<lparr>pc_calls := pc_calls e @ [CallRestartIce]\<rparr>)\<rparr>
                   else s2)))"

subsection \<open>The stream adapter: sending, writing, channel events\<close>

definition MAX_BUFFERED_AMOUNT :: nat where
  "MAX_BUFFERED_AMOUNT = 64 * 1024"

definition callCb :: "nat \<Rightarrow> error option \<Rightarrow> peer \<Rightarrow> peer" where
  "callCb k err s = s\<lparr>cbCalls := cbCalls s @ [(k, err)]\<rparr>"

definition push :: "payload \<Rightarrow> peer \<Rightarrow> peer" where
  "push d s = s\<lparr>pushed := pushed s @ [d]\<rparr>"

definition send :: "chunk \<Rightarrow> peer \<Rightarrow> unit res \<times> peer" where
  "send c s =
     (if destroying s then (Return (), s)
      else if destroyed s then
        (Throw (errCode (newError ''cannot send after peer is destroyed'') ''ERR_DESTROYED''), s)
      else
        (case channel s of
           None \<Rightarrow> (Throw typeError, s)
         | Some ch \<Rightarrow>
             (case ch_sendThrows ch of
                Some x \<Rightarrow> (Throw (raised x), s)
              | None \<Rightarrow> (Return (), s\<lparr>channel := Some (ch\<lparr>ch_sent := ch_sent ch @ [c]\<rparr>)\<rparr>))))"

definition p_write :: "chunk \<Rightarrow> nat \<Rightarrow> peer \<Rightarrow> unit res \<times> peer" where
  "p_write c k s =
     (if destroyed s then
        ok (callCb k (Some (errCode (newError ''cannot write after peer is destroyed'')
                              ''ERR_DATA_CHANNEL'')) s)
      else if connected s then
        (case send c s of
           (Throw e, s1) \<Rightarrow> ok (pp_destroy (Some (errCode e ''ERR_DATA_CHANNEL'')) s1)
         | (Return _, s1) \<Rightarrow>
             (case channel s1 of
                None \<Rightarrow> (Throw typeError, s1)
              | Some ch \<Rightarrow>
                  if bufferedAmount ch > MAX_BUFFERED_AMOUNT then ok (s1\<lparr>cb := Some k\<rparr>)
                  else ok (callCb k None s1)))
      else ok (s\<lparr>chunk := Some c, cb := Some k\<rparr>))"

text \<open>
  \<^verbatim>\<open>_final(cb)\<close>; \<open>readableEnded\<close> is \<^verbatim>\<open>this._readableState.ended\<close> of the stream
  base class.
\<close>

definition final :: "bool \<Rightarrow> nat \<Rightarrow> peer \<Rightarrow> peer" where
  "final readableEnded k s = callCb k None (if \<not> readableEnded then push PNull s else s)"

definition onFinish :: "peer \<Rightarrow> peer" where
  "onFinish s =
     (if destroyed s then s
      else if connected s then snd (setTimeout DestroySoonTimer s)
      else s\<lparr>connectListeners := Suc (connectListeners s)\<rparr>)"

definition onChannelMessage :: "(string \<Rightarrow> bytes) \<Rightarrow> frame \<Rightarrow> peer \<Rightarrow> peer" where
  "onChannelMessage text2arr ev s =
     (if destroyed s then s
      else
        let d = (case ev of
                   ArrayBufferFrame b \<Rightarrow> PUint8Array b
                 | TextFrame t \<Rightarrow> if objectMode s = False then PUint8Array (text2arr t)
                                  else PString t)
        in push d s)"

definition onChannelBufferedAmountLow :: "peer \<Rightarrow> peer" where
  "onChannelBufferedAmountLow s =
     (if destroyed s \<or> cb s = None then s
      else case cb s of None \<Rightarrow> s | Some k \<Rightarrow> callCb k None (s\<lparr>cb := None\<rparr>))"

definition onInterval :: "peer \<Rightarrow> peer" where
  "onInterval s =
     (case channel s of
        None \<Rightarrow> s
      | Some ch \<Rightarrow>
          if cb s = None \<or> bufferedAmount ch > MAX_BUFFERED_AMOUNT then s
          else onChannelBufferedAmountLow s)"

definition onChannelClose :: "peer \<Rightarrow> peer" where
  "onChannelClose s = (if destroyed s then s else pp_destroy None s)"

text \<open>The callback of the closing interval set up by \<^verbatim>\<open>_setupData\<close>.\<close>

definition closingIntervalTick :: "peer \<Rightarrow> peer" where
  "closingIntervalTick s =
     (if (case channel s of None \<Rightarrow> False | Some ch \<Rightarrow> readyState ch = RsClosing) then
        (if isClosing s then onChannelClose s else s)\<lparr>isClosing := True\<rparr>
      else s\<lparr>isClosing := False\<rparr>)"

definition setupData :: "channel_obj option \<Rightarrow> peer \<Rightarrow> peer" where
  "setupData evChannel s =
     (case evChannel of
        None \<Rightarrow>
          pp_destroy (Some (errCode (newError ''Data channel event is missing `channel` property'')
                              ''ERR_DATA_CHANNEL'')) s
      | Some ch \<Rightarrow>
          let ch1 = (if ch_lowThresholdIsNumber ch
                     then ch\<lparr>bufferedAmountLowThreshold := MAX_BUFFERED_AMOUNT\<rparr> else ch);
              s1 = s\<lparr>channel := Some ch1, channelName := Some (ch_label ch1), isClosing := False\<rparr>;
              (i, s2) = setTimeout ClosingInterval s1
          in s2\<lparr>closingInterval := Some i\<rparr>)"

text \<open>
  The callback of the timer of \<^verbatim>\<open>_destroy\<close>. Both handles are closed (exceptions of
  \<^verbatim>\<open>close()\<close> are swallowed) and their event handlers removed before the handles are
  dropped. \<open>StreamCb\<close> is the callback the stream base class passes when the
  application calls \<^verbatim>\<open>destroy()\<close>: after it the base class reports \<^verbatim>\<open>destroyed\<close>.
\<close>

definition teardown :: "destroy_cb \<Rightarrow> error option \<Rightarrow> peer \<Rightarrow> peer" where
  "teardown k err s =
     (let s1 = s\<lparr>connected := False, pcReady := False, channelReady := False,
                 remoteTracks := None, remoteStreams := None, senderMap := None\<rparr>;
          s2 = (clearTimeout (closingInterval s1) s1)\<lparr>closingInterval := None\<rparr>;
          s3 = (clearTimeout (interval s2) s2)\<lparr>interval := None, chunk := None, cb := None\<rparr>;
          s4 = s3\<lparr>finishListener := (if onFinishBound s3 then False else finishListener s3),
                  onFinishBound := False\<rparr>;
          s5 = s4\<lparr>pc := None, channel := None\<rparr>;
          s6 = (case err of None \<Rightarrow> s5 | Some e \<Rightarrow> emit (EvError e) s5)
      in case k of NoopCb \<Rightarrow> s6 | StreamCb \<Rightarrow> s6\<lparr>destroyed := True\<rparr>)"

subsection \<open>ICE gathering\<close>

definition signalOf :: "description \<Rightarrow> signal" where
  "signalOf d = SigDescription (d_type d) (d_sdp d)"

definition addTransceiver :: "string \<Rightarrow> string \<Rightarrow> peer \<Rightarrow> unit res \<times> peer" where
  "addTransceiver kind init s =
     (if destroying s then (Return (), s)
      else if destroyed s then
        (Throw (errCode (newError ''cannot addTransceiver after peer is destroyed'')
                  ''ERR_DESTROYED''), s)
      else if initiator s then
        (case pc s of
           None \<Rightarrow> ok (needsNegotiation s)
         | Some e \<Rightarrow>
             (case pc_addTransceiverThrows e of
                Some x \<Rightarrow> ok (pp_destroy (Some (errCode (raised x) ''ERR_ADD_TRANSCEIVER'')) s)
              | None \<Rightarrow>
                  ok (needsNegotiation
                        (s\<lparr>pc := Some (e\<lparr>pc_calls := pc_calls e @ [CallAddTransceiver kind init]\<rparr>)\<rparr>))))
      else ok (emit (EvSignal (SigTransceiverRequest kind init)) s))"

text \<open>
  \<^verbatim>\<open>_requestMissingTransceivers\<close>: every transceiver without a \<^verbatim>\<open>mid\<close> is marked as
  requested and \<^verbatim>\<open>addTransceiver\<close> is called with its kind (and the default
  \<^verbatim>\<open>init = {}\<close>).
\<close>

fun addTransceivers :: "string list \<Rightarrow> peer \<Rightarrow> unit res \<times> peer" where
  "addTransceivers [] s = ok s"
| "addTransceivers (kind # ks) s =
     andThen (addTransceiver kind ''{}'' s) (\<lambda>_. addTransceivers ks)"

definition requestMissingTransceivers :: "peer \<Rightarrow> unit res \<times> peer" where
  "requestMissingTransceivers s =
     (case pc s of
        None \<Rightarrow> ok s
      | Some e \<Rightarrow>
          addTransceivers (pc_unrequestedTransceivers e)
            (s\<lparr>pc := Some (e\<lparr>pc_unrequestedTransceivers := []\<rparr>)\<rparr>))"

text \<open>The closures \<^verbatim>\<open>sendOffer\<close> and \<^verbatim>\<open>sendAnswer\<close>.\<close>

definition sendOffer :: "description \<Rightarrow> peer \<Rightarrow> unit res \<times> peer" where
  "sendOffer offer s =
     (if destroyed s then ok s
      else case pc s of
             None \<Rightarrow> (Throw typeError, s)
           | Some e \<Rightarrow>
               ok (emit (EvSignal (signalOf (case localDescription e of Some d \<Rightarrow> d
                                                | None \<Rightarrow> offer))) s))"

definition sendAnswer :: "description \<Rightarrow> peer \<Rightarrow> unit res \<times> peer" where
  "sendAnswer answer s =
     (if destroyed s then ok s
      else case pc s of
             None \<Rightarrow> (Throw typeError, s)
           | Some e \<Rightarrow>
               let s1 = emit (EvSignal (signalOf (case localDescription e of Some d \<Rightarrow> d
                                                   | None \<Rightarrow> answer))) s
               in if \<not> initiator s1 then requestMissingTransceivers s1 else ok s1)"

fun runListener :: "listener \<Rightarrow> peer \<Rightarrow> unit res \<times> peer" where
  "runListener (SendOffer d) s = sendOffer d s"
| "runListener (SendAnswer d) s = sendAnswer d s"

text \<open>
  \<^verbatim>\<open>emit('_iceGatheringComplete')\<close>: the listeners registered with \<^verbatim>\<open>once\<close> run in
  order, each removed before it is called; an exception of one leaves the later ones
  registered.
\<close>

fun runListeners :: "listener list \<Rightarrow> peer \<Rightarrow> unit res \<times> peer" where
  "runListeners [] s = ok s"
| "runListeners (l # ls) s =
     andThen (runListener l (s\<lparr>gatheringListeners := ls\<rparr>)) (\<lambda>_. runListeners ls)"

definition onIceGatheringComplete :: "peer \<Rightarrow> unit res \<times> peer" where
  "onIceGatheringComplete s =
     (if \<not> iceGatheringComplete s then
        andThen (runListeners (gatheringListeners s)
                   (emit EvIceGatheringComplete (s\<lparr>iceGatheringComplete := True\<rparr>)))
          (\<lambda>_ s1. ok ((clearTimeout (iceGatheringCompleteTimer s1) s1)
                         \<lparr>iceGatheringCompleteTimer := None\<rparr>))
      else ok s)"

definition startIceCompleteTimeout :: "peer \<Rightarrow> peer" where
  "startIceCompleteTimeout s =
     (if destroyed s then s
      else if iceGatheringCompleteTimer s \<noteq> None then s
      else let (i, s1) = setTimeout IceCompleteTimer s in s1\<lparr>iceGatheringCompleteTimer := Some i\<rparr>)"

text \<open>The callback of the timer of \<^verbatim>\<open>_startIceCompleteTimeout\<close>.\<close>

definition iceCompleteTimeout :: "peer \<Rightarrow> unit res \<times> peer" where
  "iceCompleteTimeout s =
     (if \<not> iceGatheringComplete s then onIceGatheringComplete (emit EvIceTimeout s) else ok s)"

definition onIceCandidate :: "candidate option \<Rightarrow> peer \<Rightarrow> unit res \<times> peer" where
  "onIceCandidate evCandidate s =
     (if destroyed s then ok s
      else
        andThen
          (case evCandidate of
             Some c \<Rightarrow>
               if trickle s then
                 ok (emit (EvSignal (SigCandidate (c_candidate c) (c_sdpMLineIndex c) (c_sdpMid c))) s)
               else ok s
           | None \<Rightarrow> if \<not> iceGatheringComplete s then onIceGatheringComplete s else ok s)
          (\<lambda>_ s1. if evCandidate \<noteq> None then ok (startIceCompleteTimeout s1) else ok s1))"

subsection \<open>Offers and answers\<close>

text \<open>
  \<^verbatim>\<open>filterTrickle\<close>: \<^verbatim>\<open>sdp.replace(/a=ice-options:trickle\s\n/g, '')\<close>, every match removed
  from left to right. Strings are character lists; \<^verbatim>\<open>\s\<close> is taken over the ASCII
  white space.
\<close>

definition isSpace :: "char \<Rightarrow> bool" where
  "isSpace c = (c \<in> set [CHR '' '', CHR 0x09, CHR 0x0A, CHR 0x0B, CHR 0x0C, CHR 0x0D])"

definition trickleLineAt :: "string \<Rightarrow> bool" where
  "trickleLineAt xs =
     (take (length ''a=ice-options:trickle'') xs = ''a=ice-options:trickle'' \<and>
      (case drop (length ''a=ice-options:trickle'') xs of
         w # n # _ \<Rightarrow> isSpace w \<and> n = CHR 0x0A
       | _ \<Rightarrow> False))"

fun filterTrickle :: "string \<Rightarrow> string" where
  "filterTrickle [] = []"
| "filterTrickle (c # cs) =
     (if trickleLineAt (c # cs) then filterTrickle (drop (length ''a=ice-options:trickle'' + 1) cs)
      else c # filterTrickle cs)"

datatype 'a settled = Fulfilled 'a | Rejected exn

text \<open>\<^verbatim>\<open>.catch(err => this.__destroy(errCode(err, code)))\<close> at the end of a promise chain.\<close>

definition caught :: "string \<Rightarrow> unit res \<times> peer \<Rightarrow> peer" where
  "caught code m =
     (case m of (Return _, s) \<Rightarrow> s | (Throw e, s) \<Rightarrow> pp_destroy (Some (errCode e code)) s)"

definition logCall :: "pc_call \<Rightarrow> engine \<Rightarrow> engine" where
  "logCall c e = e\<lparr>pc_calls := pc_calls e @ [c]\<rparr>"

definition createOffer :: "peer \<Rightarrow> unit res \<times> peer" where
  "createOffer s =
     (if destroyed s then ok s
      else
        let offerOptions = offerOptions_iceRestart s;
            s1 = (if isRestartingIce s then s\<lparr>offerOptions_iceRestart := True\<rparr> else s)
        in case pc s1 of
             None \<Rightarrow> (Throw typeError, s1)
           | Some e \<Rightarrow>
               ok (s1\<lparr>pc := Some (logCall (CallCreateOffer offerOptions) e),
                      asyncOps := asyncOps s1 @ [CreateOfferOp]\<rparr>))"

definition transformSdp :: "peer \<Rightarrow> description \<Rightarrow> description" where
  "transformSdp s d =
     d\<lparr>d_sdp := sdpTransform s (if \<not> trickle s \<and> \<not> allowHalfTrickle s then filterTrickle (d_sdp d)
                                  else d_sdp d)\<rparr>"

definition createOfferThen :: "description \<Rightarrow> peer \<Rightarrow> unit res \<times> peer" where
  "createOfferThen offer0 s =
     (if destroyed s then ok s
      else
        let offer = transformSdp s offer0
        in case pc s of
             None \<Rightarrow> (Throw typeError, s)
           | Some e \<Rightarrow>
               ok (s\<lparr>pc := Some (logCall (CallSetLocalDescription offer) e),
                     asyncOps := asyncOps s @ [SetLocalOfferOp offer]\<rparr>))"

definition createOfferSettled :: "description settled \<Rightarrow> peer \<Rightarrow> peer" where
  "createOfferSettled r s =
     (case r of
        Rejected x \<Rightarrow> pp_destroy (Some (errCode (raised x) ''ERR_CREATE_OFFER'')) s
      | Fulfilled offer \<Rightarrow> caught ''ERR_CREATE_OFFER'' (createOfferThen offer s))"

definition offerOnSuccess :: "description \<Rightarrow> peer \<Rightarrow> unit res \<times> peer" where
  "offerOnSuccess offer s =
     (if destroyed s then ok s
      else if trickle s \<or> iceGatheringComplete s then sendOffer offer s
      else ok (s\<lparr>gatheringListeners := gatheringListeners s @ [SendOffer offer]\<rparr>))"

definition setLocalOfferSettled :: "description \<Rightarrow> unit settled \<Rightarrow> peer \<Rightarrow> peer" where
  "setLocalOfferSettled offer r s =
     (case r of
        Rejected x \<Rightarrow> pp_destroy (Some (errCode (raised x) ''ERR_SET_LOCAL_DESCRIPTION'')) s
      | Fulfilled _ \<Rightarrow> caught ''ERR_SET_LOCAL_DESCRIPTION'' (offerOnSuccess offer s))"

definition createAnswer :: "peer \<Rightarrow> unit res \<times> peer" where
  "createAnswer s =
     (if destroyed s then ok s
      else case pc s of
             None \<Rightarrow> (Throw typeError, s)
           | Some e \<Rightarrow>
               ok (s\<lparr>pc := Some (logCall CallCreateAnswer e),
                     asyncOps := asyncOps s @ [CreateAnswerOp]\<rparr>))"

definition createAnswerThen :: "description \<Rightarrow> peer \<Rightarrow> unit res \<times> peer" where
  "createAnswerThen answer0 s =
     (if destroyed s then ok s
      else
        let answer = transformSdp s answer0
        in case pc s of
             None \<Rightarrow> (Throw typeError, s)
           | Some e \<Rightarrow>
               ok (s\<lparr>pc := Some (logCall (CallSetLocalDescription answer) e),
                     asyncOps := asyncOps s @ [SetLocalAnswerOp answer]\<rparr>))"

definition createAnswerSettled :: "description settled \<Rightarrow> peer \<Rightarrow> peer" where
  "createAnswerSettled r s =
     (case r of
        Rejected x \<Rightarrow> pp_destroy (Some (errCode (raised x) ''ERR_CREATE_ANSWER'')) s
      | Fulfilled answer \<Rightarrow> caught ''ERR_CREATE_ANSWER'' (createAnswerThen answer s))"

definition answerOnSuccess :: "description \<Rightarrow> peer \<Rightarrow> unit res \<times> peer" where
  "answerOnSuccess answer s =
     (if destroyed s then ok s
      else if trickle s \<or> iceGatheringComplete s then sendAnswer answer s
      else ok (s\<lparr>gatheringListeners := gatheringListeners s @ [SendAnswer answer]\<rparr>))"

definition setLocalAnswerSettled :: "description \<Rightarrow> unit settled \<Rightarrow> peer \<Rightarrow> peer" where
  "setLocalAnswerSettled answer r s =
     (case r of
        Rejected x \<Rightarrow> pp_destroy (Some (errCode (raised x) ''ERR_SET_LOCAL_DESCRIPTION'')) s
      | Fulfilled _ \<Rightarrow> caught ''ERR_SET_LOCAL_DESCRIPTION'' (answerOnSuccess answer s))"

subsection \<open>The signaling entry point\<close>

definition endsWith :: "string \<Rightarrow> string \<Rightarrow> bool" where
  "endsWith a x = (drop (length a - length x) a = x)"

definition truthyStr :: "string option \<Rightarrow> bool" where
  "truthyStr x = (case x of None \<Rightarrow> False | Some t \<Rightarrow> t \<noteq> [])"

definition addIceCandidate :: "candidate \<Rightarrow> peer \<Rightarrow> unit res \<times> peer" where
  "addIceCandidate c s =
     (case pc s of
        None \<Rightarrow> (Throw typeError, s)
      | Some e \<Rightarrow>
          ok (s\<lparr>pc := Some (logCall (CallAddIceCandidate c) e),
                asyncOps := asyncOps s @ [AddIceCandidateOp c]\<rparr>))"

text \<open>The \<^verbatim>\<open>.catch\<close> of \<^verbatim>\<open>_addIceCandidate\<close>; a fulfilled promise has no continuation.\<close>

definition addIceCandidateSettled :: "candidate \<Rightarrow> unit settled \<Rightarrow> peer \<Rightarrow> peer" where
  "addIceCandidateSettled c r s =
     (case r of
        Fulfilled _ \<Rightarrow> s
      | Rejected x \<Rightarrow>
          if (case c_address c of None \<Rightarrow> True | Some a \<Rightarrow> a = [] \<or> endsWith a ''.local'') then
            s\<lparr>warnings := warnings s @ [''Ignoring unsupported ICE candidate.'']\<rparr>
          else pp_destroy (Some (errCode (raised x) ''ERR_ADD_ICE_CANDIDATE'')) s)"

fun addIceCandidates :: "candidate list \<Rightarrow> peer \<Rightarrow> unit res \<times> peer" where
  "addIceCandidates [] s = ok s"
| "addIceCandidates (c # cs) s = andThen (addIceCandidate c s) (\<lambda>_. addIceCandidates cs)"

definition setRemoteDescriptionThen :: "peer \<Rightarrow> unit res \<times> peer" where
  "setRemoteDescriptionThen s =
     (if destroyed s then ok s
      else
        andThen (addIceCandidates (pendingCandidates s) s)
          (\<lambda>_ s1.
             let s2 = s1\<lparr>pendingCandidates := []\<rparr>
             in case pc s2 of
                  None \<Rightarrow> (Throw typeError, s2)
                | Some e \<Rightarrow>
                    (case remoteDescription e of
                       None \<Rightarrow> (Throw typeError, s2)
                     | Some d \<Rightarrow> if d_type d = ''offer'' then createAnswer s2 else ok s2)))"

definition setRemoteDescriptionSettled :: "unit settled \<Rightarrow> peer \<Rightarrow> peer" where
  "setRemoteDescriptionSettled r s =
     (case r of
        Rejected x \<Rightarrow> pp_destroy (Some (errCode (raised x) ''ERR_SET_REMOTE_DESCRIPTION'')) s
      | Fulfilled _ \<Rightarrow> caught ''ERR_SET_REMOTE_DESCRIPTION'' (setRemoteDescriptionThen s))"

definition emptyData :: signal_data where
  "emptyData = \<lparr>sd_renegotiate = False, sd_transceiverRequest = None, sd_candidate = None,
                sd_sdp = None, sd_type = []\<rparr>"

text \<open>
  \<^verbatim>\<open>signal(data)\<close>. \<open>parse\<close> is \<^verbatim>\<open>JSON.parse\<close> on a string argument: when it throws,
  \<^verbatim>\<open>data = {}\<close>; when it returns \<^verbatim>\<open>null\<close>, reading \<^verbatim>\<open>data.renegotiate\<close> throws a
  TypeError. \<open>signalData\<close> is the rest of the method, once \<^verbatim>\<open>data\<close> is a value whose
  properties can be read.
\<close>

definition signalData :: "signal_data \<Rightarrow> peer \<Rightarrow> unit res \<times> peer" where
  "signalData d s =
     andThen (ok (if sd_renegotiate d \<and> initiator s then needsNegotiation s else s))
       (\<lambda>_ s1.
     andThen
       (case sd_transceiverRequest d of
          Some r \<Rightarrow> if initiator s1 then addTransceiver (fst r) (snd r) s1 else ok s1
        | None \<Rightarrow> ok s1)
       (\<lambda>_ s2.
     andThen
       (case sd_candidate d of
          None \<Rightarrow> ok s2
        | Some c \<Rightarrow>
            (case pc s2 of
               None \<Rightarrow> (Throw typeError, s2)
             | Some e \<Rightarrow>
                 if (case remoteDescription e of None \<Rightarrow> False | Some rd \<Rightarrow> d_type rd \<noteq> [])
                 then addIceCandidate c s2
                 else ok (s2\<lparr>pendingCandidates := pendingCandidates s2 @ [c]\<rparr>)))
       (\<lambda>_ s3.
     andThen
       (if truthyStr (sd_sdp d) then
          (case pc s3 of
             None \<Rightarrow> (Throw typeError, s3)
           | Some e \<Rightarrow>
               ok (s3\<lparr>pc := Some (logCall (CallSetRemoteDescription d) e),
                      asyncOps := asyncOps s3 @ [SetRemoteDescriptionOp]\<rparr>))
        else ok s3)
       (\<lambda>_ s4.
          if \<not> truthyStr (sd_sdp d) \<and> sd_candidate d = None \<and> \<not> sd_renegotiate d
             \<and> sd_transceiverRequest d = None
          then ok (pp_destroy (Some (errCode (newError ''signal() called with invalid signal data'')
                                       ''ERR_SIGNALING'')) s4)
          else ok s4))))"

definition signal :: "(string \<Rightarrow> parsed) \<Rightarrow> signal_input \<Rightarrow> peer \<Rightarrow> unit res \<times> peer" where
  "signal parse inp s =
     (if destroying s then (Return (), s)
      else if destroyed s then
        (Throw (errCode (newError ''cannot signal after peer is destroyed'') ''ERR_DESTROYED''), s)
      else
        (case inp of
           SignalObject d \<Rightarrow> signalData d s
         | SignalString t \<Rightarrow>
             (case parse t of
                ParseThrows \<Rightarrow> signalData emptyData s
              | ParsedNull \<Rightarrow> (Throw typeError, s)
              | ParsedData d \<Rightarrow> signalData d s)))"

subsection \<open>Connectivity resolution\<close>

text \<open>
  \<^verbatim>\<open>getStats(cb)\<close> up to the call of the engine. The flag of \<open>GetStatsOp\<close> tells the
  callback-based form (\<^verbatim>\<open>getStats.length > 0\<close>, not React Native), whose success
  handler returns at once on a destroyed peer; the reports are taken as already
  flattened.
\<close>

definition getStats :: "peer \<Rightarrow> unit res \<times> peer" where
  "getStats s =
     (case pc s of
        None \<Rightarrow> (Throw typeError, s)
      | Some e \<Rightarrow>
          ok (s\<lparr>pc := Some (logCall CallGetStats e),
                asyncOps := asyncOps s @
                  [GetStatsOp (\<not> (getStatsLength e = 0 \<or> isReactNativeWebrtc s))]\<rparr>))"

definition findCandidatePair :: "peer \<Rightarrow> unit res \<times> peer" where
  "findCandidatePair s = (if destroyed s \<or> destroying s then ok s else getStats s)"

definition maybeReady :: "peer \<Rightarrow> unit res \<times> peer" where
  "maybeReady s =
     (if connecting s \<or> \<not> pcReady s \<or> \<not> channelReady s then ok s
      else findCandidatePair (s\<lparr>connecting := True\<rparr>))"

definition isRemoteCandidate :: "stat_item \<Rightarrow> bool" where
  "isRemoteCandidate i = (st_type i = ''remotecandidate'' \<or> st_type i = ''remote-candidate'')"

definition isLocalCandidate :: "stat_item \<Rightarrow> bool" where
  "isLocalCandidate i = (st_type i = ''localcandidate'' \<or> st_type i = ''local-candidate'')"

definition isCandidatePair :: "stat_item \<Rightarrow> bool" where
  "isCandidatePair i = (st_type i = ''candidatepair'' \<or> st_type i = ''candidate-pair'')"

text \<open>The objects \<^verbatim>\<open>remoteCandidates\<close>, \<^verbatim>\<open>localCandidates\<close>, \<^verbatim>\<open>candidatePairs\<close>, keyed by id.\<close>

definition byId :: "(stat_item \<Rightarrow> bool) \<Rightarrow> stat_item list \<Rightarrow> string \<rightharpoonup> stat_item" where
  "byId P items = fold (\<lambda>i m. if P i then m(st_id i \<mapsto> i) else m) items Map.empty"

definition keyOf :: "string option \<Rightarrow> string" where
  "keyOf x = (case x of None \<Rightarrow> ''undefined'' | Some k \<Rightarrow> k)"

definition orElse :: "string option \<Rightarrow> string option \<Rightarrow> string option" where
  "orElse a b = (if truthyStr a then a else b)"

definition isDigit :: "char \<Rightarrow> bool" where
  "isDigit c = (48 \<le> (of_char c :: nat) \<and> (of_char c :: nat) \<le> 57)"

text \<open>
  \<^verbatim>\<open>Number(x)\<close>: of \<^verbatim>\<open>undefined\<close> it is \<^verbatim>\<open>NaN\<close>, of a number the number itself
  (\<open>numberOfPort\<close>, for the \<^verbatim>\<open>port\<close> of a report), of a run of decimal digits their value,
  and of any other string it is left as \<open>NumberOfText\<close>.
\<close>

definition numberOfPort :: "nat option \<Rightarrow> js_number" where
  "numberOfPort x = (case x of None \<Rightarrow> NaN | Some n \<Rightarrow> Num n)"

definition numberOf :: "string option \<Rightarrow> js_number" where
  "numberOf x =
     (case x of
        None \<Rightarrow> NaN
      | Some t \<Rightarrow> if t \<noteq> [] \<and> list_all isDigit t
                  then Num (fold (\<lambda>c n. 10 * n + ((of_char c :: nat) - 48)) t 0)
                  else NumberOfText t)"

definition splitColon :: "string \<Rightarrow> string \<times> string option" where
  "splitColon g =
     (takeWhile (\<lambda>c. c \<noteq> CHR '':'') g,
      if CHR '':'' \<in> set g
      then Some (takeWhile (\<lambda>c. c \<noteq> CHR '':'') (tl (dropWhile (\<lambda>c. c \<noteq> CHR '':'') g)))
      else None)"

definition familyOf :: "string \<Rightarrow> string" where
  "familyOf a = (if CHR '':'' \<in> set a then ''IPv6'' else ''IPv4'')"

definition setSelectedCandidatePair ::
  "(string \<rightharpoonup> stat_item) \<Rightarrow> (string \<rightharpoonup> stat_item) \<Rightarrow> stat_item \<Rightarrow> peer \<Rightarrow> peer" where
  "setSelectedCandidatePair localCandidates remoteCandidates pair s =
     (let loc = localCandidates (keyOf (st_localCandidateId pair));
          s1 = (case loc of
                  Some l \<Rightarrow>
                    if truthyStr (st_ip l) \<or> truthyStr (st_address l) then
                      s\<lparr>localAddress := orElse (st_ip l) (st_address l), localPort := Some (numberOfPort (st_port l))\<rparr>
                    else if truthyStr (st_ipAddress l) then
                      s\<lparr>localAddress := st_ipAddress l, localPort := Some (numberOfPort (st_portNumber l))\<rparr>
                    else (case st_googLocalAddress pair of
                            Some g \<Rightarrow> s\<lparr>localAddress := Some (fst (splitColon g)),
                                        localPort := Some (numberOf (snd (splitColon g)))\<rparr>
                          | None \<Rightarrow> s)
                | None \<Rightarrow>
                    (case st_googLocalAddress pair of
                       Some g \<Rightarrow> s\<lparr>localAddress := Some (fst (splitColon g)),
                                   localPort := Some (numberOf (snd (splitColon g)))\<rparr>
                     | None \<Rightarrow> s));
          s2 = (case localAddress s1 of
                  Some a \<Rightarrow> if a \<noteq> [] then s1\<lparr>localFamily := Some (familyOf a)\<rparr> else s1
                | None \<Rightarrow> s1);
          rem = remoteCandidates (keyOf (st_remoteCandidateId pair));
          s3 = (case rem of
                  Some r \<Rightarrow>
                    if truthyStr (st_ip r) \<or> truthyStr (st_address r) then
                      s2\<lparr>remoteAddress := orElse (st_ip r) (st_address r), remotePort := Some (numberOfPort (st_port r))\<rparr>
                    else if truthyStr (st_ipAddress r) then
                      s2\<lparr>remoteAddress := st_ipAddress r, remotePort := Some (numberOfPort (st_portNumber r))\<rparr>
                    else (case st_googRemoteAddress pair of
                            Some g \<Rightarrow> s2\<lparr>remoteAddress := Some (fst (splitColon g)),
                                         remotePort := Some (numberOf (snd (splitColon g)))\<rparr>
                          | None \<Rightarrow> s2)
                | None \<Rightarrow>
                    (case st_googRemoteAddress pair of
                       Some g \<Rightarrow> s2\<lparr>remoteAddress := Some (fst (splitColon g)),
                                    remotePort := Some (numberOf (snd (splitColon g)))\<rparr>
                     | None \<Rightarrow> s2))
      in case remoteAddress s3 of
           Some a \<Rightarrow> if a \<noteq> [] then s3\<lparr>remoteFamily := Some (familyOf a)\<rparr> else s3
         | None \<Rightarrow> s3)"

text \<open>
  The second \<^verbatim>\<open>items.forEach\<close> of the statistics callback; the flag is
  \<^verbatim>\<open>foundSelectedCandidatePair\<close>. A transport report that names a pair which is not among
  the reports makes \<^verbatim>\<open>setSelectedCandidatePair(undefined)\<close> throw.
\<close>

fun selectPairs ::
  "(string \<rightharpoonup> stat_item) \<Rightarrow> (string \<rightharpoonup> stat_item) \<Rightarrow> (string \<rightharpoonup> stat_item) \<Rightarrow>
   stat_item list \<Rightarrow> bool \<Rightarrow> peer \<Rightarrow> bool res \<times> peer" where
  "selectPairs lc rc cp [] found s = (Return found, s)"
| "selectPairs lc rc cp (i # items) found s =
     andThen
       (if st_type i = ''transport'' \<and> truthyStr (st_selectedCandidatePairId i) then
          (case cp (keyOf (st_selectedCandidatePairId i)) of
             None \<Rightarrow> (Throw typeError, s)
           | Some pair \<Rightarrow> (Return True, setSelectedCandidatePair lc rc pair s))
        else (Return found, s))
       (\<lambda>found1 s1.
          if (st_type i = ''googCandidatePair'' \<and> st_googActiveConnection i = Some ''true'') \<or>
             (isCandidatePair i \<and> st_selected i)
          then selectPairs lc rc cp items True (setSelectedCandidatePair lc rc i s1)
          else selectPairs lc rc cp items found1 s1)"

text \<open>\<^verbatim>\<open>emit('connect')\<close> with the \<^verbatim>\<open>destroySoon\<close> listeners that \<^verbatim>\<open>_onFinish\<close> registered.\<close>

definition emitConnect :: "peer \<Rightarrow> peer" where
  "emitConnect s =
     (((\<lambda>s1. snd (setTimeout DestroySoonTimer s1)) ^^ connectListeners s) (emit EvConnect s))
       \<lparr>connectListeners := 0\<rparr>"

text \<open>The statistics callback from the point where the peer is marked as connected.\<close>

definition resolved :: "peer \<Rightarrow> unit res \<times> peer" where
  "resolved s0 =
     (let s = s0\<lparr>connecting := False, connected := True\<rparr> in
      andThen
        (case chunk s of
           None \<Rightarrow> (Return True, s)
         | Some c \<Rightarrow>
             if truthy_chunk c then
               (case send c s of
                  (Throw e, s1) \<Rightarrow>
                    (Return False, pp_destroy (Some (errCode e ''ERR_DATA_CHANNEL'')) s1)
                | (Return _, s1) \<Rightarrow>
                    (case cb s1 of
                       None \<Rightarrow> (Throw typeError, s1\<lparr>chunk := None, cb := None\<rparr>)
                     | Some k \<Rightarrow> (Return True, callCb k None (s1\<lparr>chunk := None, cb := None\<rparr>))))
             else (Return True, s))
        (\<lambda>continue s1.
           if \<not> continue then ok s1
           else if \<not> connectedOnce s1 then
             (case channel s1 of
                None \<Rightarrow> (Throw typeError, s1\<lparr>connectedOnce := True\<rparr>)
              | Some ch \<Rightarrow>
                  let s2 = s1\<lparr>connectedOnce := True\<rparr>;
                      s3 = (if \<not> ch_lowThresholdIsNumber ch then
                              (let (i, s') = setTimeout BackpressureInterval s2
                               in s'\<lparr>interval := Some i\<rparr>)
                            else s2)
                  in ok (emitConnect s3))
           else ok (emit EvReconnect s1)))"

definition statsCallback :: "error option \<Rightarrow> stat_item list \<Rightarrow> peer \<Rightarrow> unit res \<times> peer" where
  "statsCallback err items0 s =
     (if destroyed s \<or> destroying s then ok s
      else
        let items = (if err \<noteq> None then [] else items0);
            remoteCandidates = byId isRemoteCandidate items;
            localCandidates = byId isLocalCandidate items;
            candidatePairs = byId isCandidatePair items
        in andThen (selectPairs localCandidates remoteCandidates candidatePairs items False s)
             (\<lambda>foundSelectedCandidatePair s1.
                if \<not> foundSelectedCandidatePair \<and>
                   (\<not> list_ex isCandidatePair items \<or> list_ex isLocalCandidate items)
                then ok (snd (setTimeout FindCandidatePairTimer s1))
                else resolved s1))"

definition getStatsSettled :: "bool \<Rightarrow> stat_item list settled \<Rightarrow> peer \<Rightarrow> unit res \<times> peer" where
  "getStatsSettled callbackForm r s =
     (case r of
        Rejected x \<Rightarrow> statsCallback (Some (raised x)) [] s
      | Fulfilled items \<Rightarrow>
          if callbackForm \<and> destroyed s then ok s else statsCallback None items s)"

subsection \<open>Engine and channel state changes\<close>

definition onChannelOpen :: "peer \<Rightarrow> unit res \<times> peer" where
  "onChannelOpen s =
     (if connected s \<or> destroyed s then ok s else maybeReady (s\<lparr>channelReady := True\<rparr>))"

definition restartWanted :: "bool \<Rightarrow> bool \<Rightarrow> peer \<Rightarrow> unit res \<times> peer" where
  "restartWanted failed disconnected s =
     (if (failed \<and> iceRestartEnabled s = OnFailure) \<or>
         (disconnected \<and> iceRestartEnabled s = OnDisconnect) then
        (if initiator s \<and> \<not> isRestartingIce s then andThen (restartIce s) (\<lambda>_. ok) else ok s)
      else ok s)"

definition onConnectionStateChange :: "peer \<Rightarrow> unit res \<times> peer" where
  "onConnectionStateChange s =
     (if destroyed s \<or> destroying s then ok s
      else case pc s of
             None \<Rightarrow> (Throw typeError, s)
           | Some e \<Rightarrow>
               let st = connectionState e;
                   s1 = (if st \<noteq> ConnConnected then s\<lparr>connected := False\<rparr> else s)
               in if st = ConnFailed \<and> \<not> (iceRestartEnabled s1 \<noteq> RestartOff \<or> isRestartingIce s1) then
                    ok (pp_destroy (Some (errCode (newError ''Connection failed.'')
                                            ''ERR_CONNECTION_FAILURE'')) s1)
                  else
                    restartWanted (st = ConnFailed) (st = ConnDisconnected)
                      (if st = ConnFailed then startIceFailureRecoveryTimeout s1 else s1))"

definition onIceStateChange :: "peer \<Rightarrow> unit res \<times> peer" where
  "onIceStateChange s =
     (if destroyed s then ok s
      else case pc s of
             None \<Rightarrow> (Throw typeError, s)
           | Some e \<Rightarrow>
               let ics = iceConnectionState e;
                   igs = iceGatheringState e
               in
               andThen
                 (if igs = GatherComplete then onIceGatheringComplete (emit (EvIceStateChange ics igs) s)
                  else ok (emit (EvIceStateChange ics igs) s))
                 (\<lambda>_ s1.
               andThen
                 (if ics = IceConnected \<or> ics = IceCompleted then
                    maybeReady
                      ((if iceFailureRecoveryTimer s1 \<noteq> None then
                          (clearTimeout (iceFailureRecoveryTimer s1) s1)\<lparr>iceFailureRecoveryTimer := None\<rparr>
                        else s1)\<lparr>pcReady := True, isRestartingIce := False\<rparr>)
                  else ok s1)
                 (\<lambda>_ s2.
                    restartWanted (ics = IceFailed) (ics = IceDisconnected)
                      (if ics = IceClosed then
                         pp_destroy (Some (errCode (newError ''Ice connection closed.'')
                                             ''ERR_ICE_CONNECTION_CLOSED'')) s2
                       else if ics = IceFailed \<and> iceRestartEnabled s2 = RestartOff
                               \<and> \<not> isRestartingIce s2 then
                         pp_destroy (Some (errCode (newError ''Ice connection failed.'')
                                             ''ERR_ICE_CONNECTION_FAILURE'')) s2
                       else if ics = IceFailed \<and> (iceRestartEnabled s2 \<noteq> RestartOff
                                                   \<or> isRestartingIce s2) then
                         startIceFailureRecoveryTimeout s2
                       else s2))))"

text \<open>
  The \<^verbatim>\<open>forEach\<close> over \<^verbatim>\<open>_sendersAwaitingStable\<close> in \<^verbatim>\<open>_onSignalingStateChange\<close>; an
  exception of the engine's \<^verbatim>\<open>removeTrack\<close> leaves the handler.
\<close>

fun flushSenders :: "nat list \<Rightarrow> peer \<Rightarrow> unit res \<times> peer" where
  "flushSenders [] s = ok s"
| "flushSenders (x # xs) s =
     (case pc s of
        None \<Rightarrow> (Throw typeError, s)
      | Some e \<Rightarrow>
          (case pc_removeTrackThrows e x of
             Some x' \<Rightarrow> (Throw (raised x'), s)
           | None \<Rightarrow>
               flushSenders xs
                 (s\<lparr>pc := Some (logCall (CallRemoveTrack x) e), queuedNegotiation := True\<rparr>)))"

definition onSignalingStateChange :: "peer \<Rightarrow> unit res \<times> peer" where
  "onSignalingStateChange s =
     (if destroyed s then ok s
      else case pc s of
             None \<Rightarrow> (Throw typeError, s)
           | Some e \<Rightarrow>
               andThen
                 (if signalingState e = Stable then
                    andThen (flushSenders (sendersAwaitingStable s) (s\<lparr>isNegotiating := False\<rparr>))
                      (\<lambda>_ s1.
                         let s2 = s1\<lparr>sendersAwaitingStable := []\<rparr>
                         in if queuedNegotiation s2
                            then ok (needsNegotiation (s2\<lparr>queuedNegotiation := False\<rparr>))
                            else ok (emit EvNegotiated s2))
                  else ok s)
                 (\<lambda>_ s3. ok (emit (EvSignalingStateChange (signalingState e)) s3)))"

subsection \<open>Getters\<close>

definition connected_getter :: "peer \<Rightarrow> bool res" where
  "connected_getter s =
     (if \<not> connected s then Return False
      else case channel s of
             None \<Rightarrow> Throw typeError
           | Some ch \<Rightarrow> Return (readyState ch = RsOpen))"

definition bufferSize :: "peer \<Rightarrow> nat" where
  "bufferSize s = (case channel s of None \<Rightarrow> 0 | Some ch \<Rightarrow> bufferedAmount ch)"

definition address :: "peer \<Rightarrow> js_number option \<times> string option \<times> string option" where
  "address s = (localPort s, localFamily s, localAddress s)"

section \<open>The media sender registry\<close>

text \<open>\<^verbatim>\<open>this._senderMap?.get(track)\<close>, and \<^verbatim>\<open>submap ? submap.get(stream) : null\<close>.\<close>

definition submapOf :: "peer \<Rightarrow> nat \<Rightarrow> nat option" where
  "submapOf s track = (case senderMap s of None \<Rightarrow> None | Some m \<Rightarrow> m track)"

definition senderOf :: "peer \<Rightarrow> nat \<Rightarrow> nat \<Rightarrow> nat option" where
  "senderOf s track stream =
     (case submapOf s track of None \<Rightarrow> None | Some r \<Rightarrow> submaps s r stream)"

text \<open>\<^verbatim>\<open>this._senderMap?.set(track, submap)\<close>.\<close>

definition setSubmap :: "nat \<Rightarrow> nat \<Rightarrow> peer \<Rightarrow> peer" where
  "setSubmap track r s = s\<lparr>senderMap := map_option (\<lambda>m. m(track \<mapsto> r)) (senderMap s)\<rparr>"

definition addTrack :: "nat \<Rightarrow> nat \<Rightarrow> peer \<Rightarrow> unit res \<times> peer" where
  "addTrack track stream s =
     (if destroying s then (Return (), s)
      else if destroyed s then
        (Throw (errCode (newError ''cannot addTrack after peer is destroyed'') ''ERR_DESTROYED''), s)
      else
        (case submapOf s track of
           None \<Rightarrow>
             (let r = nextSubmap s;
                  s1 = s\<lparr>submaps := (submaps s)(r := Map.empty), nextSubmap := Suc r\<rparr>
              in case pc s1 of
                   None \<Rightarrow> ok (needsNegotiation (setSubmap track r s1))
                 | Some e \<Rightarrow>
                     (case pc_addTrackResult e track stream of
                        Inl x \<Rightarrow> (Throw (raised x), s1)
                      | Inr sender \<Rightarrow>
                          ok (needsNegotiation (setSubmap track r
                               (s1\<lparr>pc := Some (logCall (CallAddTrack track stream) e),
                                   submaps := (submaps s1)(r := [stream \<mapsto> sender])\<rparr>)))))
         | Some r \<Rightarrow>
             (case submaps s r stream of
                None \<Rightarrow>
                  (case pc s of
                     None \<Rightarrow> ok (needsNegotiation (setSubmap track r s))
                   | Some e \<Rightarrow>
                       (case pc_addTrackResult e track stream of
                          Inl x \<Rightarrow> (Throw (raised x), s)
                        | Inr sender \<Rightarrow>
                            ok (needsNegotiation (setSubmap track r
                                 (s\<lparr>pc := Some (logCall (CallAddTrack track stream) e),
                                    submaps := (submaps s)(r := (submaps s r)(stream \<mapsto> sender))\<rparr>)))))
              | Some sender \<Rightarrow>
                  if senderRemoved s sender then
                    (Throw (errCode (newError
                       ''Track has been removed. You should enable/disable tracks that you want to re-add.'')
                       ''ERR_SENDER_REMOVED''), s)
                  else
                    (Throw (errCode (newError ''Track has already been added to that stream.'')
                       ''ERR_SENDER_ALREADY_ADDED''), s))))"

text \<open>
  \<^verbatim>\<open>addStream(stream)\<close> and \<^verbatim>\<open>removeStream(stream)\<close>: \<open>tracks\<close> is what
  \<^verbatim>\<open>stream.getTracks()\<close> returns.
\<close>

fun addTracks :: "nat list \<Rightarrow> nat \<Rightarrow> peer \<Rightarrow> unit res \<times> peer" where
  "addTracks [] stream s = ok s"
| "addTracks (t # ts) stream s = andThen (addTrack t stream s) (\<lambda>_. addTracks ts stream)"

definition addStream :: "nat list \<Rightarrow> nat \<Rightarrow> peer \<Rightarrow> unit res \<times> peer" where
  "addStream tracks stream s =
     (if destroying s then (Return (), s)
      else if destroyed s then
        (Throw (errCode (newError ''cannot addStream after peer is destroyed'') ''ERR_DESTROYED''), s)
      else addTracks tracks stream s)"

definition replaceTrack :: "nat \<Rightarrow> nat option \<Rightarrow> nat \<Rightarrow> peer \<Rightarrow> unit res \<times> peer" where
  "replaceTrack oldTrack newTrack stream s =
     (if destroying s then (Return (), s)
      else if destroyed s then
        (Throw (errCode (newError ''cannot replaceTrack after peer is destroyed'')
                  ''ERR_DESTROYED''), s)
      else
        (case submapOf s oldTrack of
           None \<Rightarrow>
             (Throw (errCode (newError ''Cannot replace track that was never added.'')
                       ''ERR_TRACK_NOT_ADDED''), s)
         | Some r \<Rightarrow>
             (case submaps s r stream of
                None \<Rightarrow>
                  (Throw (errCode (newError ''Cannot replace track that was never added.'')
                            ''ERR_TRACK_NOT_ADDED''), s)
              | Some sender \<Rightarrow>
                  let s1 = (case newTrack of Some t \<Rightarrow> setSubmap t r s | None \<Rightarrow> s)
                  in if senderHasReplaceTrack s1 sender then
                       ok (s1\<lparr>pc := map_option (logCall (CallReplaceTrack sender newTrack)) (pc s1)\<rparr>)
                     else
                       ok (pp_destroy (Some (errCode (newError
                             ''replaceTrack is not supported in this browser'')
                             ''ERR_UNSUPPORTED_REPLACETRACK'')) s1))))"

definition removeTrack :: "nat \<Rightarrow> nat \<Rightarrow> peer \<Rightarrow> unit res \<times> peer" where
  "removeTrack track stream s =
     (if destroying s then (Return (), s)
      else if destroyed s then
        (Throw (errCode (newError ''cannot removeTrack after peer is destroyed'')
                  ''ERR_DESTROYED''), s)
      else
        (case senderOf s track stream of
           None \<Rightarrow>
             (Throw (errCode (newError ''Cannot remove track that was never added.'')
                       ''ERR_TRACK_NOT_ADDED''), s)
         | Some sender \<Rightarrow>
             let s1 = s\<lparr>senderRemoved := (senderRemoved s)(sender := True)\<rparr>;
                 s2 = (case pc s1 of
                         None \<Rightarrow> s1
                       | Some e \<Rightarrow>
                           (case pc_removeTrackThrows e sender of
                              None \<Rightarrow> s1\<lparr>pc := Some (logCall (CallRemoveTrack sender) e)\<rparr>
                            | Some x \<Rightarrow>
                                if err_name (raised x) = ''NS_ERROR_UNEXPECTED'' then
                                  s1\<lparr>sendersAwaitingStable := sendersAwaitingStable s1 @ [sender]\<rparr>
                                else pp_destroy (Some (errCode (raised x) ''ERR_REMOVE_TRACK'')) s1))
             in ok (needsNegotiation s2)))"

fun removeTracks :: "nat list \<Rightarrow> nat \<Rightarrow> peer \<Rightarrow> unit res \<times> peer" where
  "removeTracks [] stream s = ok s"
| "removeTracks (t # ts) stream s = andThen (removeTrack t stream s) (\<lambda>_. removeTracks ts stream)"

definition removeStream :: "nat list \<Rightarrow> nat \<Rightarrow> peer \<Rightarrow> unit res \<times> peer" where
  "removeStream tracks stream s =
     (if destroying s then (Return (), s)
      else if destroyed s then
        (Throw (errCode (newError ''cannot removeStream after peer is destroyed'')
                  ''ERR_DESTROYED''), s)
      else removeTracks tracks stream s)"

text \<open>
  \<^verbatim>\<open>_onTrack(event)\<close>: the \<^verbatim>\<open>forEach\<close> over \<^verbatim>\<open>event.streams\<close>; a remote stream is
  identified by its \<^verbatim>\<open>id\<close>.
\<close>

fun onTrackStreams :: "nat \<Rightarrow> nat list \<Rightarrow> peer \<Rightarrow> peer" where
  "onTrackStreams track [] s = s"
| "onTrackStreams track (st # sts) s =
     (let s1 = emit (EvTrack track st) s;
          s2 = s1\<lparr>remoteTracks := map_option (\<lambda>l. l @ [(track, st)]) (remoteTracks s1)\<rparr>
      in if (case remoteStreams s2 of None \<Rightarrow> False | Some l \<Rightarrow> st \<in> set l) then
           onTrackStreams track sts s2
         else
           onTrackStreams track sts
             (queueMicrotask (StreamNotify st)
                (s2\<lparr>remoteStreams := map_option (\<lambda>l. l @ [st]) (remoteStreams s2)\<rparr>)))"

definition onTrack :: "nat \<Rightarrow> nat list \<Rightarrow> peer \<Rightarrow> peer" where
  "onTrack track streams s = (if destroyed s then s else onTrackStreams track streams s)"

section \<open>Construction\<close>

text \<open>
  The options of the constructor that the orchestration reads, and what the platform
  answers while the constructor runs: whether \<^verbatim>\<open>RTCPeerConnection\<close> exists, the outcome of
  \<^verbatim>\<open>new RTCPeerConnection(config)\<close>, the channel \<^verbatim>\<open>createDataChannel\<close> returns (it can be
  \<^verbatim>\<open>undefined\<close>), and the random channel name. \<open>o_streams\<close> pairs every stream of
  \<^verbatim>\<open>opts.streams\<close> (or the single \<^verbatim>\<open>opts.stream\<close>) with its \<^verbatim>\<open>getTracks()\<close>.
\<close>

datatype restart_opt = OptFalse | OptTrue | OptOnFailure | OptOnDisconnect

record opts =
  o_initiator :: bool
  o_channelName :: "string option"
  o_channelNegotiated :: bool
  o_sdpTransform :: "(string \<Rightarrow> string) option"
  o_trickle :: "bool option"
  o_allowHalfTrickle :: "bool option"
  o_objectMode :: bool
  o_iceRestartEnabled :: "restart_opt option"
  o_offerOptions_iceRestart :: bool
  o_wrtc :: bool
  o_streams :: "(nat \<times> nat list) list"

record platform =
  webrtcSupport :: bool
  hasWindow :: bool
  newPeerConnection :: "exn + engine"
  peerConnectionIdIsNumber :: bool
  createDataChannel :: "channel_obj option"
  randomName :: string
  newSenderHasReplaceTrack :: "nat \<Rightarrow> bool"

definition blank :: "opts \<Rightarrow> platform \<Rightarrow> peer" where
  "blank op p =
     \<lparr>objectMode = o_objectMode op,
      channelName = (if o_initiator op
                     then Some (case o_channelName op of
                                  Some n \<Rightarrow> if n \<noteq> [] then n else randomName p
                                | None \<Rightarrow> randomName p)
                     else None),
      initiator = o_initiator op,
      channelNegotiated = o_channelNegotiated op,
      sdpTransform = (case o_sdpTransform op of Some f \<Rightarrow> f | None \<Rightarrow> (\<lambda>sdp. sdp)),
      trickle = (case o_trickle op of Some b \<Rightarrow> b | None \<Rightarrow> True),
      allowHalfTrickle = (case o_allowHalfTrickle op of Some b \<Rightarrow> b | None \<Rightarrow> False),
      iceRestartEnabled =
        (case o_iceRestartEnabled op of
           None \<Rightarrow> if (case o_trickle op of Some b \<Rightarrow> b | None \<Rightarrow> True) \<and> \<not> o_wrtc op
                   then OnFailure else RestartOff
         | Some OptFalse \<Rightarrow> RestartOff
         | Some OptTrue \<Rightarrow> OnFailure
         | Some OptOnFailure \<Rightarrow> OnFailure
         | Some OptOnDisconnect \<Rightarrow> OnDisconnect),
      iceFailureRecoveryTimer = None,
      offerOptions_iceRestart = o_offerOptions_iceRestart op,
      destroyed = False,
      destroying = False,
      connected = False,
      connecting = False,
      connectedOnce = False,
      remoteAddress = None,
      remoteFamily = None,
      remotePort = None,
      localAddress = None,
      localFamily = None,
      localPort = None,
      pcReady = False,
      channelReady = False,
      iceGatheringComplete = False,
      iceGatheringCompleteTimer = None,
      channel = None,
      pendingCandidates = [],
      isNegotiating = False,
      isRestartingIce = False,
      firstNegotiation = True,
      batchedNegotiation = False,
      queuedNegotiation = False,
      sendersAwaitingStable = [],
      closingInterval = None,
      isClosing = False,
      remoteTracks = Some [],
      remoteStreams = Some [],
      chunk = None,
      cb = None,
      interval = None,
      pc = None,
      isReactNativeWebrtc = False,
      onFinishBound = False,
      finishListener = False,
      senderMap = None,
      submaps = (\<lambda>_. Map.empty),
      nextSubmap = 0,
      senderRemoved = (\<lambda>_. False),
      senderHasReplaceTrack = newSenderHasReplaceTrack p,
      ondatachannel = False,
      ontrack = False,
      emitted = [],
      microtasks = [],
      timers = [],
      nextTimer = 1,
      asyncOps = [],
      gatheringListeners = [],
      connectListeners = 0,
      pushed = [],
      cbCalls = [],
      endCalled = False,
      warnings = []\<rparr>"

text \<open>The constructor of \<^verbatim>\<open>lite.js\<close>; \<open>Inl\<close> is an exception thrown by it.\<close>

definition lite_constructor :: "opts \<Rightarrow> platform \<Rightarrow> error + peer" where
  "lite_constructor op p =
     (if \<not> webrtcSupport p then
        Inl (errCode (newError
               (if \<not> hasWindow p
                then ''No WebRTC support: Specify `opts.wrtc` option in this environment''
                else ''No WebRTC support: Not a supported browser'')) ''ERR_WEBRTC_SUPPORT'')
      else
        (case newPeerConnection p of
           Inl x \<Rightarrow> Inr (pp_destroy (Some (errCode (raised x) ''ERR_PC_CONSTRUCTOR'')) (blank op p))
         | Inr e \<Rightarrow>
             let s1 = (blank op p)\<lparr>pc := Some e, isReactNativeWebrtc := peerConnectionIdIsNumber p\<rparr>;
                 s2 = (if pc_hasPeerIdentity e
                       then s1\<lparr>asyncOps := asyncOps s1 @ [PeerIdentityOp]\<rparr> else s1);
                 s3 = (if initiator s2 \<or> channelNegotiated s2 then
                         setupData (createDataChannel p)
                           (s2\<lparr>pc := Some (logCall CallCreateDataChannel e)\<rparr>)
                       else s2\<lparr>ondatachannel := True\<rparr>);
                 s4 = needsNegotiation s3
             in Inr (s4\<lparr>onFinishBound := True, finishListener := True\<rparr>)))"

fun addStreams :: "(nat \<times> nat list) list \<Rightarrow> peer \<Rightarrow> unit res \<times> peer" where
  "addStreams [] s = ok s"
| "addStreams ((stream, tracks) # xs) s =
     andThen (addStream tracks stream s) (\<lambda>_. addStreams xs)"

text \<open>The constructor of \<^verbatim>\<open>index.ts\<close>, after \<^verbatim>\<open>super(opts)\<close>.\<close>

definition constructor :: "opts \<Rightarrow> platform \<Rightarrow> error + peer" where
  "constructor op p =
     (case lite_constructor op p of
        Inl e \<Rightarrow> Inl e
      | Inr s \<Rightarrow>
          if pc s = None then Inr s
          else (case addStreams (o_streams op) (s\<lparr>senderMap := Some Map.empty\<rparr>) of
                  (Throw e, _) \<Rightarrow> Inl e
                | (Return _, s1) \<Rightarrow> Inr (s1\<lparr>ontrack := True\<rparr>)))"

section \<open>The peer as a transition system\<close>

text \<open>
  Everything that can happen to a constructed peer: a call of the application, a call
  of the stream base class, a deferred callback that runs, a promise of the engine that
  settles, an event of the engine or of the channel, or the engine and the channel
  changing the properties the peer reads (\<open>Environment\<close>; the logs are kept). Time is
  abstract: any pending timer may fire. \<open>Destroy\<close> is the stream base class calling
  \<^verbatim>\<open>_destroy(cb)\<close>: it reports \<^verbatim>\<open>destroyed\<close> from the moment that callback is called, and
  at no other.
\<close>

datatype outcome =
    Rejects exn
  | Fulfils
  | FulfilsDescription description
  | FulfilsStats "stat_item list"

datatype event =
    Signal signal_input
  | Send chunk
  | Negotiate
  | RestartIce
  | AddTransceiver string string
  | AddStream "nat list" nat
  | AddTrack nat nat
  | ReplaceTrack nat "nat option" nat
  | RemoveTrack nat nat
  | RemoveStream "nat list" nat
  | Destroy
  | Write chunk nat
  | Final bool nat
  | Finish
  | RunMicrotask
  | FireTimer nat
  | Settle nat outcome
  | IceConnectionStateChange ice_connection_state
  | IceGatheringStateChange ice_gathering_state
  | ConnectionStateChange connection_state
  | SignalingStateChange signaling_state
  | IceCandidate "candidate option"
  | Track nat "nat list"
  | DataChannel "channel_obj option"
  | ChannelMessage frame
  | ChannelBufferedAmountLow
  | ChannelOpen
  | ChannelClose
  | ChannelError exn
  | Environment "engine \<Rightarrow> engine" "channel_obj \<Rightarrow> channel_obj"

fun runMicro :: "microtask \<Rightarrow> peer \<Rightarrow> unit res \<times> peer" where
  "runMicro NegotiationBatch s = negotiationBatch s"
| "runMicro (StreamNotify st) s = ok (emit (EvStream st) s)"

fun runTask :: "task \<Rightarrow> peer \<Rightarrow> unit res \<times> peer" where
  "runTask CreateOfferTimer s = createOffer s"
| "runTask IceFailureRecoveryTimer s = iceFailureRecoveryTimeout s"
| "runTask IceCompleteTimer s = iceCompleteTimeout s"
| "runTask (TeardownTimer k err) s = ok (teardown k err s)"
| "runTask ClosingInterval s = ok (closingIntervalTick s)"
| "runTask BackpressureInterval s = ok (onInterval s)"
| "runTask DestroySoonTimer s = ok (pp_destroy None s)"
| "runTask FindCandidatePairTimer s = findCandidatePair s"

fun isInterval :: "task \<Rightarrow> bool" where
  "isInterval ClosingInterval = True"
| "isInterval BackpressureInterval = True"
| "isInterval _ = False"

definition runMicrotask :: "peer \<Rightarrow> unit res \<times> peer" where
  "runMicrotask s =
     (case microtasks s of [] \<Rightarrow> ok s | t # ts \<Rightarrow> runMicro t (s\<lparr>microtasks := ts\<rparr>))"

definition fireTimer :: "nat \<Rightarrow> peer \<Rightarrow> unit res \<times> peer" where
  "fireTimer i s =
     (case map_of (timers s) i of
        None \<Rightarrow> ok s
      | Some t \<Rightarrow>
          runTask t (if isInterval t then s
                     else s\<lparr>timers := filter (\<lambda>e. fst e \<noteq> i) (timers s)\<rparr>))"

text \<open>A promise settles: the continuation the peer attached runs. An outcome of the wrong
  shape for the operation, or an index with no pending operation, changes nothing.\<close>

fun settleOp :: "async_op \<Rightarrow> outcome \<Rightarrow> peer \<Rightarrow> (unit res \<times> peer) option" where
  "settleOp SetRemoteDescriptionOp (Rejects e) s = Some (ok (setRemoteDescriptionSettled (Rejected e) s))"
| "settleOp SetRemoteDescriptionOp Fulfils s = Some (ok (setRemoteDescriptionSettled (Fulfilled ()) s))"
| "settleOp (AddIceCandidateOp c) (Rejects e) s = Some (ok (addIceCandidateSettled c (Rejected e) s))"
| "settleOp (AddIceCandidateOp c) Fulfils s = Some (ok (addIceCandidateSettled c (Fulfilled ()) s))"
| "settleOp CreateOfferOp (Rejects e) s = Some (ok (createOfferSettled (Rejected e) s))"
| "settleOp CreateOfferOp (FulfilsDescription d) s = Some (ok (createOfferSettled (Fulfilled d) s))"
| "settleOp (SetLocalOfferOp d) (Rejects e) s = Some (ok (setLocalOfferSettled d (Rejected e) s))"
| "settleOp (SetLocalOfferOp d) Fulfils s = Some (ok (setLocalOfferSettled d (Fulfilled ()) s))"
| "settleOp CreateAnswerOp (Rejects e) s = Some (ok (createAnswerSettled (Rejected e) s))"
| "settleOp CreateAnswerOp (FulfilsDescription d) s = Some (ok (createAnswerSettled (Fulfilled d) s))"
| "settleOp (SetLocalAnswerOp d) (Rejects e) s = Some (ok (setLocalAnswerSettled d (Rejected e) s))"
| "settleOp (SetLocalAnswerOp d) Fulfils s = Some (ok (setLocalAnswerSettled d (Fulfilled ()) s))"
| "settleOp (GetStatsOp f) (Rejects e) s = Some (getStatsSettled f (Rejected e) s)"
| "settleOp (GetStatsOp f) (FulfilsStats items) s = Some (getStatsSettled f (Fulfilled items) s)"
| "settleOp PeerIdentityOp (Rejects e) s =
     Some (ok (pp_destroy (Some (errCode (raised e) ''ERR_PC_PEER_IDENTITY'')) s))"
| "settleOp PeerIdentityOp Fulfils s = Some (ok s)"
| "settleOp _ _ s = None"

definition settle :: "nat \<Rightarrow> outcome \<Rightarrow> peer \<Rightarrow> unit res \<times> peer" where
  "settle i r s =
     (if i < length (asyncOps s) then
        (case settleOp (asyncOps s ! i) r
                (s\<lparr>asyncOps := take i (asyncOps s) @ drop (Suc i) (asyncOps s)\<rparr>) of
           None \<Rightarrow> ok s
         | Some m \<Rightarrow> m)
      else ok s)"

definition onEngine :: "(engine \<Rightarrow> engine) \<Rightarrow> (peer \<Rightarrow> unit res \<times> peer) \<Rightarrow> peer \<Rightarrow> unit res \<times> peer" where
  "onEngine f h s = (case pc s of None \<Rightarrow> ok s | Some e \<Rightarrow> h (s\<lparr>pc := Some (f e)\<rparr>))"

definition onChannel :: "(peer \<Rightarrow> unit res \<times> peer) \<Rightarrow> peer \<Rightarrow> unit res \<times> peer" where
  "onChannel h s = (case channel s of None \<Rightarrow> ok s | Some _ \<Rightarrow> h s)"

definition dropRes :: "'a res \<times> peer \<Rightarrow> unit res \<times> peer" where
  "dropRes m = (case m of (Return _, s) \<Rightarrow> (Return (), s) | (Throw e, s) \<Rightarrow> (Throw e, s))"

definition environment :: "(engine \<Rightarrow> engine) \<Rightarrow> (channel_obj \<Rightarrow> channel_obj) \<Rightarrow> peer \<Rightarrow> peer" where
  "environment f g s =
     s\<lparr>pc := map_option (\<lambda>e. (f e)\<lparr>pc_calls := pc_calls e\<rparr>) (pc s),
       channel := map_option (\<lambda>c. (g c)\<lparr>ch_sent := ch_sent c\<rparr>) (channel s)\<rparr>"

text \<open>
  One step. \<open>parse\<close> is \<^verbatim>\<open>JSON.parse\<close> and \<open>text2arr\<close> the conversion of a string to
  bytes of \<^verbatim>\<open>uint8-util\<close>. An event of the engine or of the channel reaches the peer while
  the handle that carries its handler is held; the result says whether the call or
  callback ended with an exception.
\<close>

fun step :: "(string \<Rightarrow> parsed) \<Rightarrow> (string \<Rightarrow> bytes) \<Rightarrow> event \<Rightarrow> peer \<Rightarrow> unit res \<times> peer" where
  "step parse text2arr (Signal d) s = signal parse d s"
| "step parse text2arr (Send c) s = send c s"
| "step parse text2arr Negotiate s = negotiate s"
| "step parse text2arr RestartIce s = dropRes (restartIce s)"
| "step parse text2arr (AddTransceiver kind init) s = addTransceiver kind init s"
| "step parse text2arr (AddStream tracks stream) s = addStream tracks stream s"
| "step parse text2arr (AddTrack track stream) s = addTrack track stream s"
| "step parse text2arr (ReplaceTrack old new stream) s = replaceTrack old new stream s"
| "step parse text2arr (RemoveTrack track stream) s = removeTrack track stream s"
| "step parse text2arr (RemoveStream tracks stream) s = removeStream tracks stream s"
| "step parse text2arr Destroy s = ok (p_destroy StreamCb None s)"
| "step parse text2arr (Write c k) s = p_write c k s"
| "step parse text2arr (Final ended k) s = ok (final ended k s)"
| "step parse text2arr Finish s =
     (if finishListener s then ok (onFinish (s\<lparr>finishListener := False\<rparr>)) else ok s)"
| "step parse text2arr RunMicrotask s = runMicrotask s"
| "step parse text2arr (FireTimer i) s = fireTimer i s"
| "step parse text2arr (Settle i r) s = settle i r s"
| "step parse text2arr (IceConnectionStateChange st) s =
     onEngine (\<lambda>e. e\<lparr>iceConnectionState := st\<rparr>) onIceStateChange s"
| "step parse text2arr (IceGatheringStateChange st) s =
     onEngine (\<lambda>e. e\<lparr>iceGatheringState := st\<rparr>) onIceStateChange s"
| "step parse text2arr (ConnectionStateChange st) s =
     onEngine (\<lambda>e. e\<lparr>connectionState := st\<rparr>) onConnectionStateChange s"
| "step parse text2arr (SignalingStateChange st) s =
     onEngine (\<lambda>e. e\<lparr>signalingState := st\<rparr>) onSignalingStateChange s"
| "step parse text2arr (IceCandidate c) s = onEngine (\<lambda>e. e) (onIceCandidate c) s"
| "step parse text2arr (Track track streams) s =
     (if ontrack s then onEngine (\<lambda>e. e) (\<lambda>s1. ok (onTrack track streams s1)) s else ok s)"
| "step parse text2arr (DataChannel ch) s =
     (if ondatachannel s then onEngine (\<lambda>e. e) (\<lambda>s1. ok (setupData ch s1)) s else ok s)"
| "step parse text2arr (ChannelMessage d) s = onChannel (\<lambda>s1. ok (onChannelMessage text2arr d s1)) s"
| "step parse text2arr ChannelBufferedAmountLow s = onChannel (\<lambda>s1. ok (onChannelBufferedAmountLow s1)) s"
| "step parse text2arr ChannelOpen s = onChannel onChannelOpen s"
| "step parse text2arr ChannelClose s = onChannel (\<lambda>s1. ok (onChannelClose s1)) s"
| "step parse text2arr (ChannelError err) s =
     onChannel (\<lambda>s1. ok (pp_destroy (Some (errCode (raised err) ''ERR_DATA_CHANNEL'')) s1)) s"
| "step parse text2arr (Environment f g) s = ok (environment f g s)"

inductive reachable :: "peer \<Rightarrow> bool" where
  reachable_init: "constructor op p = Inr s \<Longrightarrow> reachable s"
| reachable_step: "reachable s \<Longrightarrow> reachable (snd (step parse text2arr ev s))"

section \<open>Properties\<close>

subsection \<open>The connectivity invariant\<close>

text \<open>
  Connectivity is decided by deferred work: the teardown timer of \<^verbatim>\<open>_destroy\<close> clears the
  readiness flags, and a pending statistics query or retry timer of \<^verbatim>\<open>_maybeReady\<close> is
  what later sets \<^verbatim>\<open>_connected\<close>. \<open>Inv\<close> ties the flags to that pending work:
  \<^item> \<open>connected\<close> holds only with both readiness flags;
  \<^item> while the peer is not destroying, it holds its engine, no teardown is pending, a
    pending candidate-pair lookup implies both readiness flags, and the stream does not
    report \<^verbatim>\<open>destroyed\<close>.

  \<open>keeps s s'\<close> relates a state to a later one: the invariant carries over and the
  first-negotiation flag is never set again. \<open>kept P xs ys\<close> says that the list \<open>ys\<close>
  adds to \<open>xs\<close> only elements satisfying \<open>P\<close>; a timer task is \<open>harmless\<close> when it is
  neither the teardown nor the lookup retry.
\<close>

fun isTeardown :: "task \<Rightarrow> bool" where
  "isTeardown (TeardownTimer _ _) = True"
| "isTeardown _ = False"

fun isGetStats :: "async_op \<Rightarrow> bool" where
  "isGetStats (GetStatsOp _) = True"
| "isGetStats _ = False"

definition ready :: "peer \<Rightarrow> bool" where
  "ready s = (pcReady s \<and> channelReady s)"

definition lookupPending :: "peer \<Rightarrow> bool" where
  "lookupPending s =
     (list_ex (\<lambda>e. snd e = FindCandidatePairTimer) (timers s) \<or> list_ex isGetStats (asyncOps s))"

definition Inv :: "peer \<Rightarrow> bool" where
  "Inv s =
     ((connected s \<longrightarrow> ready s) \<and>
      (\<not> destroying s \<longrightarrow>
         pc s \<noteq> None \<and> \<not> list_ex (\<lambda>e. isTeardown (snd e)) (timers s) \<and>
         (lookupPending s \<longrightarrow> ready s) \<and> \<not> destroyed s))"

definition keeps :: "peer \<Rightarrow> peer \<Rightarrow> bool" where
  "keeps s s' = ((Inv s \<longrightarrow> Inv s') \<and> (firstNegotiation s' \<longrightarrow> firstNegotiation s))"

definition kept :: "('a \<Rightarrow> bool) \<Rightarrow> 'a list \<Rightarrow> 'a list \<Rightarrow> bool" where
  "kept P xs ys = list_all (\<lambda>e. P e \<or> e \<in> set xs) ys"

definition harmless :: "task \<Rightarrow> bool" where
  "harmless t = (\<not> isTeardown t \<and> t \<noteq> FindCandidatePairTimer)"

subsection \<open>Runs\<close>

definition run :: "(string \<Rightarrow> parsed) \<Rightarrow> (string \<Rightarrow> bytes) \<Rightarrow> event list \<Rightarrow> peer \<Rightarrow> peer" where
  "run parse text2arr evs s = fold (\<lambda>ev s1. snd (step parse text2arr ev s1)) evs s"

subsection \<open>Concrete peers\<close>

text \<open>
  An engine and a channel that accept every call, default options, and the peers the
  constructor builds from them (\<open>example_peer True\<close> is an initiator). \<open>example_connected\<close>
  is that initiator after its ICE connection state became \<^verbatim>\<open>connected\<close>, its channel opened
  and the statistics query reported a selected candidate pair.
\<close>

definition example_engine :: engine where
  "example_engine =
     \<lparr>iceConnectionState = IceNew, iceGatheringState = GatherNew, signalingState = Stable,
      connectionState = ConnNew, remoteDescription = None, localDescription = None,
      hasRestartIce = True, getStatsLength = 0, pc_unrequestedTransceivers = [],
      pc_addTransceiverThrows = None, pc_addTrackResult = (\<lambda>t st. Inr (t + st)),
      pc_removeTrackThrows = (\<lambda>_. None), pc_hasPeerIdentity = False, pc_calls = []\<rparr>"

definition example_channel :: channel_obj where
  "example_channel =
     \<lparr>readyState = RsConnecting, bufferedAmount = 0, ch_lowThresholdIsNumber = True,
      bufferedAmountLowThreshold = 0, ch_label = ''data'', ch_sendThrows = None, ch_sent = []\<rparr>"

definition example_opts :: "bool \<Rightarrow> opts" where
  "example_opts i =
     \<lparr>o_initiator = i, o_channelName = None, o_channelNegotiated = False,
      o_sdpTransform = None, o_trickle = None, o_allowHalfTrickle = None,
      o_objectMode = False, o_iceRestartEnabled = None, o_offerOptions_iceRestart = False,
      o_wrtc = False, o_streams = []\<rparr>"

definition example_platform :: platform where
  "example_platform =
     \<lparr>webrtcSupport = True, hasWindow = True, newPeerConnection = Inr example_engine,
      peerConnectionIdIsNumber = False, createDataChannel = Some example_channel,
      randomName = ''0123456789abcdef0123456789abcdef01234567'',
      newSenderHasReplaceTrack = (\<lambda>_. True)\<rparr>"

definition example_peer :: "bool \<Rightarrow> peer" where
  "example_peer i = projr (constructor (example_opts i) example_platform)"

definition example_pair :: stat_item where
  "example_pair =
     \<lparr>st_type = ''candidate-pair'', st_id = ''pair1'', st_selectedCandidatePairId = None,
      st_googActiveConnection = None, st_selected = True, st_localCandidateId = None,
      st_remoteCandidateId = None, st_ip = None, st_address = None, st_port = None,
      st_ipAddress = None, st_portNumber = None, st_googLocalAddress = None,
      st_googRemoteAddress = None\<rparr>"

definition example_connected :: peer where
  "example_connected =
     run (\<lambda>_. ParseThrows) (\<lambda>_. [])
       [IceConnectionStateChange IceConnected,
        Environment (\<lambda>e. e) (\<lambda>c. c\<lparr>readyState := RsOpen\<rparr>), ChannelOpen,
        Settle 0 (FulfilsStats [example_pair])]
       (example_peer True)"

definition example_closing :: peer where
  "example_closing = environment (\<lambda>e. e) (\<lambda>c. c\<lparr>readyState := RsClosing\<rparr>) example_connected"

text \<open>
  \<open>example_idle\<close> is the initiator after its first batched negotiation ran and the
  engine reported the signaling state \<^verbatim>\<open>stable\<close>: no batch and no negotiation pending.
\<close>

definition example_idle :: peer where
  "example_idle =
     run (\<lambda>_. ParseThrows) (\<lambda>_. []) [RunMicrotask, SignalingStateChange Stable] (example_peer True)"

subsection \<open>Payloads in the words of the specification\<close>

text \<open>
  \<open>asIs d\<close> is the value of \<^verbatim>\<open>event.data\<close> itself, handed to \<^verbatim>\<open>push\<close> unmodified;
  \<open>rawBytes text2arr d\<close> is its byte form: the \<^verbatim>\<open>Uint8Array\<close> over a binary frame, the
  bytes of a text frame.
\<close>

definition asIs :: "frame \<Rightarrow> payload" where
  "asIs d = (case d of TextFrame t \<Rightarrow> PString t | ArrayBufferFrame b \<Rightarrow> PArrayBuffer b)"

definition rawBytes :: "(string \<Rightarrow> bytes) \<Rightarrow> frame \<Rightarrow> payload" where
  "rawBytes text2arr d =
     (case d of TextFrame t \<Rightarrow> PUint8Array (text2arr t) | ArrayBufferFrame b \<Rightarrow> PUint8Array b)"

text \<open>The state the constructor leaves the negotiation batching in.\<close>

definition firstBatchPending :: "peer \<Rightarrow> bool" where
  "firstBatchPending s =
     (batchedNegotiation s \<and> firstNegotiation s \<and> microtasks s = [NegotiationBatch])"

text \<open>An initiator constructed with \<^verbatim>\<open>objectMode: true\<close>.\<close>

definition example_object :: peer where
  "example_object =
     projr (constructor ((example_opts True)\<lparr>o_objectMode := True\<rparr>) example_platform)"

text \<open>
  The errors handed to \<^verbatim>\<open>__destroy\<close> and not yet reported: each waits in the timer of
  \<^verbatim>\<open>_destroy\<close>, whose callback emits it as the \<^verbatim>\<open>error\<close> event. \<open>errorsEmitted\<close> are the
  errors of the \<^verbatim>\<open>error\<close> events emitted so far.
\<close>

definition pendingErrors :: "peer \<Rightarrow> error list" where
  "pendingErrors s =
     List.map_filter (\<lambda>e. case snd e of TeardownTimer k err \<Rightarrow> err | _ \<Rightarrow> None) (timers s)"

definition errorsEmitted :: "peer \<Rightarrow> error list" where
  "errorsEmitted s =
     List.map_filter (\<lambda>ev. case ev of EvError e \<Rightarrow> Some e | _ \<Rightarrow> None) (emitted s)"

text \<open>
  Two initiators whose ICE connection fails after the first negotiation started. The
  first has ICE restarts disabled, and is destroyed at once. The second has the default
  policy: the recovery timer is armed, and elapses with the connection still failed. In
  both the timer of \<^verbatim>\<open>_destroy\<close> has fired.
\<close>

definition example_norestart :: peer where
  "example_norestart =
     projr (constructor ((example_opts True)\<lparr>o_iceRestartEnabled := Some OptFalse\<rparr>)
              example_platform)"

definition example_ice_failed :: peer where
  "example_ice_failed =
     run (\<lambda>_. ParseThrows) (\<lambda>_. []) [RunMicrotask, IceConnectionStateChange IceFailed, FireTimer 3]
       example_norestart"

definition example_recovery_failed :: peer where
  "example_recovery_failed =
     run (\<lambda>_. ParseThrows) (\<lambda>_. [])
       [RunMicrotask, IceConnectionStateChange IceFailed, FireTimer 4, FireTimer 5]
       (example_peer True)"

text \<open>
  The same two peers one step earlier: \<open>example_failing\<close> when the engine reports the
  state \<^verbatim>\<open>failed\<close> and the handler has not run yet, \<open>example_recovering\<close> with the
  recovery timer armed.
\<close>

definition example_failing :: peer where
  "example_failing =
     environment (\<lambda>e. e\<lparr>iceConnectionState := IceFailed\<rparr>) (\<lambda>c. c)
       (run (\<lambda>_. ParseThrows) (\<lambda>_. []) [RunMicrotask] example_norestart)"

definition example_recovering :: peer where
  "example_recovering =
     run (\<lambda>_. ParseThrows) (\<lambda>_. []) [RunMicrotask, IceConnectionStateChange IceFailed]
       (example_peer True)"

text \<open>
  The initiator on which \<^verbatim>\<open>_write(c, cb)\<close> is called (the callback is number 7) before
  the engine and the channel become ready and the statistics show a selected pair.
\<close>

definition example_written :: "chunk \<Rightarrow> peer" where
  "example_written c =
     run (\<lambda>_. ParseThrows) (\<lambda>_. [])
       [Write c 7, IceConnectionStateChange IceConnected,
        Environment (\<lambda>e. e) (\<lambda>c. c\<lparr>readyState := RsOpen\<rparr>), ChannelOpen,
        Settle 0 (FulfilsStats [example_pair])]
       (example_peer True)"

text \<open>The result is an exception carrying the code \<^verbatim>\<open>ERR_DESTROYED\<close>.\<close>

definition throwsDestroyed :: "'a res \<Rightarrow> bool" where
  "throwsDestroyed r =
     (case r of Throw e \<Rightarrow> err_code e = Some ''ERR_DESTROYED'' | Return _ \<Rightarrow> False)"

text \<open>
  The initiator on which the stream base class has called \<^verbatim>\<open>_destroy(cb)\<close>, and the same
  peer once the timer of \<^verbatim>\<open>_destroy\<close> has fired: the handles are dropped, \<^verbatim>\<open>cb\<close> was
  called and the stream reports \<^verbatim>\<open>destroyed\<close>.
\<close>

definition example_destroying :: peer where
  "example_destroying = run (\<lambda>_. ParseThrows) (\<lambda>_. []) [Destroy] (example_peer True)"

definition example_torn_down :: peer where
  "example_torn_down =
     run (\<lambda>_. ParseThrows) (\<lambda>_. []) [Destroy, FireTimer 2] (example_peer True)"

text \<open>
  An initiator whose engine hands back the same sender for every track, as
  \<^verbatim>\<open>RTCPeerConnection.addTrack\<close> does when it reuses a sender that has no track and has
  not sent yet. On it \<^verbatim>\<open>addTrack(1, 2)\<close> and \<^verbatim>\<open>removeTrack(1, 2)\<close> are called, then
  \<^verbatim>\<open>addTrack(5, 2)\<close>.
\<close>

definition example_reusing :: peer where
  "example_reusing =
     projr (constructor (example_opts True)
              (example_platform\<lparr>newPeerConnection :=
                 Inr (example_engine\<lparr>pc_addTrackResult := (\<lambda>_ _. Inr 3)\<rparr>)\<rparr>))"

definition example_reused :: peer where
  "example_reused =
     run (\<lambda>_. ParseThrows) (\<lambda>_. []) [AddTrack 1 2, RemoveTrack 1 2] example_reusing"

text \<open>The initiator after \<^verbatim>\<open>addTrack(1, 2)\<close>, and after \<^verbatim>\<open>removeTrack(1, 2)\<close> on top.\<close>

definition example_added :: peer where
  "example_added = snd (addTrack 1 2 (example_peer True))"

definition example_removed :: peer where
  "example_removed = snd (removeTrack 1 2 example_added)"

section \<open>The invariant is kept by every step\<close>

lemma keeps_refl [simp]: "keeps s s"
  by (simp add: keeps_def)

lemma keeps_irrelevant [simp]:
  "keeps s0 (s\<lparr>objectMode := v0\<rparr>) = keeps s0 s"
  "keeps s0 (s\<lparr>channelName := v1\<rparr>) = keeps s0 s"
  "keeps s0 (s\<lparr>initiator := v2\<rparr>) = keeps s0 s"
  "keeps s0 (s\<lparr>channelNegotiated := v3\<rparr>) = keeps s0 s"
  "keeps s0 (s\<lparr>sdpTransform := v4\<rparr>) = keeps s0 s"
  "keeps s0 (s\<lparr>trickle := v5\<rparr>) = keeps s0 s"
  "keeps s0 (s\<lparr>allowHalfTrickle := v6\<rparr>) = keeps s0 s"
  "keeps s0 (s\<lparr>iceRestartEnabled := v7\<rparr>) = keeps s0 s"
  "keeps s0 (s\<lparr>iceFailureRecoveryTimer := v8\<rparr>) = keeps s0 s"
  "keeps s0 (s\<lparr>offerOptions_iceRestart := v9\<rparr>) = keeps s0 s"
  "keeps s0 (s\<lparr>connecting := v11\<rparr>) = keeps s0 s"
  "keeps s0 (s\<lparr>connectedOnce := v12\<rparr>) = keeps s0 s"
  "keeps s0 (s\<lparr>remoteAddress := v13\<rparr>) = keeps s0 s"
  "keeps s0 (s\<lparr>remoteFamily := v14\<rparr>) = keeps s0 s"
  "keeps s0 (s\<lparr>remotePort := v15\<rparr>) = keeps s0 s"
  "keeps s0 (s\<lparr>localAddress := v16\<rparr>) = keeps s0 s"
  "keeps s0 (s\<lparr>localFamily := v17\<rparr>) = keeps s0 s"
  "keeps s0 (s\<lparr>localPort := v18\<rparr>) = keeps s0 s"
  "keeps s0 (s\<lparr>iceGatheringComplete := v19\<rparr>) = keeps s0 s"
  "keeps s0 (s\<lparr>iceGatheringCompleteTimer := v20\<rparr>) = keeps s0 s"
  "keeps s0 (s\<lparr>channel := v21\<rparr>) = keeps s0 s"
  "keeps s0 (s\<lparr>pendingCandidates := v22\<rparr>) = keeps s0 s"
  "keeps s0 (s\<lparr>isNegotiating := v23\<rparr>) = keeps s0 s"
  "keeps s0 (s\<lparr>isRestartingIce := v24\<rparr>) = keeps s0 s"
  "keeps s0 (s\<lparr>batchedNegotiation := v25\<rparr>) = keeps s0 s"
  "keeps s0 (s\<lparr>queuedNegotiation := v26\<rparr>) = keeps s0 s"
  "keeps s0 (s\<lparr>sendersAwaitingStable := v27\<rparr>) = keeps s0 s"
  "keeps s0 (s\<lparr>closingInterval := v28\<rparr>) = keeps s0 s"
  "keeps s0 (s\<lparr>isClosing := v29\<rparr>) = keeps s0 s"
  "keeps s0 (s\<lparr>remoteTracks := v30\<rparr>) = keeps s0 s"
  "keeps s0 (s\<lparr>remoteStreams := v31\<rparr>) = keeps s0 s"
  "keeps s0 (s\<lparr>chunk := v32\<rparr>) = keeps s0 s"
  "keeps s0 (s\<lparr>cb := v33\<rparr>) = keeps s0 s"
  "keeps s0 (s\<lparr>interval := v34\<rparr>) = keeps s0 s"
  "keeps s0 (s\<lparr>isReactNativeWebrtc := v35\<rparr>) = keeps s0 s"
  "keeps s0 (s\<lparr>onFinishBound := v36\<rparr>) = keeps s0 s"
  "keeps s0 (s\<lparr>finishListener := v37\<rparr>) = keeps s0 s"
  "keeps s0 (s\<lparr>senderMap := v38\<rparr>) = keeps s0 s"
  "keeps s0 (s\<lparr>submaps := v39\<rparr>) = keeps s0 s"
  "keeps s0 (s\<lparr>nextSubmap := v40\<rparr>) = keeps s0 s"
  "keeps s0 (s\<lparr>senderRemoved := v41\<rparr>) = keeps s0 s"
  "keeps s0 (s\<lparr>senderHasReplaceTrack := v42\<rparr>) = keeps s0 s"
  "keeps s0 (s\<lparr>ondatachannel := v43\<rparr>) = keeps s0 s"
  "keeps s0 (s\<lparr>ontrack := v44\<rparr>) = keeps s0 s"
  "keeps s0 (s\<lparr>emitted := v45\<rparr>) = keeps s0 s"
  "keeps s0 (s\<lparr>microtasks := v46\<rparr>) = keeps s0 s"
  "keeps s0 (s\<lparr>nextTimer := v47\<rparr>) = keeps s0 s"
  "keeps s0 (s\<lparr>gatheringListeners := v48\<rparr>) = keeps s0 s"
  "keeps s0 (s\<lparr>connectListeners := v49\<rparr>) = keeps s0 s"
  "keeps s0 (s\<lparr>pushed := v50\<rparr>) = keeps s0 s"
  "keeps s0 (s\<lparr>cbCalls := v51\<rparr>) = keeps s0 s"
  "keeps s0 (s\<lparr>endCalled := v52\<rparr>) = keeps s0 s"
  "keeps s0 (s\<lparr>warnings := v53\<rparr>) = keeps s0 s"
  by (simp_all add: keeps_def Inv_def ready_def lookupPending_def)


lemma harmless_simps [simp]:
  "harmless CreateOfferTimer" "harmless IceFailureRecoveryTimer" "harmless IceCompleteTimer"
  "harmless ClosingInterval" "harmless BackpressureInterval" "harmless DestroySoonTimer"
  by (simp_all add: harmless_def)

lemma kept_simps [simp]:
  "kept P xs xs"
  "kept P xs []"
  "kept P xs (filter Q xs)"
  "kept P xs (take n xs)"
  "kept P xs (drop n xs)"
  "kept P xs (ys @ zs) = (kept P xs ys \<and> kept P xs zs)"
  "kept P xs (e # ys) = ((P e \<or> e \<in> set xs) \<and> kept P xs ys)"
  by (auto simp: kept_def list_all_iff dest: in_set_takeD in_set_dropD)

lemma Inv_timers:
  assumes "Inv s" "kept (\<lambda>e. harmless (snd e)) (timers s) ts"
  shows "Inv (s\<lparr>timers := ts\<rparr>)"
proof -
  have sub: "\<And>e. e \<in> set ts \<Longrightarrow> \<not> harmless (snd e) \<Longrightarrow> e \<in> set (timers s)"
    using assms(2) by (auto simp: kept_def list_all_iff)
  have t: "list_ex (\<lambda>e. isTeardown (snd e)) ts \<Longrightarrow> list_ex (\<lambda>e. isTeardown (snd e)) (timers s)"
    using sub by (fastforce simp: list_ex_iff harmless_def)
  have l: "lookupPending (s\<lparr>timers := ts\<rparr>) \<Longrightarrow> lookupPending s"
    using sub by (fastforce simp: lookupPending_def list_ex_iff harmless_def)
  from assms(1) t l show ?thesis
    by (auto simp: Inv_def ready_def)
qed

lemma keeps_timers [simp]:
  "keeps s0 s \<Longrightarrow> kept (\<lambda>e. harmless (snd e)) (timers s) ts \<Longrightarrow>
   keeps s0 (s\<lparr>timers := ts\<rparr>)"
  by (simp add: keeps_def Inv_timers)

lemma keeps_flags [simp]:
  "keeps s0 s \<Longrightarrow> keeps s0 (s\<lparr>connected := False\<rparr>)"
  "keeps s0 s \<Longrightarrow> keeps s0 (s\<lparr>pcReady := True\<rparr>)"
  "keeps s0 s \<Longrightarrow> keeps s0 (s\<lparr>channelReady := True\<rparr>)"
  "keeps s0 s \<Longrightarrow> keeps s0 (s\<lparr>firstNegotiation := False\<rparr>)"
  "keeps s0 s \<Longrightarrow> keeps s0 (s\<lparr>pc := Some e\<rparr>)"
  by (auto simp: keeps_def Inv_def ready_def lookupPending_def)

lemma keeps_asyncOps [simp]:
  assumes "keeps s0 s" "kept (\<lambda>a. \<not> isGetStats a) (asyncOps s) ops"
  shows "keeps s0 (s\<lparr>asyncOps := ops\<rparr>)"
proof -
  have "list_ex isGetStats ops \<Longrightarrow> list_ex isGetStats (asyncOps s)"
    using assms(2) by (fastforce simp: kept_def list_all_iff list_ex_iff)
  then have "lookupPending (s\<lparr>asyncOps := ops\<rparr>) \<Longrightarrow> lookupPending s"
    by (auto simp: lookupPending_def)
  with assms(1) show ?thesis
    by (auto simp: keeps_def Inv_def ready_def)
qed

lemma setTimeout_keeps [simp]:
  "harmless t \<Longrightarrow> keeps s0 s \<Longrightarrow> keeps s0 (snd (setTimeout t s))"
  by (simp add: setTimeout_def)

lemma clearTimeout_keeps [simp]:
  "keeps s0 s \<Longrightarrow> keeps s0 (clearTimeout h s)"
  by (simp add: clearTimeout_def split: option.splits)

lemma emit_keeps [simp]: "keeps s0 (emit ev s) = keeps s0 s"
  by (simp add: emit_def)

lemma queueMicrotask_keeps [simp]: "keeps s0 (queueMicrotask t s) = keeps s0 s"
  by (simp add: queueMicrotask_def)

lemma callCb_keeps [simp]: "keeps s0 (callCb k err s) = keeps s0 s"
  by (simp add: callCb_def)

lemma push_keeps [simp]: "keeps s0 (push d s) = keeps s0 s"
  by (simp add: push_def)

lemma p_destroy_keeps [simp]: "keeps s0 s \<Longrightarrow> keeps s0 (p_destroy k err s)"
  by (auto simp add: p_destroy_def setTimeout_def keeps_def Inv_def ready_def)

lemma pp_destroy_keeps [simp]: "keeps s0 s \<Longrightarrow> keeps s0 (pp_destroy err s)"
  by (simp add: pp_destroy_def)

lemma needsNegotiation_keeps [simp]: "keeps s0 (needsNegotiation s) = keeps s0 s"
  by (simp add: needsNegotiation_def)

lemma andThen_keeps [simp]:
  "keeps s0 (snd m) \<Longrightarrow> (\<And>x s1. keeps s0 s1 \<Longrightarrow> keeps s0 (snd (f x s1))) \<Longrightarrow>
   keeps s0 (snd (andThen m f))"
  by (auto simp: andThen_def split: prod.splits res.splits)

lemma ok_keeps [simp]: "keeps s0 (snd (ok s)) = keeps s0 s"
  by (simp add: ok_def)

lemma negotiate_keeps [simp]: "keeps s0 s \<Longrightarrow> keeps s0 (snd (negotiate s))"
  by (simp add: negotiate_def Let_def)

lemma negotiationBatch_keeps [simp]: "keeps s0 s \<Longrightarrow> keeps s0 (snd (negotiationBatch s))"
  by (simp add: negotiationBatch_def Let_def)

lemma startIceFailureRecoveryTimeout_keeps [simp]:
  "keeps s0 s \<Longrightarrow> keeps s0 (startIceFailureRecoveryTimeout s)"
  by (simp add: startIceFailureRecoveryTimeout_def Let_def case_prod_beta)

lemma iceFailureRecoveryTimeout_keeps [simp]:
  "keeps s0 s \<Longrightarrow> keeps s0 (snd (iceFailureRecoveryTimeout s))"
  by (simp add: iceFailureRecoveryTimeout_def Let_def split: option.splits)

lemma restartIce_keeps [simp]: "keeps s0 s \<Longrightarrow> keeps s0 (snd (restartIce s))"
  by (simp add: restartIce_def Let_def split: option.splits)

lemma send_keeps [simp]: "keeps s0 s \<Longrightarrow> keeps s0 (snd (send c s))"
  by (simp add: send_def split: option.splits)

lemma p_write_keeps [simp]: "keeps s0 s \<Longrightarrow> keeps s0 (snd (p_write c k s))"
  by (simp add: p_write_def case_prod_beta split: option.splits res.splits)

lemma final_keeps [simp]: "keeps s0 s \<Longrightarrow> keeps s0 (final e k s)"
  by (simp add: final_def)

lemma onFinish_keeps [simp]: "keeps s0 s \<Longrightarrow> keeps s0 (onFinish s)"
  by (simp add: onFinish_def)

lemma onChannelMessage_keeps [simp]: "keeps s0 s \<Longrightarrow> keeps s0 (onChannelMessage t d s)"
  by (simp add: onChannelMessage_def Let_def)

lemma onChannelBufferedAmountLow_keeps [simp]: "keeps s0 s \<Longrightarrow> keeps s0 (onChannelBufferedAmountLow s)"
  by (simp add: onChannelBufferedAmountLow_def split: option.splits)

lemma onInterval_keeps [simp]: "keeps s0 s \<Longrightarrow> keeps s0 (onInterval s)"
  by (simp add: onInterval_def split: option.splits)

lemma onChannelClose_keeps [simp]: "keeps s0 s \<Longrightarrow> keeps s0 (onChannelClose s)"
  by (simp add: onChannelClose_def)

lemma closingIntervalTick_keeps [simp]: "keeps s0 s \<Longrightarrow> keeps s0 (closingIntervalTick s)"
  by (simp add: closingIntervalTick_def)

lemma setupData_keeps [simp]: "keeps s0 s \<Longrightarrow> keeps s0 (setupData c s)"
  by (simp add: setupData_def Let_def case_prod_beta split: option.splits)

lemma addTransceiver_keeps [simp]: "keeps s0 s \<Longrightarrow> keeps s0 (snd (addTransceiver kind init s))"
  by (simp add: addTransceiver_def split: option.splits)

lemma addTransceivers_keeps [simp]: "keeps s0 s \<Longrightarrow> keeps s0 (snd (addTransceivers ks s))"
  by (induction ks arbitrary: s) simp_all

lemma requestMissingTransceivers_keeps [simp]:
  "keeps s0 s \<Longrightarrow> keeps s0 (snd (requestMissingTransceivers s))"
  by (simp add: requestMissingTransceivers_def split: option.splits)

lemma sendOffer_keeps [simp]: "keeps s0 s \<Longrightarrow> keeps s0 (snd (sendOffer d s))"
  by (simp add: sendOffer_def split: option.splits)

lemma sendAnswer_keeps [simp]: "keeps s0 s \<Longrightarrow> keeps s0 (snd (sendAnswer d s))"
  by (simp add: sendAnswer_def Let_def split: option.splits)

lemma runListener_keeps [simp]: "keeps s0 s \<Longrightarrow> keeps s0 (snd (runListener l s))"
  by (cases l) simp_all

lemma runListeners_keeps [simp]: "keeps s0 s \<Longrightarrow> keeps s0 (snd (runListeners ls s))"
  by (induction ls arbitrary: s) simp_all

lemma onIceGatheringComplete_keeps [simp]:
  "keeps s0 s \<Longrightarrow> keeps s0 (snd (onIceGatheringComplete s))"
  by (simp add: onIceGatheringComplete_def)

lemma startIceCompleteTimeout_keeps [simp]:
  "keeps s0 s \<Longrightarrow> keeps s0 (startIceCompleteTimeout s)"
  by (simp add: startIceCompleteTimeout_def case_prod_beta)

lemma iceCompleteTimeout_keeps [simp]: "keeps s0 s \<Longrightarrow> keeps s0 (snd (iceCompleteTimeout s))"
  by (simp add: iceCompleteTimeout_def)

lemma onIceCandidate_keeps [simp]: "keeps s0 s \<Longrightarrow> keeps s0 (snd (onIceCandidate c s))"
  by (simp add: onIceCandidate_def split: option.splits)


lemma caught_keeps [simp]: "keeps s0 (snd m) \<Longrightarrow> keeps s0 (caught code m)"
  by (simp add: caught_def case_prod_beta split: res.splits)

lemma createOffer_keeps [simp]: "keeps s0 s \<Longrightarrow> keeps s0 (snd (createOffer s))"
  by (simp add: createOffer_def Let_def split: option.splits)

lemma createOfferThen_keeps [simp]: "keeps s0 s \<Longrightarrow> keeps s0 (snd (createOfferThen d s))"
  by (simp add: createOfferThen_def Let_def split: option.splits)

lemma createOfferSettled_keeps [simp]: "keeps s0 s \<Longrightarrow> keeps s0 (createOfferSettled r s)"
  by (simp add: createOfferSettled_def split: settled.splits)

lemma offerOnSuccess_keeps [simp]: "keeps s0 s \<Longrightarrow> keeps s0 (snd (offerOnSuccess d s))"
  by (simp add: offerOnSuccess_def)

lemma setLocalOfferSettled_keeps [simp]: "keeps s0 s \<Longrightarrow> keeps s0 (setLocalOfferSettled d r s)"
  by (simp add: setLocalOfferSettled_def split: settled.splits)

lemma createAnswer_keeps [simp]: "keeps s0 s \<Longrightarrow> keeps s0 (snd (createAnswer s))"
  by (simp add: createAnswer_def Let_def split: option.splits)

lemma createAnswerThen_keeps [simp]: "keeps s0 s \<Longrightarrow> keeps s0 (snd (createAnswerThen d s))"
  by (simp add: createAnswerThen_def Let_def split: option.splits)

lemma createAnswerSettled_keeps [simp]: "keeps s0 s \<Longrightarrow> keeps s0 (createAnswerSettled r s)"
  by (simp add: createAnswerSettled_def split: settled.splits)

lemma answerOnSuccess_keeps [simp]: "keeps s0 s \<Longrightarrow> keeps s0 (snd (answerOnSuccess d s))"
  by (simp add: answerOnSuccess_def)

lemma setLocalAnswerSettled_keeps [simp]: "keeps s0 s \<Longrightarrow> keeps s0 (setLocalAnswerSettled d r s)"
  by (simp add: setLocalAnswerSettled_def split: settled.splits)

lemma addIceCandidate_keeps [simp]: "keeps s0 s \<Longrightarrow> keeps s0 (snd (addIceCandidate c s))"
  by (simp add: addIceCandidate_def split: option.splits)

lemma addIceCandidateSettled_keeps [simp]: "keeps s0 s \<Longrightarrow> keeps s0 (addIceCandidateSettled c r s)"
  by (simp add: addIceCandidateSettled_def split: settled.splits)

lemma addIceCandidates_keeps [simp]: "keeps s0 s \<Longrightarrow> keeps s0 (snd (addIceCandidates cs s))"
  by (induction cs arbitrary: s) simp_all

lemma setRemoteDescriptionThen_keeps [simp]:
  "keeps s0 s \<Longrightarrow> keeps s0 (snd (setRemoteDescriptionThen s))"
  by (simp add: setRemoteDescriptionThen_def Let_def split: option.splits)

lemma setRemoteDescriptionSettled_keeps [simp]:
  "keeps s0 s \<Longrightarrow> keeps s0 (setRemoteDescriptionSettled r s)"
  by (simp add: setRemoteDescriptionSettled_def split: settled.splits)

lemma ready_upd [simp]:
  "ready (s\<lparr>asyncOps := ops\<rparr>) = ready s"
  "ready (s\<lparr>timers := ts\<rparr>) = ready s"
  "ready (s\<lparr>connected := c\<rparr>) = ready s"
  by (simp_all add: ready_def)

lemma Inv_stats_pending:
  assumes "Inv s" "\<not> destroying s \<Longrightarrow> ready s"
  shows "Inv (s\<lparr>asyncOps := ops\<rparr>)"
proof (cases "destroying s")
  case True
  with assms(1) show ?thesis by (simp add: Inv_def)
next
  case False
  with assms show ?thesis by (simp add: Inv_def)
qed

lemma Inv_retry_pending:
  assumes "Inv s" "\<not> destroying s \<Longrightarrow> ready s"
  shows "Inv (s\<lparr>timers := timers s @ [(i, FindCandidatePairTimer)]\<rparr>)"
proof (cases "destroying s")
  case True
  with assms(1) show ?thesis by (simp add: Inv_def)
next
  case False
  with assms show ?thesis by (simp add: Inv_def)
qed

lemma Inv_connected:
  assumes "Inv s" "ready s"
  shows "Inv (s\<lparr>connected := True\<rparr>)"
  using assms by (simp add: Inv_def lookupPending_def)

lemma keeps_stats_pending:
  "keeps s0 s \<Longrightarrow> (Inv s0 \<Longrightarrow> \<not> destroying s \<Longrightarrow> ready s) \<Longrightarrow>
   keeps s0 (s\<lparr>asyncOps := ops\<rparr>)"
  unfolding keeps_def using Inv_stats_pending by auto

lemma keeps_retry_pending:
  "keeps s0 s \<Longrightarrow> (Inv s0 \<Longrightarrow> \<not> destroying s \<Longrightarrow> ready s) \<Longrightarrow>
   keeps s0 (s\<lparr>timers := timers s @ [(i, FindCandidatePairTimer)]\<rparr>)"
  unfolding keeps_def using Inv_retry_pending by auto

lemma keeps_connected:
  "keeps s0 s \<Longrightarrow> (Inv s0 \<Longrightarrow> ready s) \<Longrightarrow> keeps s0 (s\<lparr>connected := True\<rparr>)"
  unfolding keeps_def using Inv_connected by auto


lemma signalData_keeps [simp]: "keeps s0 s \<Longrightarrow> keeps s0 (snd (signalData d s))"
  unfolding signalData_def
  by (intro andThen_keeps) (simp_all split: option.splits)

lemma signal_keeps [simp]: "keeps s0 s \<Longrightarrow> keeps s0 (snd (signal parse d s))"
  by (simp add: signal_def split: signal_input.splits parsed.splits)

lemma getStats_keeps:
  assumes "keeps s0 s" "Inv s0 \<Longrightarrow> \<not> destroying s \<Longrightarrow> ready s"
  shows "keeps s0 (snd (getStats s))"
proof (cases "pc s")
  case None
  with assms show ?thesis by (simp add: getStats_def)
next
  case (Some e)
  let ?s1 = "s\<lparr>pc := Some (logCall CallGetStats e)\<rparr>"
  have k: "keeps s0 ?s1" using assms(1) by simp
  have "keeps s0 (?s1\<lparr>asyncOps := asyncOps s @
        [GetStatsOp (\<not> (getStatsLength e = 0 \<or> isReactNativeWebrtc s))]\<rparr>)"
  proof (rule keeps_stats_pending[OF k])
    assume "Inv s0" "\<not> destroying ?s1"
    then show "ready ?s1" using assms(2) by (simp add: ready_def)
  qed
  with Some show ?thesis by (simp add: getStats_def)
qed

lemma findCandidatePair_keeps:
  "keeps s0 s \<Longrightarrow> (Inv s0 \<Longrightarrow> \<not> destroying s \<Longrightarrow> ready s) \<Longrightarrow>
   keeps s0 (snd (findCandidatePair s))"
  by (simp add: findCandidatePair_def getStats_keeps)

lemma maybeReady_keeps [simp]: "keeps s0 s \<Longrightarrow> keeps s0 (snd (maybeReady s))"
  by (simp add: maybeReady_def findCandidatePair_keeps ready_def)

lemma onChannelOpen_keeps [simp]: "keeps s0 s \<Longrightarrow> keeps s0 (snd (onChannelOpen s))"
  by (simp add: onChannelOpen_def)

lemma setSelectedCandidatePair_keeps [simp]:
  "keeps s0 (setSelectedCandidatePair lc rc pair s) = keeps s0 s"
  by (simp add: setSelectedCandidatePair_def Let_def split: option.splits)

lemma setSelectedCandidatePair_frame [simp]:
  "destroying (setSelectedCandidatePair lc rc pair s) = destroying s"
  "ready (setSelectedCandidatePair lc rc pair s) = ready s"
  "Inv (setSelectedCandidatePair lc rc pair s) = Inv s"
  by (simp_all add: setSelectedCandidatePair_def Let_def ready_def Inv_def lookupPending_def split: option.splits)

lemma selectPairs_frame [simp]:
  "destroying (snd (selectPairs lc rc cp items found s)) = destroying s"
  "ready (snd (selectPairs lc rc cp items found s)) = ready s"
  "Inv (snd (selectPairs lc rc cp items found s)) = Inv s"
  "keeps s0 (snd (selectPairs lc rc cp items found s)) = keeps s0 s"
  by (induction items arbitrary: found s; simp add: andThen_def split: option.splits)+

lemma Inv_irrelevant [simp]:
  "Inv (s\<lparr>objectMode := v0\<rparr>) = Inv s"
  "Inv (s\<lparr>channelName := v1\<rparr>) = Inv s"
  "Inv (s\<lparr>initiator := v2\<rparr>) = Inv s"
  "Inv (s\<lparr>channelNegotiated := v3\<rparr>) = Inv s"
  "Inv (s\<lparr>sdpTransform := v4\<rparr>) = Inv s"
  "Inv (s\<lparr>trickle := v5\<rparr>) = Inv s"
  "Inv (s\<lparr>allowHalfTrickle := v6\<rparr>) = Inv s"
  "Inv (s\<lparr>iceRestartEnabled := v7\<rparr>) = Inv s"
  "Inv (s\<lparr>iceFailureRecoveryTimer := v8\<rparr>) = Inv s"
  "Inv (s\<lparr>offerOptions_iceRestart := v9\<rparr>) = Inv s"
  "Inv (s\<lparr>connecting := v11\<rparr>) = Inv s"
  "Inv (s\<lparr>connectedOnce := v12\<rparr>) = Inv s"
  "Inv (s\<lparr>remoteAddress := v13\<rparr>) = Inv s"
  "Inv (s\<lparr>remoteFamily := v14\<rparr>) = Inv s"
  "Inv (s\<lparr>remotePort := v15\<rparr>) = Inv s"
  "Inv (s\<lparr>localAddress := v16\<rparr>) = Inv s"
  "Inv (s\<lparr>localFamily := v17\<rparr>) = Inv s"
  "Inv (s\<lparr>localPort := v18\<rparr>) = Inv s"
  "Inv (s\<lparr>iceGatheringComplete := v19\<rparr>) = Inv s"
  "Inv (s\<lparr>iceGatheringCompleteTimer := v20\<rparr>) = Inv s"
  "Inv (s\<lparr>channel := v21\<rparr>) = Inv s"
  "Inv (s\<lparr>pendingCandidates := v22\<rparr>) = Inv s"
  "Inv (s\<lparr>isNegotiating := v23\<rparr>) = Inv s"
  "Inv (s\<lparr>isRestartingIce := v24\<rparr>) = Inv s"
  "Inv (s\<lparr>firstNegotiation := v25\<rparr>) = Inv s"
  "Inv (s\<lparr>batchedNegotiation := v26\<rparr>) = Inv s"
  "Inv (s\<lparr>queuedNegotiation := v27\<rparr>) = Inv s"
  "Inv (s\<lparr>sendersAwaitingStable := v28\<rparr>) = Inv s"
  "Inv (s\<lparr>closingInterval := v29\<rparr>) = Inv s"
  "Inv (s\<lparr>isClosing := v30\<rparr>) = Inv s"
  "Inv (s\<lparr>remoteTracks := v31\<rparr>) = Inv s"
  "Inv (s\<lparr>remoteStreams := v32\<rparr>) = Inv s"
  "Inv (s\<lparr>chunk := v33\<rparr>) = Inv s"
  "Inv (s\<lparr>cb := v34\<rparr>) = Inv s"
  "Inv (s\<lparr>interval := v35\<rparr>) = Inv s"
  "Inv (s\<lparr>isReactNativeWebrtc := v36\<rparr>) = Inv s"
  "Inv (s\<lparr>onFinishBound := v37\<rparr>) = Inv s"
  "Inv (s\<lparr>finishListener := v38\<rparr>) = Inv s"
  "Inv (s\<lparr>senderMap := v39\<rparr>) = Inv s"
  "Inv (s\<lparr>submaps := v40\<rparr>) = Inv s"
  "Inv (s\<lparr>nextSubmap := v41\<rparr>) = Inv s"
  "Inv (s\<lparr>senderRemoved := v42\<rparr>) = Inv s"
  "Inv (s\<lparr>senderHasReplaceTrack := v43\<rparr>) = Inv s"
  "Inv (s\<lparr>ondatachannel := v44\<rparr>) = Inv s"
  "Inv (s\<lparr>ontrack := v45\<rparr>) = Inv s"
  "Inv (s\<lparr>emitted := v46\<rparr>) = Inv s"
  "Inv (s\<lparr>microtasks := v47\<rparr>) = Inv s"
  "Inv (s\<lparr>nextTimer := v48\<rparr>) = Inv s"
  "Inv (s\<lparr>gatheringListeners := v49\<rparr>) = Inv s"
  "Inv (s\<lparr>connectListeners := v50\<rparr>) = Inv s"
  "Inv (s\<lparr>pushed := v51\<rparr>) = Inv s"
  "Inv (s\<lparr>cbCalls := v52\<rparr>) = Inv s"
  "Inv (s\<lparr>endCalled := v53\<rparr>) = Inv s"
  "Inv (s\<lparr>warnings := v54\<rparr>) = Inv s"
  by (simp_all add: Inv_def ready_def lookupPending_def)

lemma emitConnect_keeps [simp]: "keeps s0 s \<Longrightarrow> keeps s0 (emitConnect s)"
proof -
  have "keeps s0 s1 \<Longrightarrow> keeps s0 (((\<lambda>s1. snd (setTimeout DestroySoonTimer s1)) ^^ n) s1)" for n s1
    by (induction n arbitrary: s1) simp_all
  then show "keeps s0 s \<Longrightarrow> keeps s0 (emitConnect s)"
    by (simp add: emitConnect_def)
qed

lemma ready_irrelevant [simp]:
  "ready (s\<lparr>connecting := v\<rparr>) = ready s"
  "ready (s\<lparr>nextTimer := n\<rparr>) = ready s"
  by (simp_all add: ready_def)

lemma andThen_keeps_strong:
  "keeps s0 (snd m) \<Longrightarrow> (\<And>x. keeps s0 (snd (f x (snd m)))) \<Longrightarrow>
   keeps s0 (snd (andThen m f))"
  by (auto simp: andThen_def split: prod.splits res.splits)

lemma resolved_keeps:
  assumes "keeps s0 s" "Inv s0 \<Longrightarrow> ready s"
  shows "keeps s0 (snd (resolved s))"
proof -
  have k1: "keeps s0 (s\<lparr>connecting := False, connected := True\<rparr>)"
    using assms by (intro keeps_connected) simp_all
  show ?thesis
    unfolding resolved_def Let_def
    apply (rule andThen_keeps)
    subgoal using k1 by (simp add: case_prod_beta split: option.splits res.splits)
    subgoal by (simp add: case_prod_beta split: option.splits)
    done
qed

lemma retry_keeps:
  assumes "keeps s0 s" "Inv s0 \<Longrightarrow> \<not> destroying s \<Longrightarrow> ready s"
  shows "keeps s0 (snd (setTimeout FindCandidatePairTimer s))"
proof -
  have "keeps s0 (s\<lparr>timers := timers s @ [(nextTimer s, FindCandidatePairTimer)]\<rparr>)"
    using assms by (rule keeps_retry_pending)
  then show ?thesis by (simp add: setTimeout_def)
qed

lemma statsCallback_keeps:
  assumes "keeps s0 s" "Inv s0 \<Longrightarrow> \<not> destroying s \<Longrightarrow> ready s"
  shows "keeps s0 (snd (statsCallback err items s))"
proof (cases "destroyed s \<or> destroying s")
  case True
  with assms(1) show ?thesis by (simp add: statsCallback_def)
next
  case False
  have a: "keeps s0 (snd (setTimeout FindCandidatePairTimer (snd (selectPairs lc rc cp its fnd s))))"
    for lc rc cp its fnd
    using assms by (intro retry_keeps) simp_all
  have b: "keeps s0 (snd (resolved (snd (selectPairs lc rc cp its fnd s))))"
    for lc rc cp its fnd
    using assms False by (intro resolved_keeps) simp_all
  show ?thesis
    using False unfolding statsCallback_def Let_def
    apply (simp only: if_False)
    apply (rule andThen_keeps_strong)
    subgoal using assms(1) by simp
    subgoal for x by (simp add: a b)
    done
qed

lemma getStatsSettled_keeps:
  "keeps s0 s \<Longrightarrow> (Inv s0 \<Longrightarrow> \<not> destroying s \<Longrightarrow> ready s) \<Longrightarrow>
   keeps s0 (snd (getStatsSettled f r s))"
  by (simp add: getStatsSettled_def statsCallback_keeps split: settled.splits)

lemma teardown_keeps:
  assumes "keeps s0 s" "Inv s0 \<Longrightarrow> destroying s"
  shows "keeps s0 (teardown k err s)"
proof -
  have fn: "firstNegotiation (teardown k err s) = firstNegotiation s"
    by (simp add: teardown_def Let_def clearTimeout_def emit_def
          split: option.splits destroy_cb.splits)
  have inv: "Inv (teardown k err s)" if "destroying s"
    using that
    by (simp add: teardown_def Let_def clearTimeout_def emit_def Inv_def
          split: option.splits destroy_cb.splits)
  show ?thesis using assms fn inv by (auto simp: keeps_def)
qed

lemma restartWanted_keeps [simp]: "keeps s0 s \<Longrightarrow> keeps s0 (snd (restartWanted a b s))"
  by (simp add: restartWanted_def)

lemma onConnectionStateChange_keeps [simp]:
  "keeps s0 s \<Longrightarrow> keeps s0 (snd (onConnectionStateChange s))"
  by (simp add: onConnectionStateChange_def Let_def split: option.splits)

lemma onIceStateChange_keeps [simp]:
  "keeps s0 s \<Longrightarrow> keeps s0 (snd (onIceStateChange s))"
  unfolding onIceStateChange_def Let_def
  apply (simp only: split: if_split option.split)
  apply (intro conjI impI allI andThen_keeps)
  apply simp_all
  done

lemma flushSenders_keeps [simp]: "keeps s0 s \<Longrightarrow> keeps s0 (snd (flushSenders xs s))"
  by (induction xs arbitrary: s) (simp_all split: option.splits)

lemma onSignalingStateChange_keeps [simp]:
  "keeps s0 s \<Longrightarrow> keeps s0 (snd (onSignalingStateChange s))"
  unfolding onSignalingStateChange_def Let_def
  apply (simp only: split: if_split option.split)
  apply (intro conjI impI allI andThen_keeps)
  apply simp_all
  done

lemma setSubmap_keeps [simp]: "keeps s0 (setSubmap t r s) = keeps s0 s"
  by (simp add: setSubmap_def)

lemma addTrack_keeps [simp]: "keeps s0 s \<Longrightarrow> keeps s0 (snd (addTrack t st s))"
  by (simp add: addTrack_def Let_def split: option.splits sum.splits)

lemma addTracks_keeps [simp]: "keeps s0 s \<Longrightarrow> keeps s0 (snd (addTracks ts st s))"
  by (induction ts arbitrary: s) simp_all

lemma addStream_keeps [simp]: "keeps s0 s \<Longrightarrow> keeps s0 (snd (addStream ts st s))"
  by (simp add: addStream_def)

lemma keeps_pc_map [simp]: "keeps s0 s \<Longrightarrow> keeps s0 (s\<lparr>pc := map_option f (pc s)\<rparr>)"
  by (cases "pc s") (auto simp: keeps_def Inv_def ready_def lookupPending_def)

lemma replaceTrack_keeps [simp]: "keeps s0 s \<Longrightarrow> keeps s0 (snd (replaceTrack a b st s))"
  by (simp add: replaceTrack_def Let_def split: option.splits)

lemma removeTrack_keeps [simp]: "keeps s0 s \<Longrightarrow> keeps s0 (snd (removeTrack t st s))"
  by (simp add: removeTrack_def senderOf_def Let_def split: option.splits)

lemma removeTracks_keeps [simp]: "keeps s0 s \<Longrightarrow> keeps s0 (snd (removeTracks ts st s))"
  by (induction ts arbitrary: s) simp_all

lemma removeStream_keeps [simp]: "keeps s0 s \<Longrightarrow> keeps s0 (snd (removeStream ts st s))"
  by (simp add: removeStream_def)

lemma onTrackStreams_keeps [simp]: "keeps s0 s \<Longrightarrow> keeps s0 (onTrackStreams t sts s)"
  by (induction sts arbitrary: s) (simp_all add: Let_def)

lemma onTrack_keeps [simp]: "keeps s0 s \<Longrightarrow> keeps s0 (onTrack t sts s)"
  by (simp add: onTrack_def)

lemma runMicro_keeps [simp]: "keeps s0 s \<Longrightarrow> keeps s0 (snd (runMicro t s))"
  by (cases t) simp_all

lemma runMicrotask_keeps [simp]: "keeps s0 s \<Longrightarrow> keeps s0 (snd (runMicrotask s))"
  by (simp add: runMicrotask_def split: list.splits)

lemma runTask_keeps:
  assumes "keeps s0 s"
    and "Inv s0 \<Longrightarrow> isTeardown t \<Longrightarrow> destroying s"
    and "Inv s0 \<Longrightarrow> t = FindCandidatePairTimer \<Longrightarrow> \<not> destroying s \<Longrightarrow> ready s"
  shows "keeps s0 (snd (runTask t s))"
  using assms by (cases t) (simp_all add: teardown_keeps findCandidatePair_keeps)

lemma Inv_pending_teardown:
  "Inv s \<Longrightarrow> (i, t) \<in> set (timers s) \<Longrightarrow> isTeardown t \<Longrightarrow> destroying s"
  by (fastforce simp: Inv_def list_ex_iff)

lemma Inv_pending_retry:
  "Inv s \<Longrightarrow> (i, FindCandidatePairTimer) \<in> set (timers s) \<Longrightarrow> \<not> destroying s \<Longrightarrow> ready s"
  by (fastforce simp: Inv_def lookupPending_def list_ex_iff)

lemma Inv_pending_stats:
  "Inv s \<Longrightarrow> GetStatsOp f \<in> set (asyncOps s) \<Longrightarrow> \<not> destroying s \<Longrightarrow> ready s"
  by (fastforce simp: Inv_def lookupPending_def list_ex_iff)

lemma fireTimer_keeps: "keeps s (snd (fireTimer i s))"
proof (cases "map_of (timers s) i")
  case None
  then show ?thesis by (simp add: fireTimer_def)
next
  case (Some t)
  then have mem: "(i, t) \<in> set (timers s)" by (rule map_of_SomeD)
  let ?s1 = "if isInterval t then s else s\<lparr>timers := filter (\<lambda>e. fst e \<noteq> i) (timers s)\<rparr>"
  have k: "keeps s ?s1" by simp
  have d: "destroying ?s1 = destroying s" "ready ?s1 = ready s" by simp_all
  have "keeps s (snd (runTask t ?s1))"
  proof (rule runTask_keeps[OF k])
    assume "Inv s" "isTeardown t"
    then show "destroying ?s1" using Inv_pending_teardown[OF _ mem] d by simp
  next
    assume "Inv s" "t = FindCandidatePairTimer" "\<not> destroying ?s1"
    then show "ready ?s1" using Inv_pending_retry[of s i] mem d by simp
  qed
  with Some show ?thesis by (simp add: fireTimer_def)
qed

lemma settle_keeps: "keeps s (snd (settle i r s))"
proof (cases "i < length (asyncOps s)")
  case False
  then show ?thesis by (simp add: settle_def)
next
  case True
  let ?a = "asyncOps s ! i"
  let ?s1 = "s\<lparr>asyncOps := take i (asyncOps s) @ drop (Suc i) (asyncOps s)\<rparr>"
  have mem: "?a \<in> set (asyncOps s)" using True by simp
  have k: "keeps s ?s1" by simp
  have pre: "Inv s \<Longrightarrow> isGetStats ?a \<Longrightarrow> \<not> destroying ?s1 \<Longrightarrow> ready ?s1"
  proof -
    assume i: "Inv s" and g: "isGetStats ?a" and d: "\<not> destroying ?s1"
    from g obtain f where "?a = GetStatsOp f" by (cases ?a) simp_all
    with mem have "GetStatsOp f \<in> set (asyncOps s)" by simp
    from Inv_pending_stats[OF i this] d show "ready ?s1" by simp
  qed
  have "keeps s (snd m)" if m: "settleOp ?a r ?s1 = Some m" for m
  proof (cases "isGetStats ?a")
    case True
    then obtain f where a: "?a = GetStatsOp f" by (cases ?a) simp_all
    have "keeps s (snd (getStatsSettled f x ?s1))" for x
      by (rule getStatsSettled_keeps[OF k]) (use pre True in simp)
    with m a show ?thesis by (cases r) auto
  next
    case False
    with m k show ?thesis by (cases ?a; cases r) auto
  qed
  with True show ?thesis by (simp add: settle_def split: option.splits)
qed

lemma environment_keeps [simp]: "keeps s0 s \<Longrightarrow> keeps s0 (environment f g s)"
  by (simp add: environment_def)

lemma onEngine_keeps:
  "keeps s0 s \<Longrightarrow> (\<And>s1. keeps s0 s1 \<Longrightarrow> keeps s0 (snd (h s1))) \<Longrightarrow> keeps s0 (snd (onEngine f h s))"
  by (simp add: onEngine_def split: option.splits)

lemma onChannel_keeps:
  "keeps s0 s \<Longrightarrow> (\<And>s1. keeps s0 s1 \<Longrightarrow> keeps s0 (snd (h s1))) \<Longrightarrow> keeps s0 (snd (onChannel h s))"
  by (simp add: onChannel_def split: option.splits)

lemma dropRes_snd [simp]: "snd (dropRes m) = snd m"
  by (simp add: dropRes_def split: prod.splits res.splits)

lemma step_keeps: "keeps s (snd (step parse text2arr ev s))"
  by (cases ev) (simp_all add: fireTimer_keeps settle_keeps onEngine_keeps onChannel_keeps)

lemma keepsD: "keeps s s' \<Longrightarrow> Inv s \<Longrightarrow> Inv s'"
  by (simp add: keeps_def)

lemma Inv_blank_pc: "Inv ((blank op p)\<lparr>pc := Some e\<rparr>)"
  by (simp add: Inv_def blank_def lookupPending_def ready_def)

lemma Inv_blank_destroyed: "Inv (pp_destroy err (blank op p))"
  by (simp add: pp_destroy_def p_destroy_def setTimeout_def Inv_def blank_def ready_def)

lemma lite_constructor_Inv:
  assumes "lite_constructor op p = Inr s" shows "Inv s"
proof (cases "newPeerConnection p")
  case (Inl x)
  with assms show ?thesis
    by (auto simp: lite_constructor_def Inv_blank_destroyed split: if_splits)
next
  case (Inr e)
  define s1 where "s1 = (blank op p)\<lparr>pc := Some e, isReactNativeWebrtc := peerConnectionIdIsNumber p\<rparr>"
  define s2 where "s2 = (if pc_hasPeerIdentity e then s1\<lparr>asyncOps := asyncOps s1 @ [PeerIdentityOp]\<rparr> else s1)"
  have i2: "Inv s2"
    unfolding s2_def s1_def by (simp add: Inv_def blank_def lookupPending_def ready_def)
  have "s = (needsNegotiation
               (if initiator s2 \<or> channelNegotiated s2 then
                  setupData (createDataChannel p) (s2\<lparr>pc := Some (logCall CallCreateDataChannel e)\<rparr>)
                else s2\<lparr>ondatachannel := True\<rparr>))\<lparr>onFinishBound := True, finishListener := True\<rparr>"
  proof -
    have ws: "webrtcSupport p"
      using assms by (auto simp: lite_constructor_def split: if_splits)
    show ?thesis
      using assms Inr ws unfolding lite_constructor_def Let_def s2_def s1_def
      by auto
  qed
  then have "keeps s2 s" by simp
  then show ?thesis using i2 by (rule keepsD)
qed

lemma addStreams_keeps [simp]: "keeps s0 s \<Longrightarrow> keeps s0 (snd (addStreams xs s))"
  by (induction xs arbitrary: s) auto

lemma constructor_Inv:
  assumes "constructor op p = Inr s" shows "Inv s"
proof -
  from assms obtain s1 where l: "lite_constructor op p = Inr s1"
    by (auto simp: constructor_def split: sum.splits)
  then have i: "Inv s1" by (rule lite_constructor_Inv)
  show ?thesis
  proof (cases "pc s1 = None")
    case True
    with assms l i show ?thesis by (simp add: constructor_def)
  next
    case False
    have "keeps s1 (snd (addStreams (o_streams op) (s1\<lparr>senderMap := Some Map.empty\<rparr>)))"
      by simp
    then have "Inv (snd (addStreams (o_streams op) (s1\<lparr>senderMap := Some Map.empty\<rparr>)))"
      using i by (rule keepsD)
    with assms l False show ?thesis
      by (auto simp: constructor_def split: prod.splits res.splits)
  qed
qed

lemma reachable_Inv: "reachable s \<Longrightarrow> Inv s"
proof (induction rule: reachable.induct)
  case (reachable_init op p s)
  then show ?case by (rule constructor_Inv)
next
  case (reachable_step s parse text2arr ev)
  show ?case by (rule keepsD[OF step_keeps reachable_step.IH])
qed

lemma reachable_pc: "reachable s \<Longrightarrow> \<not> destroying s \<Longrightarrow> pc s \<noteq> None"
  using reachable_Inv[of s] by (simp add: Inv_def)

lemma reachable_destroyed: "reachable s \<Longrightarrow> destroyed s \<Longrightarrow> destroying s"
  using reachable_Inv[of s] by (auto simp: Inv_def)

lemma firstNegotiation_step:
  "\<not> firstNegotiation s \<Longrightarrow> \<not> firstNegotiation (snd (step parse text2arr ev s))"
  using step_keeps[of s parse text2arr ev] by (simp add: keeps_def)

section \<open>Evaluating concrete runs\<close>

lemmas example_defs = example_opts_def example_platform_def example_engine_def
  example_channel_def example_pair_def constructor_def lite_constructor_def blank_def

lemmas prim_defs = setupData_def needsNegotiation_def setTimeout_def clearTimeout_def
  queueMicrotask_def logCall_def ok_def MAX_BUFFERED_AMOUNT_def Let_def emit_def andThen_def
  callCb_def push_def p_destroy_def pp_destroy_def

lemmas handler_defs = onEngine_def onChannel_def environment_def runMicrotask_def
  fireTimer_def settle_def negotiationBatch_def negotiate_def restartIce_def
  startIceFailureRecoveryTimeout_def iceFailureRecoveryTimeout_def
  onIceStateChange_def onIceGatheringComplete_def maybeReady_def findCandidatePair_def
  getStats_def restartWanted_def onChannelOpen_def getStatsSettled_def statsCallback_def
  resolved_def emitConnect_def isCandidatePair_def isLocalCandidate_def isRemoteCandidate_def
  byId_def setSelectedCandidatePair_def keyOf_def truthyStr_def send_def p_write_def
  onSignalingStateChange_def onConnectionStateChange_def onChannelMessage_def

lemma reachable_run: "reachable s \<Longrightarrow> reachable (run parse text2arr evs s)"
proof (induction evs arbitrary: s)
  case Nil
  then show ?case by (simp add: run_def)
next
  case (Cons ev evs)
  have "reachable (snd (step parse text2arr ev s))" using Cons.prems by (rule reachable_step)
  from Cons.IH[OF this] show ?case by (simp add: run_def)
qed

lemma example_peer_constructed:
  "constructor (example_opts i) example_platform = Inr (example_peer i)"
  by (simp add: example_peer_def example_defs prim_defs)

lemma example_peer_reachable: "reachable (example_peer i)"
  using example_peer_constructed by (rule reachable_init)

lemma example_connected_reachable: "reachable example_connected"
  unfolding example_connected_def by (rule reachable_run[OF example_peer_reachable])

lemma example_connected_flag: "connected example_connected"
  by (simp add: example_connected_def run_def example_peer_def example_defs prim_defs handler_defs)

lemma example_closing_channel:
  "connected example_closing \<and> \<not> destroying example_closing \<and>
   (\<exists>ch. channel example_closing = Some ch \<and> readyState ch = RsClosing)"
  by (simp add: example_closing_def example_connected_def run_def example_peer_def example_defs
        prim_defs handler_defs)

section \<open>Connectivity\<close>

text \<open>
  Claim C4. In every reachable state of the peer (the constructor's result, followed by
  any sequence of calls, callbacks, settled promises and engine or channel events, in any
  order), the internal connected flag is set only if both the engine-ready flag
  \<^verbatim>\<open>_pcReady\<close> and the channel-ready flag \<^verbatim>\<open>_channelReady\<close> are set.
\<close>

theorem connected_needs_both_ready:
  "reachable s \<Longrightarrow> connected s \<longrightarrow> pcReady s \<and> channelReady s"
  using reachable_Inv[of s] by (simp add: Inv_def ready_def)

theorem connected_needs_both_ready_witness:
  "reachable example_connected \<and> connected example_connected \<and>
   pcReady example_connected \<and> channelReady example_connected"
  using connected_needs_both_ready[OF example_connected_reachable]
    example_connected_reachable example_connected_flag by simp

text \<open>
  Claim C10. The public getter \<^verbatim>\<open>connected\<close> returns true exactly when the internal
  connected flag is set and the channel's \<^verbatim>\<open>readyState\<close> is \<^verbatim>\<open>'open'\<close>; with a channel
  in any other ready state (closing, for one) it returns false, also on a peer that has
  connected and is not being destroyed.
\<close>

theorem connected_getter_open:
  "(connected_getter s = Return True \<longleftrightarrow>
      connected s \<and> (\<exists>ch. channel s = Some ch \<and> readyState ch = RsOpen)) \<and>
   (\<forall>ch. channel s = Some ch \<and> readyState ch \<noteq> RsOpen \<longrightarrow> connected_getter s = Return False)"
  by (auto simp: connected_getter_def split: option.splits)

theorem connected_getter_open_witness:
  "connected example_closing \<and> \<not> destroying example_closing \<and>
   connected_getter example_closing = Return False \<and>
   connected_getter example_connected = Return True"
proof -
  from example_closing_channel obtain ch where
    c: "channel example_closing = Some ch" "readyState ch = RsClosing" by blast
  have "connected_getter example_closing = Return False"
    using connected_getter_open[of example_closing] c by simp
  moreover have "connected_getter example_connected = Return True"
    by (simp add: connected_getter_def example_connected_def run_def example_peer_def
          example_defs prim_defs handler_defs)
  ultimately show ?thesis using example_closing_channel by simp
qed

section \<open>Batched negotiation\<close>

lemma needsNegotiation_idem:
  "batchedNegotiation s \<Longrightarrow> needsNegotiation s = s"
  by (simp add: needsNegotiation_def)

lemma needsNegotiation_funpow:
  "\<not> batchedNegotiation s \<Longrightarrow> 0 < n \<Longrightarrow> (needsNegotiation ^^ n) s = needsNegotiation s"
proof (induction n)
  case 0
  then show ?case by simp
next
  case (Suc n)
  have unfold: "(needsNegotiation ^^ Suc n) s = needsNegotiation ((needsNegotiation ^^ n) s)"
    by simp
  show ?case
  proof (cases "n = 0")
    case True
    then show ?thesis by simp
  next
    case False
    with Suc have ih: "(needsNegotiation ^^ n) s = needsNegotiation s" by simp
    have "batchedNegotiation (needsNegotiation s)"
      by (simp add: needsNegotiation_def queueMicrotask_def)
    then show ?thesis unfolding unfold ih by (rule needsNegotiation_idem)
  qed
qed

lemma restore_tick:
  assumes "\<not> batchedNegotiation s" "microtasks s = []"
  shows "s\<lparr>batchedNegotiation := True, microtasks := [], batchedNegotiation := False\<rparr> = s"
proof -
  have "s\<lparr>batchedNegotiation := batchedNegotiation s, microtasks := microtasks s\<rparr> = s" by simp
  then show ?thesis using assms by (simp del: peer.update_convs)
qed

lemma negotiate_queue:
  "microtasks (snd (negotiate s)) = microtasks s \<and>
   batchedNegotiation (snd (negotiate s)) = batchedNegotiation s"
  by (simp add: negotiate_def setTimeout_def emit_def Let_def)

lemma batch_run:
  assumes "\<not> batchedNegotiation s" "microtasks s = []"
  shows "runMicrotask (needsNegotiation s) =
     (if initiator s \<or> \<not> firstNegotiation s
      then andThen (negotiate s) (\<lambda>_ s1. ok (s1\<lparr>firstNegotiation := False\<rparr>))
      else ok (s\<lparr>firstNegotiation := False\<rparr>))"
proof -
  have q: "needsNegotiation s = s\<lparr>batchedNegotiation := True, microtasks := [NegotiationBatch]\<rparr>"
    using assms by (simp add: needsNegotiation_def queueMicrotask_def)
  have r: "runMicrotask (s\<lparr>batchedNegotiation := True, microtasks := [NegotiationBatch]\<rparr>) =
           negotiationBatch (s\<lparr>batchedNegotiation := True, microtasks := []\<rparr>)"
    by (simp add: runMicrotask_def)
  have n: "negotiationBatch (s\<lparr>batchedNegotiation := True, microtasks := []\<rparr>) =
     (if initiator s \<or> \<not> firstNegotiation s
      then andThen (negotiate (s\<lparr>batchedNegotiation := True, microtasks := [], batchedNegotiation := False\<rparr>)) (\<lambda>_ s1. ok (s1\<lparr>firstNegotiation := False\<rparr>))
      else ok (s\<lparr>batchedNegotiation := True, microtasks := [], batchedNegotiation := False\<rparr>\<lparr>firstNegotiation := False\<rparr>))"
    by (simp add: negotiationBatch_def Let_def del: peer.update_convs)
  show ?thesis unfolding q r n restore_tick[OF assms] ..
qed

lemma batch_run_queue:
  assumes "\<not> batchedNegotiation s" "microtasks s = []"
  shows "microtasks (snd (runMicrotask (needsNegotiation s))) = [] \<and>
         \<not> batchedNegotiation (snd (runMicrotask (needsNegotiation s)))"
proof -
  have a: "microtasks (snd (andThen (negotiate s) (\<lambda>_ s1. ok (s1\<lparr>firstNegotiation := False\<rparr>)))) = []"
    using assms negotiate_queue[of s]
    by (cases "negotiate s") (simp add: andThen_def ok_def split: res.splits)
  have b: "\<not> batchedNegotiation (snd (andThen (negotiate s) (\<lambda>_ s1. ok (s1\<lparr>firstNegotiation := False\<rparr>))))"
    using assms negotiate_queue[of s]
    by (cases "negotiate s") (simp add: andThen_def ok_def split: res.splits)
  show ?thesis unfolding batch_run[OF assms] using a b assms by (simp add: ok_def)
qed

text \<open>
  Claim C1. Let no batch be pending in \<open>s\<close>. Any number \<open>n \<ge> 1\<close> of calls of
  \<^verbatim>\<open>_needsNegotiation\<close> in a row sets the batching flag and queues one microtask, at the
  first call; every further call returns at once, changing nothing. When that microtask
  runs next (nothing else was queued before it), \<^verbatim>\<open>negotiate()\<close> runs exactly once, on the
  state the tick started from, unless the request is the first one of a responder, which
  is discarded; afterwards no batch is pending and no microtask is left.
\<close>

theorem needsNegotiation_one_round:
  assumes "\<not> batchedNegotiation s" and "0 < n"
  shows "(needsNegotiation ^^ n) s =
           s\<lparr>batchedNegotiation := True, microtasks := microtasks s @ [NegotiationBatch]\<rparr> \<and>
         needsNegotiation ((needsNegotiation ^^ n) s) = (needsNegotiation ^^ n) s \<and>
         (microtasks s = [] \<longrightarrow>
            runMicrotask ((needsNegotiation ^^ n) s) =
              (if initiator s \<or> \<not> firstNegotiation s
               then andThen (negotiate s) (\<lambda>_ s1. ok (s1\<lparr>firstNegotiation := False\<rparr>))
               else ok (s\<lparr>firstNegotiation := False\<rparr>)) \<and>
            microtasks (snd (runMicrotask ((needsNegotiation ^^ n) s))) = [] \<and>
            \<not> batchedNegotiation (snd (runMicrotask ((needsNegotiation ^^ n) s))))"
proof -
  have f: "(needsNegotiation ^^ n) s = needsNegotiation s"
    using assms by (rule needsNegotiation_funpow)
  have q: "needsNegotiation s =
             s\<lparr>batchedNegotiation := True, microtasks := microtasks s @ [NegotiationBatch]\<rparr>"
    using assms(1) by (simp add: needsNegotiation_def queueMicrotask_def)
  have i: "needsNegotiation (needsNegotiation s) = needsNegotiation s"
    by (rule needsNegotiation_idem) (simp add: q)
  show ?thesis
    unfolding f using q i batch_run[OF assms(1)] batch_run_queue[OF assms(1)] by simp
qed

lemma example_idle_state:
  "\<not> batchedNegotiation example_idle \<and> microtasks example_idle = [] \<and> initiator example_idle \<and>
   \<not> isNegotiating example_idle \<and> \<not> destroying example_idle \<and> \<not> destroyed example_idle \<and>
   timers example_idle = [(1, ClosingInterval), (2, CreateOfferTimer)] \<and>
   nextTimer example_idle = 3"
  by (simp add: example_idle_def run_def example_peer_def example_defs prim_defs handler_defs)

theorem needsNegotiation_one_round_witness:
  "\<not> batchedNegotiation example_idle \<and> microtasks example_idle = [] \<and>
   \<not> destroyed example_idle \<and>
   microtasks ((needsNegotiation ^^ 3) example_idle) = [NegotiationBatch] \<and>
   timers (snd (runMicrotask ((needsNegotiation ^^ 3) example_idle)))
     = timers example_idle @ [(3, CreateOfferTimer)] \<and>
   microtasks (snd (runMicrotask ((needsNegotiation ^^ 3) example_idle))) = []"
proof -
  have n: "negotiate example_idle =
     (Return (), example_idle\<lparr>timers := timers example_idle @ [(3, CreateOfferTimer)],
        nextTimer := 4, isNegotiating := True\<rparr>)"
    using example_idle_state by (simp add: negotiate_def setTimeout_def Let_def)
  have h: "\<not> batchedNegotiation example_idle" "0 < (3::nat)" "microtasks example_idle = []"
    using example_idle_state by simp_all
  note t = needsNegotiation_one_round[OF h(1,2)]
  have q: "microtasks ((needsNegotiation ^^ 3) example_idle) = [NegotiationBatch]"
    using t h(3) by (simp add: conjunct1)
  have r: "runMicrotask ((needsNegotiation ^^ 3) example_idle) =
             andThen (negotiate example_idle) (\<lambda>_ s1. ok (s1\<lparr>firstNegotiation := False\<rparr>))"
  proof -
    from t h(3) have "runMicrotask ((needsNegotiation ^^ 3) example_idle) =
       (if initiator example_idle \<or> \<not> firstNegotiation example_idle
        then andThen (negotiate example_idle) (\<lambda>_ s1. ok (s1\<lparr>firstNegotiation := False\<rparr>))
        else ok (example_idle\<lparr>firstNegotiation := False\<rparr>))" by blast
    then show ?thesis using example_idle_state by simp
  qed
  have e: "microtasks (snd (runMicrotask ((needsNegotiation ^^ 3) example_idle))) = []"
    using t h(3) by blast
  have "timers (snd (runMicrotask ((needsNegotiation ^^ 3) example_idle)))
          = timers example_idle @ [(3, CreateOfferTimer)]"
    unfolding r n by (simp add: andThen_def ok_def)
  then show ?thesis using q e example_idle_state by simp
qed

lemma andThen_pred:
  assumes "P (snd m)" and "\<And>x s1. P s1 \<Longrightarrow> P (snd (g x s1))"
  shows "P (snd (andThen m g))"
  using assms by (cases m) (simp add: andThen_def split: res.splits)

lemma addTrack_firstBatch:
  "firstBatchPending s \<Longrightarrow> initiator s = i \<Longrightarrow>
   firstBatchPending (snd (addTrack track stream s)) \<and>
   initiator (snd (addTrack track stream s)) = i"
  by (simp add: addTrack_def firstBatchPending_def needsNegotiation_def setSubmap_def ok_def
        logCall_def Let_def split: option.splits sum.splits)

lemma addTracks_firstBatch:
  "firstBatchPending s \<Longrightarrow> initiator s = i \<Longrightarrow>
   firstBatchPending (snd (addTracks ts stream s)) \<and> initiator (snd (addTracks ts stream s)) = i"
proof (induction ts arbitrary: s)
  case Nil
  then show ?case by (simp add: ok_def)
next
  case (Cons t ts)
  show ?case
    unfolding addTracks.simps
    by (rule andThen_pred) (use Cons addTrack_firstBatch in auto)
qed

lemma addStream_firstBatch:
  "firstBatchPending s \<Longrightarrow> initiator s = i \<Longrightarrow>
   firstBatchPending (snd (addStream ts stream s)) \<and> initiator (snd (addStream ts stream s)) = i"
  using addTracks_firstBatch[of s i ts stream] by (simp add: addStream_def)

lemma addStreams_firstBatch:
  "firstBatchPending s \<Longrightarrow> initiator s = i \<Longrightarrow>
   firstBatchPending (snd (addStreams xs s)) \<and> initiator (snd (addStreams xs s)) = i"
proof (induction xs arbitrary: s)
  case Nil
  then show ?case by (simp add: ok_def)
next
  case (Cons x xs)
  obtain stream tracks where x: "x = (stream, tracks)" by (cases x)
  show ?case
    unfolding x addStreams.simps
    by (rule andThen_pred) (use Cons addStream_firstBatch in auto)
qed

lemma pp_destroy_firstBatch:
  "pc (pp_destroy err s) = pc s \<and> microtasks (pp_destroy err s) = microtasks s \<and>
   batchedNegotiation (pp_destroy err s) = batchedNegotiation s \<and>
   firstNegotiation (pp_destroy err s) = firstNegotiation s \<and>
   initiator (pp_destroy err s) = initiator s"
  by (simp add: pp_destroy_def p_destroy_def setTimeout_def Let_def)

lemma setupData_firstBatch:
  "microtasks (setupData c s) = microtasks s \<and>
   batchedNegotiation (setupData c s) = batchedNegotiation s \<and>
   firstNegotiation (setupData c s) = firstNegotiation s \<and>
   initiator (setupData c s) = initiator s"
  by (cases c) (simp_all add: setupData_def pp_destroy_firstBatch setTimeout_def Let_def)

lemma lite_constructor_firstBatch:
  assumes "lite_constructor op p = Inr s" and "pc s \<noteq> None"
  shows "firstBatchPending s \<and> initiator s = o_initiator op"
proof (cases "newPeerConnection p")
  case (Inl x)
  have "pc (blank op p) = None" by (simp add: blank_def)
  with assms Inl show ?thesis
    by (auto simp: lite_constructor_def pp_destroy_firstBatch split: if_splits)
next
  case (Inr e)
  define s1 where "s1 = (blank op p)\<lparr>pc := Some e, isReactNativeWebrtc := peerConnectionIdIsNumber p\<rparr>"
  define s2 where "s2 = (if pc_hasPeerIdentity e then s1\<lparr>asyncOps := asyncOps s1 @ [PeerIdentityOp]\<rparr> else s1)"
  define s3 where "s3 = (if initiator s2 \<or> channelNegotiated s2 then
                  setupData (createDataChannel p) (s2\<lparr>pc := Some (logCall CallCreateDataChannel e)\<rparr>)
                else s2\<lparr>ondatachannel := True\<rparr>)"
  have b: "microtasks s2 = [] \<and> \<not> batchedNegotiation s2 \<and> firstNegotiation s2 \<and>
           initiator s2 = o_initiator op"
    unfolding s2_def s1_def by (simp add: blank_def)
  then have c: "microtasks s3 = [] \<and> \<not> batchedNegotiation s3 \<and> firstNegotiation s3 \<and>
           initiator s3 = o_initiator op"
    unfolding s3_def by (simp add: setupData_firstBatch)
  have "s = (needsNegotiation s3)\<lparr>onFinishBound := True, finishListener := True\<rparr>"
  proof -
    have ws: "webrtcSupport p"
      using assms by (auto simp: lite_constructor_def split: if_splits)
    show ?thesis
      using assms Inr ws unfolding lite_constructor_def Let_def s3_def s2_def s1_def
      by auto
  qed
  then show ?thesis using c
    by (simp add: firstBatchPending_def needsNegotiation_def queueMicrotask_def)
qed

lemma constructor_firstBatch:
  assumes "constructor op p = Inr s" and "pc s \<noteq> None"
  shows "firstBatchPending s \<and> initiator s = o_initiator op"
proof -
  from assms(1) obtain s0 where l: "lite_constructor op p = Inr s0"
    by (auto simp: constructor_def split: sum.splits)
  show ?thesis
  proof (cases "pc s0 = None")
    case True
    with assms l show ?thesis by (simp add: constructor_def)
  next
    case False
    from lite_constructor_firstBatch[OF l False]
    have a: "firstBatchPending (s0\<lparr>senderMap := Some Map.empty\<rparr>)"
            "initiator (s0\<lparr>senderMap := Some Map.empty\<rparr>) = o_initiator op"
      by (simp_all add: firstBatchPending_def)
    note b = addStreams_firstBatch[OF a, of "o_streams op"]
    from assms(1) l False obtain u s1 where
      r: "addStreams (o_streams op) (s0\<lparr>senderMap := Some Map.empty\<rparr>) = (Return u, s1)"
         "s = s1\<lparr>ontrack := True\<rparr>"
      by (auto simp: constructor_def split: prod.splits res.splits)
    from b r show ?thesis by (simp add: firstBatchPending_def)
  qed
qed

lemma firstNegotiation_run:
  "\<not> firstNegotiation s \<Longrightarrow> \<not> firstNegotiation (run parse text2arr evs s)"
proof (induction evs arbitrary: s)
  case Nil
  then show ?case by (simp add: run_def)
next
  case (Cons ev evs)
  from Cons.IH[OF firstNegotiation_step[OF Cons.prems]] show ?case by (simp add: run_def)
qed

text \<open>
  Claim C2. A peer constructed as a responder, its engine created, has exactly one
  microtask queued: its first batched negotiation request. Running it discards the
  request: \<^verbatim>\<open>negotiate()\<close> is not invoked, nothing is emitted, and the only changes are
  the batching flag and the first-negotiation flag, both cleared. After that, whatever
  happens to the peer, the first-negotiation flag stays cleared, so every later batch
  invokes \<^verbatim>\<open>negotiate()\<close>.
\<close>

theorem responder_first_request_discarded:
  assumes "constructor op p = Inr s" and "\<not> o_initiator op" and "pc s \<noteq> None"
  shows "microtasks s = [NegotiationBatch] \<and>
         runMicrotask s =
           (Return (), s\<lparr>microtasks := [], batchedNegotiation := False, firstNegotiation := False\<rparr>) \<and>
         (\<forall>evs. \<not> firstNegotiation (run parse text2arr evs (snd (runMicrotask s))) \<and>
                negotiationBatch (run parse text2arr evs (snd (runMicrotask s))) =
                  andThen (negotiate ((run parse text2arr evs (snd (runMicrotask s)))
                                        \<lparr>batchedNegotiation := False\<rparr>))
                    (\<lambda>_ s1. ok (s1\<lparr>firstNegotiation := False\<rparr>)))"
proof -
  from constructor_firstBatch[OF assms(1,3)] assms(2)
  have f: "batchedNegotiation s" "firstNegotiation s" "microtasks s = [NegotiationBatch]"
          "\<not> initiator s"
    by (simp_all add: firstBatchPending_def)
  have r: "runMicrotask s =
      (Return (), s\<lparr>microtasks := [], batchedNegotiation := False, firstNegotiation := False\<rparr>)"
    using f by (simp add: runMicrotask_def negotiationBatch_def Let_def ok_def)
  have c: "\<not> firstNegotiation (snd (runMicrotask s))" by (simp add: r)
  have "\<not> firstNegotiation (run parse text2arr evs (snd (runMicrotask s)))" for evs
    using c by (rule firstNegotiation_run)
  then show ?thesis using f(3) r by (simp add: negotiationBatch_def Let_def)
qed

lemma example_responder_pc: "pc (example_peer False) \<noteq> None"
  by (simp add: example_peer_def example_defs prim_defs)

theorem responder_first_request_discarded_witness:
  "constructor (example_opts False) example_platform = Inr (example_peer False) \<and>
   \<not> o_initiator (example_opts False) \<and> pc (example_peer False) \<noteq> None \<and>
   emitted (snd (runMicrotask (example_peer False))) = emitted (example_peer False) \<and>
   timers (snd (runMicrotask (example_peer False))) = timers (example_peer False) \<and>
   \<not> isNegotiating (snd (runMicrotask (example_peer False))) \<and>
   emitted (snd (runMicrotask (needsNegotiation (snd (runMicrotask (example_peer False))))))
     = emitted (example_peer False) @ [EvSignal SigRenegotiate] \<and>
   isNegotiating (snd (runMicrotask (needsNegotiation (snd (runMicrotask (example_peer False))))))"
proof -
  note t = responder_first_request_discarded[OF example_peer_constructed _ example_responder_pc,
             of "\<lambda>_. ParseThrows" "\<lambda>_. []"]
  have o: "\<not> o_initiator (example_opts False)" by (simp add: example_opts_def)
  from t[OF o] have r: "runMicrotask (example_peer False) =
      (Return (), (example_peer False)\<lparr>microtasks := [], batchedNegotiation := False,
                     firstNegotiation := False\<rparr>)" by blast
  have i: "\<not> isNegotiating (example_peer False) \<and> \<not> destroying (example_peer False) \<and>
           \<not> destroyed (example_peer False) \<and> \<not> initiator (example_peer False)"
    by (simp add: example_peer_def example_defs prim_defs)
  define s1 where "s1 = (example_peer False)\<lparr>microtasks := [], batchedNegotiation := False,
                     firstNegotiation := False\<rparr>"
  have s1: "snd (runMicrotask (example_peer False)) = s1" by (simp add: r s1_def)
  have n: "runMicrotask (needsNegotiation s1) =
             (Return (), s1\<lparr>emitted := emitted s1 @ [EvSignal SigRenegotiate],
                            isNegotiating := True\<rparr>)"
    using i
    by (simp add: s1_def needsNegotiation_def queueMicrotask_def runMicrotask_def
          negotiationBatch_def negotiate_def emit_def Let_def andThen_def ok_def)
  show ?thesis
    unfolding s1 n using example_peer_constructed[of False] o example_responder_pc i
    by (simp add: s1_def)
qed

section \<open>Incoming channel messages\<close>

lemma example_object_reachable: "reachable example_object"
proof -
  have "constructor ((example_opts True)\<lparr>o_objectMode := True\<rparr>) example_platform
          = Inr example_object"
    by (simp add: example_object_def example_defs prim_defs)
  then show ?thesis by (rule reachable_init)
qed

lemma example_object_flags: "objectMode example_object \<and> \<not> destroyed example_object"
  by (simp add: example_object_def example_defs prim_defs)

text \<open>
  Claim C7, as stated, fails in object mode for binary frames: on a reachable peer
  constructed with \<^verbatim>\<open>objectMode: true\<close> and not destroyed, a binary frame holding the
  bytes 1, 2, 3 is pushed as a \<^verbatim>\<open>Uint8Array\<close> over them, which is not the frame's
  \<^verbatim>\<open>ArrayBuffer\<close> as it arrived: the \<^verbatim>\<open>instanceof ArrayBuffer\<close> test comes before the
  test of the mode.
\<close>

theorem object_mode_binary_is_wrapped:
  "reachable example_object \<and> objectMode example_object \<and> \<not> destroyed example_object \<and>
   pushed (onChannelMessage (\<lambda>_. []) (ArrayBufferFrame [1, 2, 3]) example_object)
     = pushed example_object @ [PUint8Array [1, 2, 3]] \<and>
   pushed (onChannelMessage (\<lambda>_. []) (ArrayBufferFrame [1, 2, 3]) example_object)
     \<noteq> pushed example_object @ [asIs (ArrayBufferFrame [1, 2, 3])]"
  using example_object_reachable example_object_flags
  by (simp add: onChannelMessage_def push_def asIs_def)

text \<open>
  Claim C7, amended. For every incoming channel message on a peer that is not destroyed,
  exactly one payload is pushed to the readable side and nothing else changes. With object
  mode off the payload is the raw byte form of the message (the byte view of a binary
  frame, the bytes of a text frame). With object mode on a text frame is delivered as it
  is, and a binary frame is still delivered as the byte view of its buffer.
\<close>

theorem channel_message_payload:
  "\<not> destroyed s \<Longrightarrow>
   onChannelMessage text2arr d s =
     s\<lparr>pushed := pushed s @
          [if objectMode s
           then (case d of TextFrame t \<Rightarrow> asIs d | ArrayBufferFrame b \<Rightarrow> PUint8Array b)
           else rawBytes text2arr d]\<rparr>"
  by (cases d) (simp_all add: onChannelMessage_def push_def asIs_def rawBytes_def)

theorem channel_message_payload_witness:
  "\<not> destroyed example_object \<and>
   onChannelMessage (\<lambda>_. []) (TextFrame ''hi'') example_object
     = example_object\<lparr>pushed := pushed example_object @ [PString ''hi'']\<rparr> \<and>
   \<not> destroyed (example_peer True) \<and>
   onChannelMessage (\<lambda>t. map of_char t) (TextFrame ''hi'') (example_peer True)
     = (example_peer True)\<lparr>pushed := pushed (example_peer True) @ [PUint8Array [104, 105]]\<rparr>"
proof -
  have a: "\<not> destroyed (example_peer True) \<and> \<not> objectMode (example_peer True)"
    by (simp add: example_peer_def example_defs prim_defs)
  show ?thesis
    using channel_message_payload[of example_object "\<lambda>_. []" "TextFrame ''hi''"]
      channel_message_payload[of "example_peer True" "\<lambda>t. map of_char t" "TextFrame ''hi''"]
      example_object_flags a
    by (simp add: asIs_def rawBytes_def)
qed

section \<open>ICE restart\<close>

lemma restartIce_refused:
  "destroyed s \<or> destroying s \<or> \<not> initiator s \<or> isRestartingIce s \<Longrightarrow>
   restartIce s = (Return False, s)"
  by (auto simp: restartIce_def)

lemma clearTimeout_fields:
  "pc (clearTimeout h s) = pc s \<and> batchedNegotiation (clearTimeout h s) = batchedNegotiation s \<and>
   microtasks (clearTimeout h s) = microtasks s \<and>
   iceGatheringCompleteTimer (clearTimeout h s) = iceGatheringCompleteTimer s \<and>
   iceFailureRecoveryTimer (clearTimeout h s) = iceFailureRecoveryTimer s \<and>
   destroyed (clearTimeout h s) = destroyed s \<and> destroying (clearTimeout h s) = destroying s"
  by (cases h) (simp_all add: clearTimeout_def)

lemma clearTimeout_gone:
  "(i, t) \<notin> set (timers (clearTimeout (Some i) s))"
  by (simp add: clearTimeout_def)

lemma clearTimeout_subset:
  "set (timers (clearTimeout h s)) \<subseteq> set (timers s)"
  by (cases h) (auto simp: clearTimeout_def)

lemma startIceFailureRecoveryTimeout_fields:
  "pc (startIceFailureRecoveryTimeout s) = pc s \<and>
   batchedNegotiation (startIceFailureRecoveryTimeout s) = batchedNegotiation s \<and>
   microtasks (startIceFailureRecoveryTimeout s) = microtasks s"
  by (simp add: startIceFailureRecoveryTimeout_def clearTimeout_fields setTimeout_def Let_def)

lemma startIceFailureRecoveryTimeout_gathering:
  assumes "\<not> destroyed s" "\<not> destroying s" "iceFailureRecoveryTimer s = None"
    "(i, IceCompleteTimer) \<notin> set (timers s) \<or> iceGatheringCompleteTimer s = Some i"
  shows "iceGatheringCompleteTimer (startIceFailureRecoveryTimeout s) = None \<and>
         (i, IceCompleteTimer) \<notin> set (timers (startIceFailureRecoveryTimeout s))"
proof -
  have "(i, IceCompleteTimer) \<notin> set (timers (clearTimeout (iceGatheringCompleteTimer s)
           (s\<lparr>iceGatheringComplete := False\<rparr>)))"
    using assms(4) clearTimeout_subset[of "iceGatheringCompleteTimer s" "s\<lparr>iceGatheringComplete := False\<rparr>"]
      clearTimeout_gone[of i IceCompleteTimer "s\<lparr>iceGatheringComplete := False\<rparr>"]
    by auto
  then show ?thesis
    using assms(1-3) by (simp add: startIceFailureRecoveryTimeout_def setTimeout_def Let_def)
qed

lemma needsNegotiation_fields:
  "batchedNegotiation (needsNegotiation s) \<and>
   microtasks (needsNegotiation s)
     = (if batchedNegotiation s then microtasks s else microtasks s @ [NegotiationBatch]) \<and>
   pc (needsNegotiation s) = pc s \<and> timers (needsNegotiation s) = timers s \<and>
   iceGatheringComplete (needsNegotiation s) = iceGatheringComplete s \<and>
   iceGatheringCompleteTimer (needsNegotiation s) = iceGatheringCompleteTimer s \<and>
   isNegotiating (needsNegotiation s) = isNegotiating s \<and>
   isRestartingIce (needsNegotiation s) = isRestartingIce s"
  by (simp add: needsNegotiation_def queueMicrotask_def)

lemma restartIce_started:
  assumes g: "\<not> destroyed s" "\<not> destroying s" "initiator s" "\<not> isRestartingIce s"
    and e: "pc s = Some e"
  shows "fst (restartIce s) = Return True \<and>
         \<not> iceGatheringComplete (snd (restartIce s)) \<and>
         iceGatheringCompleteTimer (snd (restartIce s)) = None \<and>
         (\<forall>i. iceGatheringCompleteTimer s = Some i \<longrightarrow>
                (i, IceCompleteTimer) \<notin> set (timers (snd (restartIce s)))) \<and>
         \<not> isNegotiating (snd (restartIce s)) \<and> isRestartingIce (snd (restartIce s)) \<and>
         pc (snd (restartIce s)) =
           Some (if hasRestartIce e then e\<lparr>pc_calls := pc_calls e @ [CallRestartIce]\<rparr> else e) \<and>
         batchedNegotiation (snd (restartIce s)) \<and>
         microtasks (snd (restartIce s)) =
           (if batchedNegotiation s then microtasks s else microtasks s @ [NegotiationBatch])"
proof -
  define s1 where "s1 = (if iceFailureRecoveryTimer s \<noteq> None then
                    startIceFailureRecoveryTimeout
                      ((clearTimeout (iceFailureRecoveryTimer s) s)\<lparr>iceFailureRecoveryTimer := None\<rparr>)
                  else s)"
  define s2 where "s2 = (clearTimeout (iceGatheringCompleteTimer s1) (s1\<lparr>iceGatheringComplete := False\<rparr>))
                   \<lparr>iceGatheringCompleteTimer := None, isNegotiating := False,
                    isRestartingIce := True\<rparr>"
  have p1: "pc s1 = Some e \<and> batchedNegotiation s1 = batchedNegotiation s \<and>
            microtasks s1 = microtasks s"
    unfolding s1_def using e
    by (simp add: startIceFailureRecoveryTimeout_fields clearTimeout_fields)
  have p2: "pc s2 = Some e \<and> batchedNegotiation s2 = batchedNegotiation s \<and>
            microtasks s2 = microtasks s"
    unfolding s2_def using p1 by (simp add: clearTimeout_fields)
  have t1: "(i, IceCompleteTimer) \<notin> set (timers s1) \<or> iceGatheringCompleteTimer s1 = Some i"
    if "iceGatheringCompleteTimer s = Some i" for i
  proof (cases "iceFailureRecoveryTimer s")
    case None
    then show ?thesis using that by (simp add: s1_def)
  next
    case (Some h)
    let ?s0 = "(clearTimeout (Some h) s)\<lparr>iceFailureRecoveryTimer := None\<rparr>"
    have "iceGatheringCompleteTimer ?s0 = Some i" using that by (simp add: clearTimeout_fields)
    then have "(i, IceCompleteTimer) \<notin> set (timers (startIceFailureRecoveryTimeout ?s0))"
      using startIceFailureRecoveryTimeout_gathering[of ?s0 i] g
      by (simp add: clearTimeout_fields)
    then show ?thesis using Some by (simp add: s1_def)
  qed
  have t2: "(i, IceCompleteTimer) \<notin> set (timers s2)"
    if "iceGatheringCompleteTimer s = Some i" for i
  proof -
    from t1[OF that] show ?thesis
    proof
      assume "(i, IceCompleteTimer) \<notin> set (timers s1)"
      then show ?thesis
        using clearTimeout_subset[of "iceGatheringCompleteTimer s1" "s1\<lparr>iceGatheringComplete := False\<rparr>"]
        by (auto simp: s2_def)
    next
      assume "iceGatheringCompleteTimer s1 = Some i"
      then show ?thesis
        using clearTimeout_gone[of i IceCompleteTimer "s1\<lparr>iceGatheringComplete := False\<rparr>"]
        by (simp add: s2_def)
    qed
  qed
  have f2: "\<not> iceGatheringComplete s2 \<and> iceGatheringCompleteTimer s2 = None \<and>
            \<not> isNegotiating s2 \<and> isRestartingIce s2"
    by (cases "iceGatheringCompleteTimer s1") (simp_all add: s2_def clearTimeout_def)
  have r: "restartIce s =
     (Return True,
      needsNegotiation
        (if hasRestartIce e then s2\<lparr>pc := Some (e\<lparr>pc_calls := pc_calls e @ [CallRestartIce]\<rparr>)\<rparr>
         else s2))"
    using g p2 unfolding restartIce_def Let_def s2_def s1_def by simp
  show ?thesis
    unfolding r using p2 f2 t2 by (simp add: needsNegotiation_fields)
qed

text \<open>
  Claim C3. On a reachable peer \<^verbatim>\<open>restartIce()\<close> returns false exactly when the peer is
  destroyed or destroying, or is not the initiator, or is already restarting ICE, and then
  it changes nothing. In every other state it returns true, and then the
  gathering-complete flag is reset, the gathering-complete timer is no longer pending and
  its handle is dropped, the negotiating flag is cleared, the restarting flag is set, the
  engine's \<^verbatim>\<open>restartIce\<close> has been called if the engine has one (and nothing else called
  on the engine), and a negotiation round is requested: the batching flag is set and, if
  no batch was pending, one batch is queued.
\<close>

theorem restartIce_result:
  assumes "reachable s"
  shows "(fst (restartIce s) = Return False \<longleftrightarrow>
            destroyed s \<or> destroying s \<or> \<not> initiator s \<or> isRestartingIce s) \<and>
         (fst (restartIce s) = Return False \<longrightarrow> snd (restartIce s) = s) \<and>
         (fst (restartIce s) \<noteq> Return False \<longrightarrow>
            fst (restartIce s) = Return True \<and>
            \<not> iceGatheringComplete (snd (restartIce s)) \<and>
            iceGatheringCompleteTimer (snd (restartIce s)) = None \<and>
            (\<forall>i. iceGatheringCompleteTimer s = Some i \<longrightarrow>
                   (i, IceCompleteTimer) \<notin> set (timers (snd (restartIce s)))) \<and>
            \<not> isNegotiating (snd (restartIce s)) \<and> isRestartingIce (snd (restartIce s)) \<and>
            (\<exists>e. pc s = Some e \<and>
                 pc (snd (restartIce s)) =
                   Some (if hasRestartIce e then e\<lparr>pc_calls := pc_calls e @ [CallRestartIce]\<rparr>
                         else e)) \<and>
            batchedNegotiation (snd (restartIce s)) \<and>
            microtasks (snd (restartIce s)) =
              (if batchedNegotiation s then microtasks s else microtasks s @ [NegotiationBatch]))"
proof (cases "destroyed s \<or> destroying s \<or> \<not> initiator s \<or> isRestartingIce s")
  case True
  then show ?thesis by (simp add: restartIce_refused)
next
  case False
  then have g: "\<not> destroyed s" "\<not> destroying s" "initiator s" "\<not> isRestartingIce s" by simp_all
  from reachable_pc[OF assms g(2)] obtain e where e: "pc s = Some e" by blast
  note t = restartIce_started[OF g e]
  have "fst (restartIce s) \<noteq> Return False" using t by simp
  then show ?thesis using False t e by simp
qed

lemma example_peer_restartable:
  "\<not> destroyed (example_peer True) \<and> \<not> destroying (example_peer True) \<and>
   initiator (example_peer True) \<and> \<not> isRestartingIce (example_peer True) \<and>
   pc (example_peer True) = Some (logCall CallCreateDataChannel example_engine)"
  by (simp add: example_peer_def example_defs prim_defs)

theorem restartIce_result_witness:
  "reachable (example_peer True) \<and> reachable (example_peer False) \<and>
   restartIce (example_peer False) = (Return False, example_peer False) \<and>
   fst (restartIce (example_peer True)) = Return True \<and>
   isRestartingIce (snd (restartIce (example_peer True))) \<and>
   pc (snd (restartIce (example_peer True))) =
     Some (example_engine\<lparr>pc_calls := [CallCreateDataChannel, CallRestartIce]\<rparr>)"
proof -
  have f: "\<not> initiator (example_peer False)"
    by (simp add: example_peer_def example_defs prim_defs)
  have a: "restartIce (example_peer False) = (Return False, example_peer False)"
    using restartIce_result[OF example_peer_reachable[of False]] f
    by (simp add: prod_eq_iff)
  have n: "fst (restartIce (example_peer True)) \<noteq> Return False"
    using restartIce_result[OF example_peer_reachable[of True]] example_peer_restartable
    by blast
  have b: "fst (restartIce (example_peer True)) = Return True \<and>
           isRestartingIce (snd (restartIce (example_peer True))) \<and>
           pc (snd (restartIce (example_peer True))) =
             Some (example_engine\<lparr>pc_calls := [CallCreateDataChannel, CallRestartIce]\<rparr>)"
    using restartIce_result[OF example_peer_reachable[of True]] n example_peer_restartable
    by (auto simp: logCall_def example_engine_def)
  show ?thesis using a b example_peer_reachable by simp
qed

section \<open>The errors of a failed ICE connection\<close>

lemma example_norestart_reachable: "reachable example_norestart"
proof -
  have "constructor ((example_opts True)\<lparr>o_iceRestartEnabled := Some OptFalse\<rparr>) example_platform
          = Inr example_norestart"
    by (simp add: example_norestart_def example_defs prim_defs)
  then show ?thesis by (rule reachable_init)
qed

text \<open>
  Claim C6, as stated, fails. Both runs are runs of the peer; the one error each of them
  emits is the error of the claim (the messages tell which), and the two carry the same
  tag, \<^verbatim>\<open>ERR_ICE_CONNECTION_FAILURE\<close>.
\<close>

theorem ice_failure_errors_share_tag:
  "reachable example_ice_failed \<and> reachable example_recovery_failed \<and>
   errorsEmitted example_ice_failed =
     [Coded ''ERR_ICE_CONNECTION_FAILURE'' ''Error'' ''Ice connection failed.''] \<and>
   errorsEmitted example_recovery_failed =
     [Coded ''ERR_ICE_CONNECTION_FAILURE'' ''Error'' ''Ice connection recovery failed.''] \<and>
   map err_code (errorsEmitted example_recovery_failed)
     = map err_code (errorsEmitted example_ice_failed)"
proof -
  have a: "reachable example_ice_failed"
    unfolding example_ice_failed_def by (rule reachable_run[OF example_norestart_reachable])
  have b: "reachable example_recovery_failed"
    unfolding example_recovery_failed_def by (rule reachable_run[OF example_peer_reachable])
  have c: "errorsEmitted example_ice_failed =
     [Coded ''ERR_ICE_CONNECTION_FAILURE'' ''Error'' ''Ice connection failed.'']"
    by (simp add: errorsEmitted_def example_ice_failed_def run_def example_norestart_def
          example_defs prim_defs handler_defs teardown_def newError_def List.map_filter_def)
  have d: "errorsEmitted example_recovery_failed =
     [Coded ''ERR_ICE_CONNECTION_FAILURE'' ''Error'' ''Ice connection recovery failed.'']"
    by (simp add: errorsEmitted_def example_recovery_failed_def run_def example_peer_def
          example_defs prim_defs handler_defs teardown_def newError_def List.map_filter_def)
  show ?thesis using a b by (simp add: c d)
qed

lemma pp_destroy_pending:
  "\<not> destroying s \<Longrightarrow> \<not> destroyed s \<Longrightarrow>
   pendingErrors (pp_destroy (Some err) s) = pendingErrors s @ [err]"
  by (simp add: pp_destroy_def p_destroy_def setTimeout_def pendingErrors_def List.map_filter_def)

text \<open>
  Claim C6, amended. On a peer that is neither destroyed nor being destroyed: when the
  recovery timer elapses and the ICE connection state is neither \<^verbatim>\<open>connected\<close> nor
  \<^verbatim>\<open>completed\<close>, the peer starts its destruction with the error of message
  \<^verbatim>\<open>Ice connection recovery failed.\<close>; when the ICE connection state changes to
  \<^verbatim>\<open>failed\<close> with restarts disabled and no restart in progress (gathering not complete,
  or its completion already handled), it starts its destruction with the error of
  message \<^verbatim>\<open>Ice connection failed.\<close>. The two errors have different messages and the same
  tag, \<^verbatim>\<open>ERR_ICE_CONNECTION_FAILURE\<close>.
\<close>

theorem ice_failure_errors:
  assumes "\<not> destroying s" and "\<not> destroyed s" and "pc s = Some e"
  shows "(iceConnectionState e \<noteq> IceConnected \<and> iceConnectionState e \<noteq> IceCompleted \<longrightarrow>
            fst (iceFailureRecoveryTimeout s) = Return () \<and>
            pendingErrors (snd (iceFailureRecoveryTimeout s)) =
              pendingErrors s @
                [Coded ''ERR_ICE_CONNECTION_FAILURE'' ''Error'' ''Ice connection recovery failed.'']) \<and>
         (iceConnectionState e = IceFailed \<and> iceRestartEnabled s = RestartOff \<and>
          \<not> isRestartingIce s \<and>
          (iceGatheringState e = GatherComplete \<longrightarrow> iceGatheringComplete s) \<longrightarrow>
            fst (onIceStateChange s) = Return () \<and>
            pendingErrors (snd (onIceStateChange s)) =
              pendingErrors s @
                [Coded ''ERR_ICE_CONNECTION_FAILURE'' ''Error'' ''Ice connection failed.''])"
proof (intro conjI impI)
  assume c: "iceConnectionState e \<noteq> IceConnected \<and> iceConnectionState e \<noteq> IceCompleted"
  then have r: "iceFailureRecoveryTimeout s =
      (Return (), pp_destroy (Some (errCode (newError ''Ice connection recovery failed.'')
                                      ''ERR_ICE_CONNECTION_FAILURE'')) s)"
    using assms(3) by (simp add: iceFailureRecoveryTimeout_def)
  show "fst (iceFailureRecoveryTimeout s) = Return ()" by (simp add: r)
  show "pendingErrors (snd (iceFailureRecoveryTimeout s)) =
          pendingErrors s @
            [Coded ''ERR_ICE_CONNECTION_FAILURE'' ''Error'' ''Ice connection recovery failed.'']"
    using assms(1,2) by (simp add: r pp_destroy_pending newError_def)
next
  assume c: "iceConnectionState e = IceFailed \<and> iceRestartEnabled s = RestartOff \<and>
          \<not> isRestartingIce s \<and>
          (iceGatheringState e = GatherComplete \<longrightarrow> iceGatheringComplete s)"
  let ?s1 = "emit (EvIceStateChange IceFailed (iceGatheringState e)) s"
  have g: "onIceGatheringComplete ?s1 = (Return (), ?s1)" if "iceGatheringState e = GatherComplete"
    using c that by (simp add: onIceGatheringComplete_def emit_def ok_def)
  have f: "\<not> destroying ?s1 \<and> \<not> destroyed ?s1 \<and> iceRestartEnabled ?s1 = RestartOff \<and>
           \<not> isRestartingIce ?s1 \<and> pendingErrors ?s1 = pendingErrors s"
    using assms(1,2) c by (simp add: emit_def pendingErrors_def)
  have r: "onIceStateChange s =
      (Return (), pp_destroy (Some (errCode (newError ''Ice connection failed.'')
                                      ''ERR_ICE_CONNECTION_FAILURE'')) ?s1)"
  proof -
    have p: "iceRestartEnabled (pp_destroy err s') = iceRestartEnabled s'" for err s'
      by (simp add: pp_destroy_def p_destroy_def setTimeout_def)
    show ?thesis
    proof (cases "iceGatheringState e = GatherComplete")
      case True
      show ?thesis
        using assms c f True unfolding onIceStateChange_def Let_def
        by (simp add: g[OF True, unfolded True] andThen_def ok_def restartWanted_def p)
    next
      case False
      show ?thesis
        using assms c f False unfolding onIceStateChange_def Let_def
        by (simp add: andThen_def ok_def restartWanted_def p)
    qed
  qed
  show "fst (onIceStateChange s) = Return ()" by (simp add: r)
  show "pendingErrors (snd (onIceStateChange s)) =
          pendingErrors s @
            [Coded ''ERR_ICE_CONNECTION_FAILURE'' ''Error'' ''Ice connection failed.'']"
    using f by (simp add: r pp_destroy_pending newError_def)
qed

lemma example_failing_state:
  "\<not> destroying example_failing \<and> \<not> destroyed example_failing \<and>
   iceRestartEnabled example_failing = RestartOff \<and> \<not> isRestartingIce example_failing \<and>
   pendingErrors example_failing = [] \<and>
   (\<exists>e. pc example_failing = Some e \<and> iceConnectionState e = IceFailed \<and>
        iceGatheringState e = GatherNew)"
  by (simp add: example_failing_def run_def example_norestart_def example_defs prim_defs
        handler_defs pendingErrors_def List.map_filter_def)

lemma example_recovering_state:
  "\<not> destroying example_recovering \<and> \<not> destroyed example_recovering \<and>
   iceFailureRecoveryTimer example_recovering = Some 4 \<and>
   pendingErrors example_recovering = [] \<and>
   (\<exists>e. pc example_recovering = Some e \<and> iceConnectionState e = IceFailed)"
  by (simp add: example_recovering_def run_def example_peer_def example_defs prim_defs
        handler_defs pendingErrors_def List.map_filter_def)

theorem ice_failure_errors_witness:
  "\<not> destroying example_failing \<and> \<not> destroyed example_failing \<and>
   \<not> destroying example_recovering \<and> \<not> destroyed example_recovering \<and>
   pendingErrors (snd (iceFailureRecoveryTimeout example_recovering)) =
     [Coded ''ERR_ICE_CONNECTION_FAILURE'' ''Error'' ''Ice connection recovery failed.''] \<and>
   pendingErrors (snd (onIceStateChange example_failing)) =
     [Coded ''ERR_ICE_CONNECTION_FAILURE'' ''Error'' ''Ice connection failed.'']"
proof -
  from example_failing_state obtain e where
    e: "pc example_failing = Some e" "iceConnectionState e = IceFailed"
       "iceGatheringState e = GatherNew" by blast
  from example_recovering_state obtain e' where
    e': "pc example_recovering = Some e'" "iceConnectionState e' = IceFailed" by blast
  have a: "pendingErrors (snd (onIceStateChange example_failing)) =
     [Coded ''ERR_ICE_CONNECTION_FAILURE'' ''Error'' ''Ice connection failed.'']"
    using ice_failure_errors[of example_failing e] e example_failing_state by simp
  have b: "pendingErrors (snd (iceFailureRecoveryTimeout example_recovering)) =
     [Coded ''ERR_ICE_CONNECTION_FAILURE'' ''Error'' ''Ice connection recovery failed.'']"
    using ice_failure_errors[of example_recovering e'] e' example_recovering_state by simp
  show ?thesis using a b example_failing_state example_recovering_state by simp
qed

section \<open>A write before the connection\<close>

lemma write_before_connect:
  "\<not> destroyed s \<Longrightarrow> \<not> connected s \<Longrightarrow>
   p_write c k s = (Return (), s\<lparr>chunk := Some c, cb := Some k\<rparr>)"
  by (simp add: p_write_def ok_def)

lemma timers_only:
  "chunk (((\<lambda>s1. snd (setTimeout t s1)) ^^ n) s) = chunk s \<and>
   cb (((\<lambda>s1. snd (setTimeout t s1)) ^^ n) s) = cb s \<and>
   cbCalls (((\<lambda>s1. snd (setTimeout t s1)) ^^ n) s) = cbCalls s \<and>
   channel (((\<lambda>s1. snd (setTimeout t s1)) ^^ n) s) = channel s \<and>
   connected (((\<lambda>s1. snd (setTimeout t s1)) ^^ n) s) = connected s"
  by (induction n) (simp_all add: setTimeout_def)

lemma emitConnect_fields:
  "chunk (emitConnect s) = chunk s \<and> cb (emitConnect s) = cb s \<and>
   cbCalls (emitConnect s) = cbCalls s \<and> channel (emitConnect s) = channel s \<and>
   connected (emitConnect s) = connected s"
  by (simp add: emitConnect_def timers_only emit_def)

lemma announce_fields:
  fixes s1 :: peer
  defines "r \<equiv> (if \<not> connectedOnce s1 then
             (case channel s1 of
                None \<Rightarrow> (Throw typeError, s1\<lparr>connectedOnce := True\<rparr>)
              | Some ch \<Rightarrow>
                  let s2 = s1\<lparr>connectedOnce := True\<rparr>;
                      s3 = (if \<not> ch_lowThresholdIsNumber ch then
                              (let (i, s') = setTimeout BackpressureInterval s2
                               in s'\<lparr>interval := Some i\<rparr>)
                            else s2)
                  in ok (emitConnect s3))
           else ok (emit EvReconnect s1))"
  shows "chunk (snd r) = chunk s1 \<and> cb (snd r) = cb s1 \<and> cbCalls (snd r) = cbCalls s1 \<and>
         channel (snd r) = channel s1 \<and> connected (snd r) = connected s1"
  unfolding r_def
  by (simp add: emitConnect_fields ok_def emit_def setTimeout_def Let_def split: option.splits)

text \<open>
  The pending chunk is flushed when it is truthy: sent once on the channel, the slot and
  the callback cleared, the callback called once with no error.
\<close>

lemma pending_chunk_flushed:
  assumes "chunk s = Some c" "truthy_chunk c" "cb s = Some k" "channel s = Some ch"
    "ch_sendThrows ch = None" "\<not> destroying s" "\<not> destroyed s"
  shows "channel (snd (resolved s)) = Some (ch\<lparr>ch_sent := ch_sent ch @ [c]\<rparr>) \<and>
         chunk (snd (resolved s)) = None \<and> cb (snd (resolved s)) = None \<and>
         cbCalls (snd (resolved s)) = cbCalls s @ [(k, None)] \<and> connected (snd (resolved s))"
proof -
  let ?s = "s\<lparr>connecting := False, connected := True\<rparr>"
  have sd: "send c ?s = (Return (), ?s\<lparr>channel := Some (ch\<lparr>ch_sent := ch_sent ch @ [c]\<rparr>)\<rparr>)"
    using assms by (simp add: send_def)
  let ?s1 = "callCb k None (?s\<lparr>channel := Some (ch\<lparr>ch_sent := ch_sent ch @ [c]\<rparr>),
                               chunk := None, cb := None\<rparr>)"
  have r: "resolved s =
     (if \<not> connectedOnce ?s1 then
             (case channel ?s1 of
                None \<Rightarrow> (Throw typeError, ?s1\<lparr>connectedOnce := True\<rparr>)
              | Some ch \<Rightarrow>
                  let s2 = ?s1\<lparr>connectedOnce := True\<rparr>;
                      s3 = (if \<not> ch_lowThresholdIsNumber ch then
                              (let (i, s') = setTimeout BackpressureInterval s2
                               in s'\<lparr>interval := Some i\<rparr>)
                            else s2)
                  in ok (emitConnect s3))
           else ok (emit EvReconnect ?s1))"
    using assms(1-3) unfolding resolved_def Let_def
    by (simp add: sd andThen_def)
  show ?thesis unfolding r using announce_fields[of ?s1] by (simp add: callCb_def)
qed

text \<open>
  Claim C5 at the empty string. When connectivity resolves with the empty string as the
  pending chunk, the test \<^verbatim>\<open>if (this._chunk)\<close> takes it for no chunk: nothing is sent
  on the channel, the slot and the callback stay as they are, and the callback is not
  called.
\<close>

theorem empty_chunk_stays_pending:
  assumes "chunk s = Some (Str [])"
  shows "channel (snd (resolved s)) = channel s \<and> chunk (snd (resolved s)) = Some (Str []) \<and>
         cb (snd (resolved s)) = cb s \<and> cbCalls (snd (resolved s)) = cbCalls s \<and>
         connected (snd (resolved s))"
proof -
  let ?s = "s\<lparr>connecting := False, connected := True\<rparr>"
  have r: "resolved s =
     (if \<not> connectedOnce ?s then
             (case channel ?s of
                None \<Rightarrow> (Throw typeError, ?s\<lparr>connectedOnce := True\<rparr>)
              | Some ch \<Rightarrow>
                  let s2 = ?s\<lparr>connectedOnce := True\<rparr>;
                      s3 = (if \<not> ch_lowThresholdIsNumber ch then
                              (let (i, s') = setTimeout BackpressureInterval s2
                               in s'\<lparr>interval := Some i\<rparr>)
                            else s2)
                  in ok (emitConnect s3))
           else ok (emit EvReconnect ?s))"
    using assms unfolding resolved_def Let_def by (simp add: andThen_def)
  show ?thesis unfolding r using announce_fields[of ?s] assms by simp
qed

lemma example_written_reachable: "reachable (example_written c)"
  unfolding example_written_def by (rule reachable_run[OF example_peer_reachable])

theorem empty_chunk_stays_pending_witness:
  "reachable (example_written (Str [])) \<and> connected (example_written (Str [])) \<and>
   map_option ch_sent (channel (example_written (Str []))) = Some [] \<and>
   chunk (example_written (Str [])) = Some (Str []) \<and>
   cb (example_written (Str [])) = Some 7 \<and> cbCalls (example_written (Str [])) = [] \<and>
   reachable (example_written (Str ''a'')) \<and> connected (example_written (Str ''a'')) \<and>
   map_option ch_sent (channel (example_written (Str ''a''))) = Some [Str ''a''] \<and>
   chunk (example_written (Str ''a'')) = None \<and>
   cb (example_written (Str ''a'')) = None \<and> cbCalls (example_written (Str ''a'')) = [(7, None)] \<and>
   chunk (snd (resolved (snd (p_write (Str []) 7 (example_peer True))))) = Some (Str []) \<and>
   cb (snd (resolved (snd (p_write (Str []) 7 (example_peer True))))) = Some 7"
proof -
  have w: "p_write (Str []) 7 (example_peer True) =
             (Return (), (example_peer True)\<lparr>chunk := Some (Str []), cb := Some 7\<rparr>)"
    by (rule write_before_connect) (simp_all add: example_peer_def example_defs prim_defs)
  have a: "chunk (snd (resolved (snd (p_write (Str []) 7 (example_peer True))))) = Some (Str []) \<and>
           cb (snd (resolved (snd (p_write (Str []) 7 (example_peer True))))) = Some 7"
    using empty_chunk_stays_pending[of "snd (p_write (Str []) 7 (example_peer True))"]
    by (simp add: w)
  have b: "connected (example_written (Str [])) \<and>
   map_option ch_sent (channel (example_written (Str []))) = Some [] \<and>
   chunk (example_written (Str [])) = Some (Str []) \<and>
   cb (example_written (Str [])) = Some 7 \<and> cbCalls (example_written (Str [])) = []"
    by (simp add: example_written_def run_def example_peer_def example_defs prim_defs handler_defs)
  have c: "connected (example_written (Str ''a'')) \<and>
   map_option ch_sent (channel (example_written (Str ''a''))) = Some [Str ''a''] \<and>
   chunk (example_written (Str ''a'')) = None \<and>
   cb (example_written (Str ''a'')) = None \<and> cbCalls (example_written (Str ''a'')) = [(7, None)]"
    by (simp add: example_written_def run_def example_peer_def example_defs prim_defs handler_defs)
  show ?thesis using a b c example_written_reachable by simp
qed

section \<open>Operations on a peer that is being destroyed\<close>

lemma err_code_simps:
  "err_code typeError = None" "err_code (raised x) = None" "err_code (errCode e c) = Some c"
  by (cases e; simp add: typeError_def raised_def)+

lemma throwsDestroyed_simps:
  "\<not> throwsDestroyed (Return x)"
  "throwsDestroyed (Throw e) \<longleftrightarrow> err_code e = Some ''ERR_DESTROYED''"
  by (simp_all add: throwsDestroyed_def)

lemma pp_destroy_destroyed: "destroyed (pp_destroy err s) = destroyed s"
  by (simp add: pp_destroy_def p_destroy_def setTimeout_def)

lemma needsNegotiation_destroyed: "destroyed (needsNegotiation s) = destroyed s"
  by (simp add: needsNegotiation_def queueMicrotask_def)

lemmas alive_simps =
  err_code_simps throwsDestroyed_simps pp_destroy_destroyed needsNegotiation_destroyed

lemma andThen_throwsDestroyed:
  assumes "\<not> throwsDestroyed (fst m)" "\<not> destroyed (snd m)"
    and "\<And>x s1. \<not> destroyed s1 \<Longrightarrow> \<not> throwsDestroyed (fst (f x s1)) \<and> \<not> destroyed (snd (f x s1))"
  shows "\<not> throwsDestroyed (fst (andThen m f)) \<and> \<not> destroyed (snd (andThen m f))"
proof (cases m)
  case (Pair r s1)
  show ?thesis by (cases r) (use assms Pair in \<open>simp_all add: alive_simps andThen_def\<close>)
qed

lemma addTransceiver_alive:
  "\<not> destroyed s \<Longrightarrow>
   \<not> throwsDestroyed (fst (addTransceiver kind init s)) \<and>
   \<not> destroyed (snd (addTransceiver kind init s))"
  by (simp add: alive_simps addTransceiver_def ok_def emit_def split: option.splits)

lemma addIceCandidate_alive:
  "\<not> destroyed s \<Longrightarrow>
   \<not> throwsDestroyed (fst (addIceCandidate c s)) \<and> \<not> destroyed (snd (addIceCandidate c s))"
  by (simp add: alive_simps addIceCandidate_def ok_def split: option.splits)

lemma signalData_alive:
  "\<not> destroyed s \<Longrightarrow>
   \<not> throwsDestroyed (fst (signalData d s)) \<and> \<not> destroyed (snd (signalData d s))"
  unfolding signalData_def
  by (intro andThen_throwsDestroyed conjI)
     (simp_all add: alive_simps ok_def addTransceiver_alive addIceCandidate_alive split: option.splits)

lemma addTrack_alive:
  "\<not> destroyed s \<Longrightarrow>
   \<not> throwsDestroyed (fst (addTrack track stream s)) \<and>
   \<not> destroyed (snd (addTrack track stream s))"
  by (simp add: alive_simps addTrack_def ok_def setSubmap_def Let_def split: option.splits sum.splits)

lemma addTracks_alive:
  "\<not> destroyed s \<Longrightarrow>
   \<not> throwsDestroyed (fst (addTracks ts stream s)) \<and>
   \<not> destroyed (snd (addTracks ts stream s))"
proof (induction ts arbitrary: s)
  case Nil
  then show ?case by (simp add: alive_simps ok_def)
next
  case (Cons t ts)
  show ?case unfolding addTracks.simps
    by (rule andThen_throwsDestroyed) (use Cons addTrack_alive in \<open>auto simp: alive_simps\<close>)
qed

lemma removeTrack_alive:
  "\<not> destroyed s \<Longrightarrow>
   \<not> throwsDestroyed (fst (removeTrack track stream s)) \<and>
   \<not> destroyed (snd (removeTrack track stream s))"
  by (simp add: alive_simps removeTrack_def ok_def Let_def split: option.splits)

lemma removeTracks_alive:
  "\<not> destroyed s \<Longrightarrow>
   \<not> throwsDestroyed (fst (removeTracks ts stream s)) \<and>
   \<not> destroyed (snd (removeTracks ts stream s))"
proof (induction ts arbitrary: s)
  case Nil
  then show ?case by (simp add: alive_simps ok_def)
next
  case (Cons t ts)
  show ?case unfolding removeTracks.simps
    by (rule andThen_throwsDestroyed) (use Cons removeTrack_alive in \<open>auto simp: alive_simps\<close>)
qed

lemma public_alive:
  assumes "\<not> destroyed s"
  shows "\<not> throwsDestroyed (fst (signal parse inp s))"
    and "\<not> throwsDestroyed (fst (send c s))"
    and "\<not> throwsDestroyed (fst (negotiate s))"
    and "\<not> throwsDestroyed (fst (restartIce s))"
    and "\<not> throwsDestroyed (fst (addTransceiver kind init s))"
    and "\<not> throwsDestroyed (fst (addStream tracks stream s))"
    and "\<not> throwsDestroyed (fst (addTrack track stream s))"
    and "\<not> throwsDestroyed (fst (replaceTrack oldTrack newTrack stream s))"
    and "\<not> throwsDestroyed (fst (removeTrack track stream s))"
    and "\<not> throwsDestroyed (fst (removeStream tracks stream s))"
proof -
  show "\<not> throwsDestroyed (fst (signal parse inp s))"
    using assms signalData_alive by (simp add: alive_simps signal_def split: signal_input.splits parsed.splits)
  show "\<not> throwsDestroyed (fst (send c s))"
    using assms by (simp add: alive_simps send_def split: option.splits)
  show "\<not> throwsDestroyed (fst (negotiate s))"
    using assms by (simp add: alive_simps negotiate_def Let_def)
  show "\<not> throwsDestroyed (fst (restartIce s))"
    by (simp add: alive_simps restartIce_def Let_def split: option.splits)
  show "\<not> throwsDestroyed (fst (addTransceiver kind init s))"
    using assms addTransceiver_alive by (simp add: alive_simps)
  show "\<not> throwsDestroyed (fst (addStream tracks stream s))"
    using assms addTracks_alive by (simp add: alive_simps addStream_def)
  show "\<not> throwsDestroyed (fst (addTrack track stream s))"
    using assms addTrack_alive by (simp add: alive_simps)
  show "\<not> throwsDestroyed (fst (replaceTrack oldTrack newTrack stream s))"
    using assms by (simp add: alive_simps replaceTrack_def ok_def Let_def split: option.splits)
  show "\<not> throwsDestroyed (fst (removeTrack track stream s))"
    using assms removeTrack_alive by (simp add: alive_simps)
  show "\<not> throwsDestroyed (fst (removeStream tracks stream s))"
    using assms removeTracks_alive by (simp add: alive_simps removeStream_def)
qed

lemma public_destroying:
  assumes "destroying s"
  shows "signal parse inp s = (Return (), s)" "send c s = (Return (), s)"
    "negotiate s = (Return (), s)" "restartIce s = (Return False, s)"
    "addTransceiver kind init s = (Return (), s)" "addStream tracks stream s = (Return (), s)"
    "addTrack track stream s = (Return (), s)"
    "replaceTrack oldTrack newTrack stream s = (Return (), s)"
    "removeTrack track stream s = (Return (), s)" "removeStream tracks stream s = (Return (), s)"
  using assms
  by (simp_all add: alive_simps signal_def send_def negotiate_def restartIce_def addTransceiver_def
        addStream_def addTrack_def replaceTrack_def removeTrack_def removeStream_def)

text \<open>
  Claim C9 on the code. On every reachable peer: while the destroying flag is set, each
  of the ten public operations returns at once (\<^verbatim>\<open>restartIce\<close> returning false), with no
  exception and the peer exactly as it was, so nothing emitted and nothing mutated. The
  flag \<^verbatim>\<open>_destroying\<close> is never reset, and the stream reports \<^verbatim>\<open>destroyed\<close> only on a
  peer that has it set; so the test of \<^verbatim>\<open>destroyed\<close> that follows the test of
  \<^verbatim>\<open>_destroying\<close> in each operation is never reached with \<^verbatim>\<open>destroyed\<close> set, and none of
  the ten operations throws the error tagged \<^verbatim>\<open>ERR_DESTROYED\<close>, also once destruction
  has completed.
\<close>

theorem operations_never_throw_destroyed:
  assumes "reachable s"
  shows "(destroying s \<longrightarrow>
            signal parse inp s = (Return (), s) \<and> send c s = (Return (), s) \<and>
            negotiate s = (Return (), s) \<and> restartIce s = (Return False, s) \<and>
            addTransceiver kind init s = (Return (), s) \<and>
            addStream tracks stream s = (Return (), s) \<and>
            addTrack track stream s = (Return (), s) \<and>
            replaceTrack oldTrack newTrack stream s = (Return (), s) \<and>
            removeTrack track stream s = (Return (), s) \<and>
            removeStream tracks stream s = (Return (), s)) \<and>
         (destroyed s \<longrightarrow> destroying s) \<and>
         \<not> throwsDestroyed (fst (signal parse inp s)) \<and>
         \<not> throwsDestroyed (fst (send c s)) \<and>
         \<not> throwsDestroyed (fst (negotiate s)) \<and>
         \<not> throwsDestroyed (fst (restartIce s)) \<and>
         \<not> throwsDestroyed (fst (addTransceiver kind init s)) \<and>
         \<not> throwsDestroyed (fst (addStream tracks stream s)) \<and>
         \<not> throwsDestroyed (fst (addTrack track stream s)) \<and>
         \<not> throwsDestroyed (fst (replaceTrack oldTrack newTrack stream s)) \<and>
         \<not> throwsDestroyed (fst (removeTrack track stream s)) \<and>
         \<not> throwsDestroyed (fst (removeStream tracks stream s))"
proof (cases "destroying s")
  case True
  show ?thesis using True by (simp add: alive_simps public_destroying)
next
  case False
  with reachable_destroyed[OF assms] have "\<not> destroyed s" by blast
  from public_alive[OF this] False this show ?thesis by simp
qed

lemma example_destroying_reachable: "reachable example_destroying"
  unfolding example_destroying_def by (rule reachable_run[OF example_peer_reachable])

lemma example_torn_down_reachable: "reachable example_torn_down"
  unfolding example_torn_down_def by (rule reachable_run[OF example_peer_reachable])

lemma example_destroying_flags:
  "destroying example_destroying \<and> \<not> destroyed example_destroying \<and>
   pc example_destroying \<noteq> None \<and>
   timers example_destroying = [(1, ClosingInterval), (2, TeardownTimer StreamCb None)]"
  by (simp add: example_destroying_def run_def example_peer_def example_defs prim_defs)

lemma example_torn_down_flags:
  "destroying example_torn_down \<and> destroyed example_torn_down \<and>
   pc example_torn_down = None \<and> channel example_torn_down = None \<and>
   timers example_torn_down = []"
  by (simp add: example_torn_down_def run_def example_peer_def example_defs prim_defs
        fireTimer_def teardown_def)

theorem operations_never_throw_destroyed_witness:
  "reachable example_destroying \<and> destroying example_destroying \<and>
   \<not> destroyed example_destroying \<and>
   send (Str ''x'') example_destroying = (Return (), example_destroying) \<and>
   restartIce example_destroying = (Return False, example_destroying) \<and>
   reachable example_torn_down \<and> destroyed example_torn_down \<and>
   pc example_torn_down = None \<and> timers example_torn_down = [] \<and>
   signal (\<lambda>_. ParseThrows) (SignalString ''{}'') example_torn_down
     = (Return (), example_torn_down) \<and>
   send (Str ''x'') example_torn_down = (Return (), example_torn_down) \<and>
   negotiate example_torn_down = (Return (), example_torn_down) \<and>
   restartIce example_torn_down = (Return False, example_torn_down) \<and>
   addTransceiver ''audio'' ''{}'' example_torn_down = (Return (), example_torn_down) \<and>
   addStream [1] 2 example_torn_down = (Return (), example_torn_down) \<and>
   addTrack 1 2 example_torn_down = (Return (), example_torn_down) \<and>
   replaceTrack 1 (Some 3) 2 example_torn_down = (Return (), example_torn_down) \<and>
   removeTrack 1 2 example_torn_down = (Return (), example_torn_down) \<and>
   removeStream [1] 2 example_torn_down = (Return (), example_torn_down)"
proof -
  note a = operations_never_throw_destroyed[OF example_destroying_reachable,
             of "\<lambda>_. ParseThrows" "SignalString ''{}''" "Str ''x''" "''audio''" "''{}''" "[1]" 2 1 1
                "Some 3"]
  note b = operations_never_throw_destroyed[OF example_torn_down_reachable,
             of "\<lambda>_. ParseThrows" "SignalString ''{}''" "Str ''x''" "''audio''" "''{}''" "[1]" 2 1 1
                "Some 3"]
  have a': "send (Str ''x'') example_destroying = (Return (), example_destroying) \<and>
            restartIce example_destroying = (Return False, example_destroying)"
    using a example_destroying_flags by blast
  have b': "signal (\<lambda>_. ParseThrows) (SignalString ''{}'') example_torn_down
              = (Return (), example_torn_down) \<and>
            send (Str ''x'') example_torn_down = (Return (), example_torn_down) \<and>
            negotiate example_torn_down = (Return (), example_torn_down) \<and>
            restartIce example_torn_down = (Return False, example_torn_down) \<and>
            addTransceiver ''audio'' ''{}'' example_torn_down = (Return (), example_torn_down) \<and>
            addStream [1] 2 example_torn_down = (Return (), example_torn_down) \<and>
            addTrack 1 2 example_torn_down = (Return (), example_torn_down) \<and>
            replaceTrack 1 (Some 3) 2 example_torn_down = (Return (), example_torn_down) \<and>
            removeTrack 1 2 example_torn_down = (Return (), example_torn_down) \<and>
            removeStream [1] 2 example_torn_down = (Return (), example_torn_down)"
    using b example_torn_down_flags by blast
  show ?thesis
    using a' b' example_destroying_flags example_torn_down_flags
      example_destroying_reachable example_torn_down_reachable
    by simp
qed

section \<open>Adding a track twice\<close>

lemma needsNegotiation_senders:
  "senderMap (needsNegotiation s) = senderMap s \<and> pc (needsNegotiation s) = pc s \<and> submaps (needsNegotiation s) = submaps s \<and>
   senderRemoved (needsNegotiation s) = senderRemoved s \<and>
   destroying (needsNegotiation s) = destroying s \<and> destroyed (needsNegotiation s) = destroyed s"
  by (simp add: needsNegotiation_def queueMicrotask_def)

lemma senderOf_needsNegotiation:
  "senderOf (needsNegotiation s) t st = senderOf s t st"
  by (simp add: senderOf_def submapOf_def needsNegotiation_senders split: option.splits)

lemma addTrack_known:
  assumes "\<not> destroying s" "\<not> destroyed s" "senderOf s t st = Some sender"
  shows "addTrack t st s =
     (Throw (if senderRemoved s sender
             then errCode (newError
                    ''Track has been removed. You should enable/disable tracks that you want to re-add.'')
                    ''ERR_SENDER_REMOVED''
             else errCode (newError ''Track has already been added to that stream.'')
                    ''ERR_SENDER_ALREADY_ADDED''), s)"
  using assms by (auto simp: addTrack_def senderOf_def split: option.splits)

lemma addTrack_first:
  assumes "\<not> destroying s" "\<not> destroyed s" "senderMap s \<noteq> None" "senderOf s t st = None"
    "pc s = Some e" "pc_addTrackResult e t st = Inr sender"
  shows "fst (addTrack t st s) = Return () \<and>
         senderOf (snd (addTrack t st s)) t st = Some sender \<and>
         senderRemoved (snd (addTrack t st s)) = senderRemoved s \<and>
         pc (snd (addTrack t st s)) = Some (logCall (CallAddTrack t st) e) \<and>
         \<not> destroying (snd (addTrack t st s)) \<and> \<not> destroyed (snd (addTrack t st s))"
proof (cases "submapOf s t")
  case None
  then show ?thesis using assms
    by (auto simp: addTrack_def ok_def Let_def needsNegotiation_senders senderOf_needsNegotiation senderOf_def submapOf_def
          setSubmap_def)
next
  case (Some r)
  then have "submaps s r st = None" using assms(4) by (simp add: senderOf_def)
  then show ?thesis using assms Some
    by (auto simp: addTrack_def ok_def Let_def needsNegotiation_senders senderOf_needsNegotiation senderOf_def submapOf_def
          setSubmap_def)
qed

lemma pp_destroy_senders:
  "senderMap (pp_destroy err s) = senderMap s \<and> submaps (pp_destroy err s) = submaps s \<and>
   senderRemoved (pp_destroy err s) = senderRemoved s \<and> destroyed (pp_destroy err s) = destroyed s"
  by (simp add: pp_destroy_def p_destroy_def setTimeout_def)

lemma removeTrack_known:
  assumes "\<not> destroying s" "\<not> destroyed s" "senderOf s t st = Some sender"
  shows "fst (removeTrack t st s) = Return () \<and>
         senderOf (snd (removeTrack t st s)) t st = Some sender \<and>
         senderRemoved (snd (removeTrack t st s)) sender \<and>
         \<not> destroyed (snd (removeTrack t st s))"
  using assms
  by (simp add: removeTrack_def ok_def Let_def needsNegotiation_senders senderOf_needsNegotiation senderOf_def submapOf_def
        pp_destroy_senders split: option.splits)

text \<open>
  Claim C8 on the code. On a live peer with its sender registry, a first
  \<^verbatim>\<open>addTrack(t, st)\<close> for a pair not yet added succeeds with the sender the engine
  returns, and the second call with the same pair throws, leaving the peer exactly as it
  was (no sender added, no negotiation requested, no destruction started): the error
  tagged \<^verbatim>\<open>ERR_SENDER_ALREADY_ADDED\<close> when that sender does not carry the mark \<^verbatim>\<open>removed\<close>,
  but the error tagged \<^verbatim>\<open>ERR_SENDER_REMOVED\<close> when it does, which is the case when the
  engine reuses a sender that an earlier \<^verbatim>\<open>removeTrack\<close> of another pair has marked.
  After \<^verbatim>\<open>removeTrack(t, st)\<close> of an added pair, if the removal did not start the peer's
  destruction, \<^verbatim>\<open>addTrack(t, st)\<close> throws the error tagged \<^verbatim>\<open>ERR_SENDER_REMOVED\<close>, the
  peer again exactly as it was.
\<close>

theorem addTrack_known_pair_fails:
  "(\<not> destroying s \<and> \<not> destroyed s \<and> senderMap s \<noteq> None \<and> senderOf s t st = None \<and>
    pc s = Some e \<and> pc_addTrackResult e t st = Inr sender \<longrightarrow>
      fst (addTrack t st s) = Return () \<and>
      addTrack t st (snd (addTrack t st s)) =
        (Throw (if senderRemoved s sender
                then errCode (newError
                  ''Track has been removed. You should enable/disable tracks that you want to re-add.'')
                  ''ERR_SENDER_REMOVED''
                else errCode (newError ''Track has already been added to that stream.'')
                  ''ERR_SENDER_ALREADY_ADDED''), snd (addTrack t st s))) \<and>
   (\<not> destroying s \<and> \<not> destroyed s \<and> senderOf s t st = Some sender \<and>
    \<not> destroying (snd (removeTrack t st s)) \<longrightarrow>
      fst (removeTrack t st s) = Return () \<and>
      addTrack t st (snd (removeTrack t st s)) =
        (Throw (errCode (newError
                  ''Track has been removed. You should enable/disable tracks that you want to re-add.'')
                  ''ERR_SENDER_REMOVED''), snd (removeTrack t st s)))"
proof (intro conjI impI)
  assume a: "\<not> destroying s \<and> \<not> destroyed s \<and> senderMap s \<noteq> None \<and> senderOf s t st = None \<and>
    pc s = Some e \<and> pc_addTrackResult e t st = Inr sender"
  then have f: "fst (addTrack t st s) = Return () \<and>
         senderOf (snd (addTrack t st s)) t st = Some sender \<and>
         senderRemoved (snd (addTrack t st s)) = senderRemoved s \<and>
         pc (snd (addTrack t st s)) = Some (logCall (CallAddTrack t st) e) \<and>
         \<not> destroying (snd (addTrack t st s)) \<and> \<not> destroyed (snd (addTrack t st s))"
    using addTrack_first[of s t st e sender] by simp
  then show "fst (addTrack t st s) = Return ()" by simp
  from f addTrack_known[of "snd (addTrack t st s)" t st sender]
  show "addTrack t st (snd (addTrack t st s)) =
        (Throw (if senderRemoved s sender
                then errCode (newError
                  ''Track has been removed. You should enable/disable tracks that you want to re-add.'')
                  ''ERR_SENDER_REMOVED''
                else errCode (newError ''Track has already been added to that stream.'')
                  ''ERR_SENDER_ALREADY_ADDED''), snd (addTrack t st s))"
    by simp
next
  assume a: "\<not> destroying s \<and> \<not> destroyed s \<and> senderOf s t st = Some sender \<and>
    \<not> destroying (snd (removeTrack t st s))"
  then have f: "fst (removeTrack t st s) = Return () \<and>
         senderOf (snd (removeTrack t st s)) t st = Some sender \<and>
         senderRemoved (snd (removeTrack t st s)) sender \<and>
         \<not> destroyed (snd (removeTrack t st s))"
    using removeTrack_known[of s t st sender] by simp
  then show "fst (removeTrack t st s) = Return ()" by simp
  from f a addTrack_known[of "snd (removeTrack t st s)" t st sender]
  show "addTrack t st (snd (removeTrack t st s)) =
        (Throw (errCode (newError
                  ''Track has been removed. You should enable/disable tracks that you want to re-add.'')
                  ''ERR_SENDER_REMOVED''), snd (removeTrack t st s))"
    by simp
qed

lemma removeTrack_accepted:
  assumes "\<not> destroying s" "senderOf s t st = Some sender" "pc s = Some e"
    "pc_removeTrackThrows e sender = None"
  shows "\<not> destroying (snd (removeTrack t st s))"
  using assms by (simp add: removeTrack_def ok_def Let_def needsNegotiation_senders)

lemma example_peer_senders:
  "\<not> destroying (example_peer True) \<and> \<not> destroyed (example_peer True) \<and>
   senderMap (example_peer True) \<noteq> None \<and> senderOf (example_peer True) 1 2 = None \<and>
   pc (example_peer True) = Some (logCall CallCreateDataChannel example_engine) \<and>
   pc_addTrackResult (logCall CallCreateDataChannel example_engine) 1 2 = Inr 3 \<and>
   \<not> senderRemoved (example_peer True) 3"
  by (simp add: example_peer_def example_defs prim_defs senderOf_def submapOf_def)

lemma example_added_senders:
  "\<not> destroying example_added \<and> \<not> destroyed example_added \<and>
   senderOf example_added 1 2 = Some 3 \<and> \<not> destroying (snd (removeTrack 1 2 example_added))"
proof -
  have a: "\<not> destroying example_added \<and> \<not> destroyed example_added \<and>
           senderOf example_added 1 2 = Some 3 \<and>
           pc example_added =
             Some (logCall (CallAddTrack 1 2) (logCall CallCreateDataChannel example_engine))"
    using example_peer_senders
      addTrack_first[of "example_peer True" 1 2 "logCall CallCreateDataChannel example_engine" 3]
    by (simp add: example_added_def)
  have "\<not> destroying (snd (removeTrack 1 2 example_added))"
    using a removeTrack_accepted[of example_added 1 2 3
              "logCall (CallAddTrack 1 2) (logCall CallCreateDataChannel example_engine)"]
    by (simp add: logCall_def example_engine_def)
  with a show ?thesis by simp
qed

lemma example_reusing_reachable: "reachable example_reusing"
proof -
  have "constructor (example_opts True)
          (example_platform\<lparr>newPeerConnection :=
             Inr (example_engine\<lparr>pc_addTrackResult := (\<lambda>_ _. Inr 3)\<rparr>)\<rparr>) = Inr example_reusing"
    by (simp add: example_reusing_def example_defs prim_defs)
  then show ?thesis by (rule reachable_init)
qed

lemma example_reused_reachable: "reachable example_reused"
  unfolding example_reused_def by (rule reachable_run[OF example_reusing_reachable])

lemma example_reused_senders:
  "\<not> destroying example_reused \<and> \<not> destroyed example_reused \<and>
   senderMap example_reused \<noteq> None \<and> senderOf example_reused 5 2 = None \<and>
   senderOf example_reused 1 2 = Some 3 \<and> senderRemoved example_reused 3 \<and>
   (\<exists>e. pc example_reused = Some e \<and> pc_addTrackResult e 5 2 = Inr 3)"
  by (simp add: example_reused_def run_def example_reusing_def example_defs prim_defs
        addTrack_def removeTrack_def senderOf_def submapOf_def setSubmap_def raised_def)

theorem addTrack_known_pair_fails_witness:
  "reachable example_reused \<and> senderOf example_reused 5 2 = None \<and>
   fst (addTrack 5 2 example_reused) = Return () \<and>
   addTrack 5 2 (snd (addTrack 5 2 example_reused)) =
     (Throw (Coded ''ERR_SENDER_REMOVED'' ''Error''
        ''Track has been removed. You should enable/disable tracks that you want to re-add.''),
      snd (addTrack 5 2 example_reused)) \<and>
   reachable (example_peer True) \<and>
   fst (addTrack 1 2 (example_peer True)) = Return () \<and>
   addTrack 1 2 example_added =
     (Throw (Coded ''ERR_SENDER_ALREADY_ADDED'' ''Error''
               ''Track has already been added to that stream.''), example_added) \<and>
   fst (removeTrack 1 2 example_added) = Return () \<and>
   addTrack 1 2 example_removed =
     (Throw (Coded ''ERR_SENDER_REMOVED'' ''Error''
        ''Track has been removed. You should enable/disable tracks that you want to re-add.''),
      example_removed)"
proof -
  from example_reused_senders obtain e where
    e: "pc example_reused = Some e" "pc_addTrackResult e 5 2 = Inr 3" by blast
  have a: "fst (addTrack 5 2 example_reused) = Return () \<and>
     addTrack 5 2 (snd (addTrack 5 2 example_reused)) =
       (Throw (Coded ''ERR_SENDER_REMOVED'' ''Error''
          ''Track has been removed. You should enable/disable tracks that you want to re-add.''),
        snd (addTrack 5 2 example_reused))"
    using addTrack_known_pair_fails[of example_reused 5 2 e 3] e example_reused_senders
    by (simp add: newError_def)
  have b: "fst (addTrack 1 2 (example_peer True)) = Return () \<and>
   addTrack 1 2 example_added =
     (Throw (Coded ''ERR_SENDER_ALREADY_ADDED'' ''Error''
               ''Track has already been added to that stream.''), example_added) \<and>
   fst (removeTrack 1 2 example_added) = Return () \<and>
   addTrack 1 2 example_removed =
     (Throw (Coded ''ERR_SENDER_REMOVED'' ''Error''
        ''Track has been removed. You should enable/disable tracks that you want to re-add.''),
      example_removed)"
    using addTrack_known_pair_fails[of "example_peer True" 1 2
            "logCall CallCreateDataChannel example_engine" 3]
      addTrack_known_pair_fails[of example_added 1 2 _ 3]
      example_peer_senders example_added_senders
    by (simp add: example_added_def example_removed_def newError_def)
  show ?thesis
    using a b example_reused_reachable example_reused_senders example_peer_reachable[of True]
    by simp
qed

end
